(* ===== verification/Py_Base.thy ===== *)
theory Py_Base
  imports Complex_Main
begin

text \<open>
  The prelude, first part: exceptions and state.

  \<^item> \<open>py_exc\<close> are exceptions as values, \<open>'a res\<close> is a call that returns or raises, and
    \<open>('s, 'a) prog\<close> is a call that also reads and writes a state. A state change made before
    an exception is kept, as it is in Python. The combinators (\<open>andthen\<close>, \<open>catch\<close>,
    \<open>try_else\<close>, \<open>finally_do\<close>, \<open>for_each\<close>, \<open>zoom\<close>) are sequencing, \<open>try/except\<close>,
    \<open>try/except/else\<close>, \<open>try/finally\<close>,
    \<open>for\<close> and a call on a component of the state.
  \<^item> \<open>keeps I m\<close> says that \<open>m\<close> keeps the invariant \<open>I\<close> on every exit, raised or not;
    \<open>ensures R m\<close> relates the states before and after. Both have one rule per combinator,
    collected in \<open>keeps_intros\<close> and, for the order relations, in the locale
    \<open>effect_order\<close>.
\<close>

section \<open>Collections of facts\<close>

named_theorems keeps_intros \<open>invariant rules, one per combinator or operation\<close>
named_theorems prog_defs \<open>definitions of the combinators, for evaluation\<close>

section \<open>Exceptions and calls\<close>

datatype exc_class =
    ValueError | KeyError | TimeoutError | OSError | ValidationError
  | MIParseError | MIControllerError | MICommandError | MITimeoutError
  | StateTransitionError | DebugSessionError | SessionNotFoundError | ConfirmationError
  | IntegrityError | AssertionError | RuntimeError | BadParameter

datatype py_exc = Exc (exc_of: exc_class) (exc_msg: string)

type_synonym 'a res = "py_exc + 'a"

type_synonym ('s, 'a) prog = "'s \<Rightarrow> 'a res \<times> 's"

definition ret :: "'a \<Rightarrow> ('s, 'a) prog" where
  "ret x s = (Inr x, s)"

definition throw :: "py_exc \<Rightarrow> ('s, 'a) prog" where
  "throw e s = (Inl e, s)"

definition andthen :: "('s, 'a) prog \<Rightarrow> ('a \<Rightarrow> ('s, 'b) prog) \<Rightarrow> ('s, 'b) prog" where
  "andthen m k s = (case m s of (Inl e, t) \<Rightarrow> (Inl e, t) | (Inr x, t) \<Rightarrow> k x t)"

definition gets :: "('s \<Rightarrow> 'a) \<Rightarrow> ('s, 'a) prog" where
  "gets f s = (Inr (f s), s)"

definition modify :: "('s \<Rightarrow> 's) \<Rightarrow> ('s, unit) prog" where
  "modify f s = (Inr (), f s)"

definition lift_res :: "'a res \<Rightarrow> ('s, 'a) prog" where
  "lift_res r s = (r, s)"

text \<open>\<open>try: m except Exception as e: h e\<close>.\<close>

definition catch :: "('s, 'a) prog \<Rightarrow> (py_exc \<Rightarrow> ('s, 'a) prog) \<Rightarrow> ('s, 'a) prog" where
  "catch m h s = (case m s of (Inl e, t) \<Rightarrow> h e t | (Inr x, t) \<Rightarrow> (Inr x, t))"

text \<open>\<open>try: m except Exception as e: h e else: k x\<close>, where the \<open>try\<close> does not cover \<open>k\<close>.\<close>

definition try_else ::
  "('s, 'a) prog \<Rightarrow> (py_exc \<Rightarrow> ('s, 'b) prog) \<Rightarrow> ('a \<Rightarrow> ('s, 'b) prog) \<Rightarrow> ('s, 'b) prog" where
  "try_else m h k s = (case m s of (Inl e, t) \<Rightarrow> h e t | (Inr x, t) \<Rightarrow> k x t)"

text \<open>\<open>try: m finally: fin\<close>: an exception of \<open>fin\<close> replaces the outcome of \<open>m\<close>.\<close>

definition finally_do :: "('s, 'a) prog \<Rightarrow> ('s, unit) prog \<Rightarrow> ('s, 'a) prog" where
  "finally_do m fin s =
     (case m s of (r, t) \<Rightarrow> (case fin t of (Inl e, u) \<Rightarrow> (Inl e, u) | (Inr _, u) \<Rightarrow> (r, u)))"

text \<open>\<open>for x in xs: acc = body x acc\<close>.\<close>

primrec for_each :: "'x list \<Rightarrow> ('x \<Rightarrow> 'a \<Rightarrow> ('s, 'a) prog) \<Rightarrow> 'a \<Rightarrow> ('s, 'a) prog" where
  "for_each [] body acc = ret acc"
| "for_each (x # xs) body acc = andthen (body x acc) (for_each xs body)"

text \<open>A call on a component of the state, read by \<open>get\<close> and written back by \<open>put\<close>.\<close>

definition zoom :: "('s \<Rightarrow> 't) \<Rightarrow> ('t \<Rightarrow> 's \<Rightarrow> 's) \<Rightarrow> ('t, 'a) prog \<Rightarrow> ('s, 'a) prog" where
  "zoom get put m s = (case m (get s) of (r, t) \<Rightarrow> (r, put t s))"

lemmas combinator_defs [prog_defs] =
  ret_def throw_def andthen_def gets_def modify_def lift_res_def catch_def try_else_def finally_do_def
  zoom_def

lemma ret_apply [simp]: "ret x s = (Inr x, s)"
  and throw_apply [simp]: "throw e s = (Inl e, s)"
  and gets_apply [simp]: "gets f s = (Inr (f s), s)"
  and modify_apply [simp]: "modify g s = (Inr (), g s)"
  and lift_res_apply [simp]: "lift_res r s = (r, s)"
  by (simp_all add: prog_defs)

lemma andthen_Inl: "m s = (Inl e, t) \<Longrightarrow> andthen m k s = (Inl e, t)"
  and andthen_Inr: "m s = (Inr x, t) \<Longrightarrow> andthen m k s = k x t"
  by (simp_all add: andthen_def)

lemma andthen_InrD:
  assumes "andthen m k s = (Inr y, u)"
  obtains x t where "m s = (Inr x, t)" and "k x t = (Inr y, u)"
  using assms by (auto simp: andthen_def split: prod.splits sum.splits)

lemma andthen_InlD:
  assumes "andthen m k s = (Inl e, u)"
  obtains "m s = (Inl e, u)" | x t where "m s = (Inr x, t)" and "k x t = (Inl e, u)"
  using assms by (auto simp: andthen_def split: prod.splits sum.splits)

text \<open>The combinators satisfy the monad laws.\<close>

lemma andthen_ret [simp]: "andthen (ret x) k = k x"
  and ret_andthen [simp]: "andthen m ret = m"
  by (auto simp: fun_eq_iff prog_defs split: prod.splits sum.splits)

lemma andthen_assoc: "andthen (andthen m k) l = andthen m (\<lambda>x. andthen (k x) l)"
  by (auto simp: fun_eq_iff prog_defs split: prod.splits sum.splits)

section \<open>Invariants of calls\<close>

definition keeps :: "('s \<Rightarrow> bool) \<Rightarrow> ('s, 'a) prog \<Rightarrow> bool" where
  "keeps I m \<longleftrightarrow> (\<forall>s. I s \<longrightarrow> I (snd (m s)))"

lemma keepsI: "(\<And>s. I s \<Longrightarrow> I (snd (m s))) \<Longrightarrow> keeps I m"
  and keepsD: "keeps I m \<Longrightarrow> I s \<Longrightarrow> I (snd (m s))"
  by (simp_all add: keeps_def)

lemma keeps_run: "keeps I m \<Longrightarrow> m s = (r, t) \<Longrightarrow> I s \<Longrightarrow> I t"
  using keepsD [of I m s] by simp

lemma keeps_basic [keeps_intros]:
  "keeps I (ret x)" "keeps I (throw e)" "keeps I (gets f)" "keeps I (lift_res r)"
  by (simp_all add: keeps_def)

lemma keeps_modify [keeps_intros]: "(\<And>s. I s \<Longrightarrow> I (f s)) \<Longrightarrow> keeps I (modify f)"
  by (simp add: keeps_def)

lemma keeps_andthen [keeps_intros]:
  assumes "keeps I m" and "\<And>x. keeps I (k x)"
  shows "keeps I (andthen m k)"
  using assms by (fastforce simp: keeps_def andthen_def split: prod.splits sum.splits
      dest: spec)

lemma keeps_catch [keeps_intros]:
  assumes "keeps I m" and "\<And>e. keeps I (h e)"
  shows "keeps I (catch m h)"
  using assms by (fastforce simp: keeps_def catch_def split: prod.splits sum.splits
      dest: spec)

lemma keeps_try_else [keeps_intros]:
  assumes "keeps I m" and "\<And>e. keeps I (h e)" and "\<And>x. keeps I (k x)"
  shows "keeps I (try_else m h k)"
  using assms by (fastforce simp: keeps_def try_else_def split: prod.splits sum.splits
      dest: spec)

lemma keeps_finally [keeps_intros]:
  assumes "keeps I m" and "keeps I fin"
  shows "keeps I (finally_do m fin)"
proof (rule keepsI)
  fix s assume "I s"
  obtain r t where m: "m s = (r, t)" by fastforce
  obtain r' u where f: "fin t = (r', u)" by fastforce
  have "I u" using keeps_run [OF assms(2) f] keeps_run [OF assms(1) m \<open>I s\<close>] by simp
  with m f show "I (snd (finally_do m fin s))"
    by (cases r') (simp_all add: finally_do_def)
qed

lemma keeps_for_each [keeps_intros]:
  "(\<And>x acc. keeps I (body x acc)) \<Longrightarrow> keeps I (for_each xs body acc)"
  by (induction xs arbitrary: acc) (auto intro: keeps_intros)

lemma keeps_zoom [keeps_intros]:
  assumes "keeps J m" and "\<And>s. I s \<Longrightarrow> J (get s)" and "\<And>s t. I s \<Longrightarrow> J t \<Longrightarrow> I (put t s)"
  shows "keeps I (zoom get put m)"
  using assms by (auto simp: keeps_def zoom_def split: prod.splits) (metis snd_conv)

lemma keeps_if [keeps_intros]: "(b \<Longrightarrow> keeps I m) \<Longrightarrow> (\<not> b \<Longrightarrow> keeps I n) \<Longrightarrow> keeps I (if b then m else n)"
  by simp

lemma keeps_option [keeps_intros]:
  "(x = None \<Longrightarrow> keeps I m) \<Longrightarrow> (\<And>y. x = Some y \<Longrightarrow> keeps I (n y)) \<Longrightarrow>
   keeps I (case x of None \<Rightarrow> m | Some y \<Rightarrow> n y)"
  by (cases x) simp_all

lemma keeps_sum [keeps_intros]:
  "(\<And>e. r = Inl e \<Longrightarrow> keeps I (m e)) \<Longrightarrow> (\<And>y. r = Inr y \<Longrightarrow> keeps I (n y)) \<Longrightarrow>
   keeps I (case r of Inl e \<Rightarrow> m e | Inr y \<Rightarrow> n y)"
  by (cases r) simp_all

section \<open>Calls that only move the state forward\<close>

text \<open>
  A relation between the state before and the state after a call. Logs that only grow and
  counters that never go back are preorders; for a preorder the property goes through every
  combinator.
\<close>

definition ensures :: "('s \<Rightarrow> 's \<Rightarrow> bool) \<Rightarrow> ('s, 'a) prog \<Rightarrow> bool" where
  "ensures R m \<longleftrightarrow> (\<forall>s. R s (snd (m s)))"

lemma ensuresI: "(\<And>s. R s (snd (m s))) \<Longrightarrow> ensures R m"
  and ensuresD: "ensures R m \<Longrightarrow> R s (snd (m s))"
  by (simp_all add: ensures_def)

lemma ensures_run: "ensures R m \<Longrightarrow> m s = (r, t) \<Longrightarrow> R s t"
  using ensuresD [of R m s] by simp

locale effect_order =
  fixes R :: "'s \<Rightarrow> 's \<Rightarrow> bool"
  assumes R_refl: "R s s"
    and R_trans: "R s t \<Longrightarrow> R t u \<Longrightarrow> R s u"
begin

lemma ensures_basic: "ensures R (ret x)" "ensures R (throw e)" "ensures R (gets f)"
  "ensures R (lift_res r)"
  by (simp_all add: ensures_def R_refl)

lemma ensures_modify: "(\<And>s. R s (f s)) \<Longrightarrow> ensures R (modify f)"
  by (simp add: ensures_def)

lemma ensures_andthen:
  assumes "ensures R m" and "\<And>x. ensures R (k x)"
  shows "ensures R (andthen m k)"
proof (rule ensuresI)
  fix s
  obtain r t where m: "m s = (r, t)" by fastforce
  have st: "R s t" using assms(1) m by (rule ensures_run)
  show "R s (snd (andthen m k s))"
    using st m R_trans [OF st ensuresD [OF assms(2)]]
    by (cases r) (simp_all add: andthen_def)
qed

lemma ensures_catch:
  assumes "ensures R m" and "\<And>e. ensures R (h e)"
  shows "ensures R (catch m h)"
proof (rule ensuresI)
  fix s
  obtain r t where m: "m s = (r, t)" by fastforce
  have st: "R s t" using assms(1) m by (rule ensures_run)
  show "R s (snd (catch m h s))"
    using st m R_trans [OF st ensuresD [OF assms(2)]]
    by (cases r) (simp_all add: catch_def)
qed

lemma ensures_try_else:
  assumes "ensures R m" and "\<And>e. ensures R (h e)" and "\<And>x. ensures R (k x)"
  shows "ensures R (try_else m h k)"
proof (rule ensuresI)
  fix s
  obtain r t where m: "m s = (r, t)" by fastforce
  have st: "R s t" using assms(1) m by (rule ensures_run)
  show "R s (snd (try_else m h k s))"
    using m R_trans [OF st ensuresD [OF assms(2)]] R_trans [OF st ensuresD [OF assms(3)]]
    by (cases r) (simp_all add: try_else_def)
qed

lemma ensures_finally:
  assumes "ensures R m" and "ensures R fin"
  shows "ensures R (finally_do m fin)"
proof (rule ensuresI)
  fix s
  obtain r t where m: "m s = (r, t)" by fastforce
  obtain r' u where f: "fin t = (r', u)" by fastforce
  have "R s u" using ensures_run [OF assms(1) m] ensures_run [OF assms(2) f] by (rule R_trans)
  with m f show "R s (snd (finally_do m fin s))"
    by (cases r') (simp_all add: finally_do_def)
qed

lemma ensures_for_each:
  "(\<And>x acc. ensures R (body x acc)) \<Longrightarrow> ensures R (for_each xs body acc)"
  by (induction xs arbitrary: acc) (auto intro: ensures_basic ensures_andthen)

lemma ensures_if: "ensures R m \<Longrightarrow> ensures R n \<Longrightarrow> ensures R (if b then m else n)"
  by simp

lemma ensures_option:
  "ensures R m \<Longrightarrow> (\<And>y. ensures R (n y)) \<Longrightarrow>
   ensures R (case x of None \<Rightarrow> m | Some y \<Rightarrow> n y)"
  by (cases x) simp_all

lemma ensures_sum:
  "(\<And>e. ensures R (m e)) \<Longrightarrow> (\<And>y. ensures R (n y)) \<Longrightarrow>
   ensures R (case r of Inl e \<Rightarrow> m e | Inr y \<Rightarrow> n y)"
  by (cases r) simp_all

lemmas ensures_intros =
  ensures_basic ensures_modify ensures_andthen ensures_catch ensures_try_else ensures_finally
  ensures_for_each ensures_if ensures_option ensures_sum

end

lemma ensures_zoom:
  assumes "ensures Q m" and "\<And>s t. Q (get s) t \<Longrightarrow> R s (put t s)"
  shows "ensures R (zoom get put m)"
  using assms by (auto simp: ensures_def zoom_def split: prod.splits) (metis snd_conv)

end
