(* ===== verification/Py_Dict.thy ===== *)
theory Py_Dict
  imports Py_Base "HOL-Library.AList" "HOL-Library.List_Lexorder" "HOL-Library.Char_ord"
begin

text \<open>
  The prelude, second part: dicts. A \<open>'v dict\<close> is an association list in insertion order,
  each key once (\<open>dict_ok\<close>), as a Python dict is: an assignment to a present key keeps its
  place, a new key goes to the end. The locale \<open>keyed_store\<close> is the contract that the
  components owning a dict (sessions, snapshots, confirmation tokens, per-session counters)
  rely on.
\<close>

named_theorems dict_simps \<open>lookup after update, deletion and merge of dicts\<close>

type_synonym 'v dict = "(string \<times> 'v) list"

definition dict_ok :: "'v dict \<Rightarrow> bool" where
  "dict_ok d \<longleftrightarrow> distinct (map fst d)"

abbreviation dict_get :: "'v dict \<Rightarrow> string \<Rightarrow> 'v option" where
  "dict_get \<equiv> map_of"

abbreviation dict_keys :: "'v dict \<Rightarrow> string list" where
  "dict_keys d \<equiv> map fst d"

definition dict_set :: "string \<Rightarrow> 'v \<Rightarrow> 'v dict \<Rightarrow> 'v dict" where
  "dict_set k v d = AList.update k v d"

definition dict_del :: "string \<Rightarrow> 'v dict \<Rightarrow> 'v dict" where
  "dict_del k d = filter (\<lambda>kv. fst kv \<noteq> k) d"

text \<open>\<open>{**d, **e}\<close>, and the comprehension \<open>{k: v for k, v in kvs}\<close> as \<open>dict_of\<close>.\<close>

primrec dict_merge :: "'v dict \<Rightarrow> (string \<times> 'v) list \<Rightarrow> 'v dict" where
  "dict_merge d [] = d"
| "dict_merge d (kv # e) = dict_merge (dict_set (fst kv) (snd kv) d) e"

definition dict_of :: "(string \<times> 'v) list \<Rightarrow> 'v dict" where
  "dict_of kvs = dict_merge [] kvs"

lemma dict_set_code [simp]:
  "dict_set k v [] = [(k, v)]"
  "dict_set k v (p # d) = (if fst p = k then (k, v) # d else p # dict_set k v d)"
  by (simp_all add: dict_set_def)

lemma dict_get_set [simp, dict_simps]: "dict_get (dict_set k v d) k' = (if k' = k then Some v else dict_get d k')"
  by (simp add: dict_set_def update_conv')

lemma dict_get_del [simp, dict_simps]: "dict_get (dict_del k d) k' = (if k' = k then None else dict_get d k')"
  unfolding dict_del_def by (induction d) auto

lemma dict_keys_set: "dict_keys (dict_set k v d) = (if k \<in> set (dict_keys d) then dict_keys d else dict_keys d @ [k])"
  by (simp add: dict_set_def update_keys)

lemma set_keys_set [simp]: "fst ` set (dict_set k v d) = insert k (fst ` set d)"
  by (simp add: dict_set_def dom_update)

lemma set_dict_set: "set (dict_set k v d) \<subseteq> insert (k, v) (set d)"
  by (induction d) auto

lemma dict_ok_Nil [simp]: "dict_ok []"
  by (simp add: dict_ok_def)

lemma dict_ok_set [intro, simp]: "dict_ok d \<Longrightarrow> dict_ok (dict_set k v d)"
  by (simp add: dict_ok_def dict_keys_set)

lemma dict_ok_del [intro, simp]: "dict_ok d \<Longrightarrow> dict_ok (dict_del k d)"
  by (simp add: dict_ok_def dict_del_def distinct_map_filter)

lemma dict_ok_merge [intro, simp]: "dict_ok d \<Longrightarrow> dict_ok (dict_merge d e)"
  by (induction e arbitrary: d) auto

lemma dict_ok_of [simp]: "dict_ok (dict_of kvs)"
  by (simp add: dict_of_def)

lemma dict_get_merge [dict_simps]:
  "dict_get (dict_merge d e) k = (case dict_get (rev e) k of None \<Rightarrow> dict_get d k | Some v \<Rightarrow> Some v)"
  by (induction e arbitrary: d) (auto simp: map_add_def split: option.splits)

lemma dict_set_fresh: "k \<notin> fst ` set d \<Longrightarrow> dict_set k v d = d @ [(k, v)]"
  by (induction d) auto

lemma dict_merge_fresh:
  "distinct (map fst e) \<Longrightarrow> fst ` set d \<inter> fst ` set e = {} \<Longrightarrow> dict_merge d e = d @ e"
proof (induction e arbitrary: d)
  case (Cons kv e)
  have "dict_set (fst kv) (snd kv) d = d @ [kv]"
    using Cons.prems(2) by (simp add: dict_set_fresh)
  moreover have "fst ` set (d @ [kv]) \<inter> fst ` set e = {}"
    using Cons.prems by auto
  ultimately show ?case using Cons.IH [of "d @ [kv]"] Cons.prems(1) by simp
qed simp

lemma dict_of_id: "dict_ok d \<Longrightarrow> dict_of d = d"
  using dict_merge_fresh [of d "[]"] by (simp add: dict_of_def dict_ok_def)

lemma dict_get_of [dict_simps]: "dict_get (dict_of kvs) k = dict_get (rev kvs) k"
  by (simp add: dict_of_def dict_get_merge split: option.splits)

lemma dict_get_iff: "dict_ok d \<Longrightarrow> dict_get d k = Some v \<longleftrightarrow> (k, v) \<in> set d"
  by (simp add: dict_ok_def)

lemma dict_get_keys: "dict_get d k \<noteq> None \<longleftrightarrow> k \<in> set (dict_keys d)"
  by (simp add: map_of_eq_None_iff)

lemma dict_get_in_keys: "dict_get d k = Some v \<Longrightarrow> k \<in> fst ` set d"
  by (metis map_of_eq_None_iff option.distinct(1))

lemma length_dict_set: "length (dict_set k v d) = (if k \<in> set (dict_keys d) then length d else Suc (length d))"
  using arg_cong [OF dict_keys_set, of length k v d] by (simp split: if_splits)

lemma length_dict_del_le: "length (dict_del k d) \<le> length d"
  by (simp add: dict_del_def)

lemma length_dict_del:
  "dict_ok d \<Longrightarrow> dict_get d k \<noteq> None \<Longrightarrow> Suc (length (dict_del k d)) = length d"
proof (induction d)
  case (Cons p d)
  show ?case
  proof (cases "fst p = k")
    case True
    then have "k \<notin> fst ` set d" using Cons.prems(1) by (simp add: dict_ok_def)
    then have "\<forall>q \<in> set d. fst q \<noteq> k" by (metis image_eqI)
    then have "dict_del k d = d" by (simp add: dict_del_def)
    with True show ?thesis by (simp add: dict_del_def)
  next
    case False
    with Cons show ?thesis by (simp add: dict_ok_def dict_del_def)
  qed
qed simp

text \<open>\<open>sorted(d)\<close>: the keys in the order of code points.\<close>

definition sorted_keys :: "'v dict \<Rightarrow> string list" where
  "sorted_keys d = sort (dict_keys d)"

lemma sorted_keys_sorted [simp]: "sorted (sorted_keys d)"
  by (simp add: sorted_keys_def)

lemma set_sorted_keys [simp]: "set (sorted_keys d) = fst ` set d"
  by (simp add: sorted_keys_def)

lemma distinct_sorted_keys [simp]: "distinct (sorted_keys d) \<longleftrightarrow> dict_ok d"
  by (simp add: sorted_keys_def dict_ok_def)

lemma length_sorted_keys [simp]: "length (sorted_keys d) = length d"
  by (simp add: sorted_keys_def)

section \<open>The contract of a keyed store\<close>

text \<open>
  What an owner of a dict promises about it: the keys are unique, a stored entry is found
  again, a deleted one is not, and neither touches another key.
\<close>

locale keyed_store =
  fixes lookup :: "'m \<Rightarrow> string \<Rightarrow> 'v option"
    and store :: "string \<Rightarrow> 'v \<Rightarrow> 'm \<Rightarrow> 'm"
    and discard :: "string \<Rightarrow> 'm \<Rightarrow> 'm"
    and ok :: "'m \<Rightarrow> bool"
    and count :: "'m \<Rightarrow> nat"
  assumes lookup_store: "lookup (store k v m) k' = (if k' = k then Some v else lookup m k')"
    and lookup_discard: "lookup (discard k m) k' = (if k' = k then None else lookup m k')"
    and ok_store: "ok m \<Longrightarrow> ok (store k v m)"
    and ok_discard: "ok m \<Longrightarrow> ok (discard k m)"
    and count_store: "count (store k v m) = (if lookup m k = None then Suc (count m) else count m)"
    and count_discard: "ok m \<Longrightarrow> lookup m k \<noteq> None \<Longrightarrow> Suc (count (discard k m)) = count m"
begin

lemma lookup_store_same: "lookup (store k v m) k = Some v"
  by (simp add: lookup_store)

lemma lookup_discard_same: "lookup (discard k m) k = None"
  by (simp add: lookup_discard)

lemma lookup_store_other: "k' \<noteq> k \<Longrightarrow> lookup (store k v m) k' = lookup m k'"
  by (simp add: lookup_store)

lemma discard_store: "lookup m k = None \<Longrightarrow> lookup (discard k (store k v m)) = lookup m"
  by (auto simp: fun_eq_iff lookup_store lookup_discard)

lemma count_store_bounds: "count m \<le> count (store k v m) \<and> count (store k v m) \<le> Suc (count m)"
  by (simp add: count_store)

lemma consume_once: "lookup (discard k (discard k m)) k = None"
  by (rule lookup_discard_same)

lemma ok_upd: "ok m \<Longrightarrow> ok (discard j (store k v m))"
  by (intro ok_discard ok_store)

end

interpretation pydict: keyed_store map_of dict_set dict_del dict_ok length
proof unfold_locales
  show "\<And>(k::string) (v::'a) m. length (dict_set k v m) = (if map_of m k = None then Suc (length m) else length m)"
    by (simp add: length_dict_set map_of_eq_None_iff)
qed (auto simp: length_dict_del)

end
