(* ===== verification/Py_Text.thy ===== *)
theory Py_Text
  imports Py_Base "HOL-Library.Word" "HOL-Library.List_Lexorder" "HOL-Library.Char_ord"
begin

text \<open>
  The prelude, third part: text, integers and bytes.

  A \<open>char\<close> stands for one of the first 256 code points. The character classes are the
  tables of Python's \<open>str.isdigit\<close>, \<open>isalpha\<close>, \<open>isalnum\<close>, \<open>isspace\<close>, \<open>isprintable\<close> and
  \<open>lower\<close> on that range (\<open>isdigit\<close> includes the superscripts, which \<open>int\<close> refuses);
  code points beyond it are outside the model. Also here: \<open>str(int)\<close>, \<open>int(s)\<close> on digit
  strings, \<open>int(s, 0)\<close>, \<open>bytes.fromhex\<close>, \<open>int.from_bytes(.., 'little')\<close>, \<open>repr\<close> of a
  string and the format \<open>0x{n:08x}\<close>, with the round-trip lemmas the components use.
\<close>

section \<open>Characters\<close>

definition cp :: "char \<Rightarrow> nat" where
  "cp c = of_char c"

definition is_decimal :: "char \<Rightarrow> bool" where
  "is_decimal c \<longleftrightarrow> 48 \<le> cp c \<and> cp c \<le> 57"

definition is_digit :: "char \<Rightarrow> bool" where
  "is_digit c \<longleftrightarrow> is_decimal c \<or> cp c = 178 \<or> cp c = 179 \<or> cp c = 185"

definition is_alpha :: "char \<Rightarrow> bool" where
  "is_alpha c \<longleftrightarrow>
     (65 \<le> cp c \<and> cp c \<le> 90) \<or> (97 \<le> cp c \<and> cp c \<le> 122) \<or>
     cp c = 170 \<or> cp c = 181 \<or> cp c = 186 \<or>
     (192 \<le> cp c \<and> cp c \<noteq> 215 \<and> cp c \<noteq> 247)"

definition is_alnum :: "char \<Rightarrow> bool" where
  "is_alnum c \<longleftrightarrow> is_alpha c \<or> is_digit c \<or> (188 \<le> cp c \<and> cp c \<le> 190)"

definition is_space :: "char \<Rightarrow> bool" where
  "is_space c \<longleftrightarrow>
     (9 \<le> cp c \<and> cp c \<le> 13) \<or> (28 \<le> cp c \<and> cp c \<le> 32) \<or> cp c = 133 \<or> cp c = 160"

definition is_printable :: "char \<Rightarrow> bool" where
  "is_printable c \<longleftrightarrow> (32 \<le> cp c \<and> cp c \<le> 126) \<or> (161 \<le> cp c \<and> cp c \<noteq> 173)"

definition lower_char :: "char \<Rightarrow> char" where
  "lower_char c =
     (if (65 \<le> cp c \<and> cp c \<le> 90) \<or> (192 \<le> cp c \<and> cp c \<le> 222 \<and> cp c \<noteq> 215)
      then char_of (cp c + 32) else c)"

abbreviation DQUOTE :: char where "DQUOTE \<equiv> CHR 0x22"
abbreviation SQUOTE :: char where "SQUOTE \<equiv> CHR 0x27"
abbreviation BSLASH :: char where "BSLASH \<equiv> CHR 0x5C"
abbreviation LF :: char where "LF \<equiv> CHR 0x0A"
abbreviation CR :: char where "CR \<equiv> CHR 0x0D"
abbreviation TAB :: char where "TAB \<equiv> CHR 0x09"

lemma cp_char_of: "n < 256 \<Longrightarrow> cp (char_of n) = n"
  by (simp add: cp_def)

lemma cp_less: "cp c < 256"
  by (simp add: cp_def)

lemma cp_inj: "cp c = cp d \<Longrightarrow> c = d"
  by (simp add: cp_def)

lemmas char_class_defs =
  is_alnum_def is_digit_def is_alpha_def is_decimal_def is_space_def is_printable_def cp_def

section \<open>Strings\<close>

definition lower :: "string \<Rightarrow> string" where
  "lower s = map lower_char s"

definition rstrip_chars :: "(char \<Rightarrow> bool) \<Rightarrow> string \<Rightarrow> string" where
  "rstrip_chars p s = rev (dropWhile p (rev s))"

definition strip_chars :: "(char \<Rightarrow> bool) \<Rightarrow> string \<Rightarrow> string" where
  "strip_chars p s = rstrip_chars p (dropWhile p s)"

definition replace_char :: "char \<Rightarrow> string \<Rightarrow> string \<Rightarrow> string" where
  "replace_char x r s = concat (map (\<lambda>c. if c = x then r else [c]) s)"

definition startswith :: "string \<Rightarrow> string \<Rightarrow> bool" where
  "startswith s p \<longleftrightarrow> take (length p) s = p"

fun contains :: "string \<Rightarrow> string \<Rightarrow> bool" where
  "contains [] p = (p = [])"
| "contains (c # s) p = (startswith (c # s) p \<or> contains s p)"

fun join :: "string \<Rightarrow> string list \<Rightarrow> string" where
  "join sep [] = []"
| "join sep [x] = x"
| "join sep (x # y # zs) = x @ sep @ join sep (y # zs)"

text \<open>\<open>s.split(sep)\<close> on one character: the pieces between its occurrences.\<close>

fun split_on :: "char \<Rightarrow> string \<Rightarrow> string list" where
  "split_on sep [] = [[]]"
| "split_on sep (c # s) =
     (if c = sep then [] # split_on sep s
      else (case split_on sep s of [] \<Rightarrow> [[c]] | w # ws \<Rightarrow> (c # w) # ws))"

lemma split_on_nonempty [simp]: "split_on sep s \<noteq> []"
  by (induction s) (auto split: list.splits)

lemma split_on_none: "sep \<notin> set s \<Longrightarrow> split_on sep s = [s]"
  by (induction s) auto

lemma split_on_sep: "split_on sep (a @ sep # b) = split_on sep a @ split_on sep b"
proof (induction a)
  case (Cons c a)
  then show ?case by (cases "split_on sep a") auto
qed simp

lemma split_on_no_sep: "w \<in> set (split_on sep s) \<Longrightarrow> sep \<notin> set w"
  by (induction s arbitrary: w) (auto split: if_splits list.splits)

lemma rstrip_none: "(s = [] \<or> \<not> p (last s)) \<Longrightarrow> rstrip_chars p s = s"
  by (cases s rule: rev_cases) (simp_all add: rstrip_chars_def)

lemma rstrip_append: "list_all p t \<Longrightarrow> rstrip_chars p (s @ t) = rstrip_chars p s"
  by (simp add: rstrip_chars_def dropWhile_append list_all_iff)

section \<open>Integers as text\<close>

fun nat_str :: "nat \<Rightarrow> string" where
  "nat_str n = (if n < 10 then [char_of (48 + n)] else nat_str (n div 10) @ [char_of (48 + n mod 10)])"

declare nat_str.simps [simp del]

definition int_str :: "int \<Rightarrow> string" where
  "int_str i = (if i < 0 then CHR ''-'' # nat_str (nat (- i)) else nat_str (nat i))"

text \<open>The value of a digit string in a base; a character that is no digit counts as 0.\<close>

definition digit_val :: "char \<Rightarrow> nat option" where
  "digit_val c =
     (if 48 \<le> cp c \<and> cp c \<le> 57 then Some (cp c - 48)
      else if 97 \<le> cp c \<and> cp c \<le> 102 then Some (cp c - 87)
      else if 65 \<le> cp c \<and> cp c \<le> 70 then Some (cp c - 55)
      else None)"

definition digits_val :: "nat \<Rightarrow> string \<Rightarrow> nat" where
  "digits_val b s = foldl (\<lambda>n c. b * n + (case digit_val c of None \<Rightarrow> 0 | Some d \<Rightarrow> d)) 0 s"

text \<open>
  \<open>int(s)\<close> on a non-empty string of characters that \<open>isdigit\<close> accepts: the superscripts
  are digits and not decimals, and more than 4300 decimals are refused (the interpreter's
  limit on conversions); both raise \<open>ValueError\<close>.
\<close>

definition int_of_digits :: "string \<Rightarrow> nat option" where
  "int_of_digits s =
     (if list_all is_decimal s \<and> length s \<le> 4300 then Some (digits_val 10 s) else None)"

lemma nat_str_decimal: "list_all is_decimal (nat_str n)"
proof (induction n rule: nat_str.induct)
  case (1 n)
  then show ?case by (subst nat_str.simps) (auto simp add: is_decimal_def [of "char_of _"] cp_char_of)
qed

lemma nat_str_nonempty [simp]: "nat_str n \<noteq> []"
  by (subst nat_str.simps) simp

lemma digits_val_snoc:
  "digits_val b (s @ [c]) = b * digits_val b s + (case digit_val c of None \<Rightarrow> 0 | Some d \<Rightarrow> d)"
  by (simp add: digits_val_def)

lemma digit_val_decimal: "n < 10 \<Longrightarrow> digit_val (char_of (48 + n)) = Some n"
  by (simp add: digit_val_def cp_char_of)

lemma digits_val_nat_str [simp]: "digits_val 10 (nat_str n) = n"
proof (induction n rule: nat_str.induct)
  case (1 n)
  show ?case
  proof (cases "n < 10")
    case True
    then show ?thesis
      by (subst nat_str.simps) (simp add: digits_val_def digit_val_decimal)
  next
    case False
    then have "digits_val 10 (nat_str n) = 10 * (n div 10) + n mod 10"
      by (subst nat_str.simps) (simp add: digits_val_snoc digit_val_decimal 1)
    then show ?thesis by simp
  qed
qed

lemma nat_str_inj: "nat_str m = nat_str n \<Longrightarrow> m = n"
  by (metis digits_val_nat_str)

lemma is_decimal_is_digit: "is_decimal c \<Longrightarrow> is_digit c"
  by (simp add: is_digit_def)

lemma nat_str_digits: "c \<in> set (nat_str n) \<Longrightarrow> is_digit c"
  using nat_str_decimal [of n] by (auto simp: list_all_iff is_digit_def)

lemma nat_str_length: "n < 10 ^ k \<Longrightarrow> 0 < k \<Longrightarrow> length (nat_str n) \<le> k"
proof (induction n arbitrary: k rule: nat_str.induct)
  case (1 n)
  show ?case
  proof (cases "n < 10")
    case True
    then show ?thesis using "1.prems" by (subst nat_str.simps) simp
  next
    case False
    with "1.prems" obtain j where j: "k = Suc j" "0 < j"
      by (metis gr0_implies_Suc neq0_conv power_0 power_Suc0_right)
    have "n div 10 < 10 ^ j" using "1.prems"(1) j(1) by (simp add: div_less_iff_less_mult mult.commute)
    with "1.IH" [OF False _ j(2)] False j(1) show ?thesis by (subst nat_str.simps) simp
  qed
qed

lemma int_of_digits_nat_str:
  "length (nat_str n) \<le> 4300 \<Longrightarrow> int_of_digits (nat_str n) = Some n"
  by (simp add: int_of_digits_def nat_str_decimal)

lemma int_str_nonneg: "int_str (int n) = nat_str n"
  by (simp add: int_str_def)

subsection \<open>int(s, 0)\<close>

definition is_int_space :: "char \<Rightarrow> bool" where
  "is_int_space c \<longleftrightarrow> (9 \<le> cp c \<and> cp c \<le> 13) \<or> cp c = 32 \<or> cp c = 133 \<or> cp c = 160"

definition is_base_digit :: "nat \<Rightarrow> char \<Rightarrow> bool" where
  "is_base_digit b c \<longleftrightarrow> (case digit_val c of None \<Rightarrow> False | Some d \<Rightarrow> d < b)"

fun double_underscore :: "string \<Rightarrow> bool" where
  "double_underscore (c # d # s) =
     ((c = CHR ''_'' \<and> d = CHR ''_'') \<or> double_underscore (d # s))"
| "double_underscore s = False"

definition digit_group :: "nat \<Rightarrow> string \<Rightarrow> nat option" where
  "digit_group b s =
     (let ds = filter (\<lambda>c. c \<noteq> CHR ''_'') s
      in if s = [] \<or> hd s = CHR ''_'' \<or> last s = CHR ''_'' \<or> double_underscore s
            \<or> \<not> list_all (is_base_digit b) ds \<or> (b = 10 \<and> 4300 < length ds)
         then None else Some (digits_val b ds))"

definition skip_underscore :: "string \<Rightarrow> string" where
  "skip_underscore s = (case s of c # t \<Rightarrow> if c = CHR ''_'' then t else s | [] \<Rightarrow> s)"

definition unsigned_int0 :: "string \<Rightarrow> nat option" where
  "unsigned_int0 s =
     (case s of
        c # d # t \<Rightarrow>
          if c = CHR ''0'' \<and> (d = CHR ''x'' \<or> d = CHR ''X'') then digit_group 16 (skip_underscore t)
          else if c = CHR ''0'' \<and> (d = CHR ''o'' \<or> d = CHR ''O'') then digit_group 8 (skip_underscore t)
          else if c = CHR ''0'' \<and> (d = CHR ''b'' \<or> d = CHR ''B'') then digit_group 2 (skip_underscore t)
          else if c = CHR ''0'' then
            (case digit_group 10 s of None \<Rightarrow> None | Some n \<Rightarrow> if n = 0 then Some 0 else None)
          else digit_group 10 s
      | _ \<Rightarrow> digit_group 10 s)"

definition py_int0 :: "string \<Rightarrow> int option" where
  "py_int0 s =
     (case strip_chars is_int_space s of
        [] \<Rightarrow> None
      | c # t \<Rightarrow>
          if c = CHR ''-'' then map_option (\<lambda>n. - int n) (unsigned_int0 t)
          else if c = CHR ''+'' then map_option int (unsigned_int0 t)
          else map_option int (unsigned_int0 (c # t)))"

section \<open>Hexadecimal and bytes\<close>

definition hex_char :: "nat \<Rightarrow> char" where
  "hex_char n = (if n < 10 then char_of (48 + n) else char_of (87 + n))"

fun hex_nat :: "nat \<Rightarrow> string" where
  "hex_nat n = (if n < 16 then [hex_char n] else hex_nat (n div 16) @ [hex_char (n mod 16)])"

declare hex_nat.simps [simp del]

definition zero_pad :: "nat \<Rightarrow> string \<Rightarrow> string" where
  "zero_pad w s = replicate (w - length s) (CHR ''0'') @ s"

text \<open>The format \<open>f"0x{i:08x}"\<close>; a sign counts towards the width.\<close>

definition hex08 :: "int \<Rightarrow> string" where
  "hex08 i = ''0x'' @ (if i < 0 then CHR ''-'' # zero_pad 7 (hex_nat (nat (- i)))
                      else zero_pad 8 (hex_nat (nat i)))"

type_synonym byte = "8 word"

fun fromhex_go :: "nat \<Rightarrow> string \<Rightarrow> nat + byte list" where
  "fromhex_go p [] = Inr []"
| "fromhex_go p [c] =
     (if (9 \<le> cp c \<and> cp c \<le> 13) \<or> cp c = 32 then Inr []
      else if digit_val c = None then Inl p else Inl (p + 1))"
| "fromhex_go p (c # d # s) =
     (if (9 \<le> cp c \<and> cp c \<le> 13) \<or> cp c = 32 then fromhex_go (p + 1) (d # s)
      else (case digit_val c of
              None \<Rightarrow> Inl p
            | Some h \<Rightarrow>
               (case digit_val d of
                  None \<Rightarrow> Inl (p + 1)
                | Some l \<Rightarrow>
                   (case fromhex_go (p + 2) s of
                      Inl q \<Rightarrow> Inl q
                    | Inr bs \<Rightarrow> Inr (word_of_nat (16 * h + l) # bs)))))"

definition bytes_fromhex :: "string \<Rightarrow> byte list res" where
  "bytes_fromhex s =
     (case (if list_all (\<lambda>c. cp c < 128) s then fromhex_go 0 s
            else Inl (length (takeWhile (\<lambda>c. cp c < 128) s))) of
        Inl p \<Rightarrow> Inl (Exc ValueError
           (''non-hexadecimal number found in fromhex() arg at position '' @ nat_str p))
      | Inr bs \<Rightarrow> Inr bs)"

primrec from_bytes_le :: "byte list \<Rightarrow> int" where
  "from_bytes_le [] = 0"
| "from_bytes_le (b # bs) = uint b + 256 * from_bytes_le bs"

text \<open>The lower-case hexadecimal text of bytes (\<open>bytes.hex\<close>).\<close>

definition byte_hex :: "byte \<Rightarrow> string" where
  "byte_hex b = [hex_char (unat b div 16), hex_char (unat b mod 16)]"

definition bytes_hex :: "byte list \<Rightarrow> string" where
  "bytes_hex bs = concat (map byte_hex bs)"

lemma digit_val_hex_char: "n < 16 \<Longrightarrow> digit_val (hex_char n) = Some n"
  by (simp add: digit_val_def hex_char_def cp_char_of)

lemma cp_hex_char: "n < 16 \<Longrightarrow> 48 \<le> cp (hex_char n) \<and> cp (hex_char n) < 103"
  by (simp add: hex_char_def cp_char_of)

lemma byte_bound: "unat (b :: byte) < 256"
  by (rule less_le_trans [OF unsigned_less]) simp

lemma fromhex_go_hex: "fromhex_go p (bytes_hex bs) = Inr bs"
proof (induction bs arbitrary: p)
  case (Cons b bs)
  have h: "unat b div 16 < 16" using byte_bound [of b] by simp
  have "word_of_nat (16 * (unat b div 16) + unat b mod 16) = b"
    by simp
  then show ?case
    using Cons h cp_hex_char [OF h] by (simp add: bytes_hex_def byte_hex_def digit_val_hex_char)
qed (simp add: bytes_hex_def)

lemma bytes_fromhex_hex: "bytes_fromhex (bytes_hex bs) = Inr bs"
proof -
  have "list_all (\<lambda>c. cp c < 128) (bytes_hex bs)"
  proof (induction bs)
    case (Cons b bs)
    have "unat b div 16 < 16" using byte_bound [of b] by simp
    with Cons show ?case
      using cp_hex_char [of "unat b div 16"] cp_hex_char [of "unat b mod 16"]
      by (auto simp: bytes_hex_def byte_hex_def)
  qed (simp add: bytes_hex_def)
  then show ?thesis by (simp add: bytes_fromhex_def fromhex_go_hex)
qed

lemma fromhex_go_length: "fromhex_go p s = Inr bs \<Longrightarrow> 2 * length bs \<le> length s"
  by (induction p s arbitrary: bs rule: fromhex_go.induct)
    (auto split: if_splits option.splits sum.splits intro: le_SucI)

lemma bytes_fromhex_length: "bytes_fromhex s = Inr bs \<Longrightarrow> 2 * length bs \<le> length s"
  by (auto simp: bytes_fromhex_def dest: fromhex_go_length split: sum.splits if_splits)

lemma from_bytes_le_nonneg: "0 \<le> from_bytes_le bs"
  by (induction bs) auto

lemma from_bytes_le_bound: "from_bytes_le bs < 256 ^ length bs"
proof (induction bs)
  case (Cons b bs)
  have "uint b < 256" by (rule less_le_trans [OF unsigned_less]) simp
  with Cons show ?case by simp
qed simp

section \<open>repr of a string\<close>

definition repr_char :: "char \<Rightarrow> char \<Rightarrow> string" where
  "repr_char q c =
     (if c = q \<or> c = BSLASH then [BSLASH, c]
      else if c = LF then [BSLASH, CHR ''n'']
      else if c = CR then [BSLASH, CHR ''r'']
      else if c = TAB then [BSLASH, CHR ''t'']
      else if is_printable c then [c]
      else [BSLASH, CHR ''x'', hex_char (cp c div 16), hex_char (cp c mod 16)])"

definition py_repr :: "string \<Rightarrow> string" where
  "py_repr s =
     (let q = (if SQUOTE \<in> set s \<and> DQUOTE \<notin> set s then DQUOTE else SQUOTE)
      in [q] @ concat (map (repr_char q) s) @ [q])"

end
