(* ===== verification/MI_Records.thy ===== *)
theory MI_Records
  imports Py_Dict Py_Text
begin

text \<open>
  The data of the GDB/MI layer (\<open>mi/records.py\<close>): values, record kinds, result and
  asynchronous records, stream records. A parsed line is one or the other (\<open>mi_line\<close>). The
  dict of a tuple keeps insertion order, so it is an association list.
\<close>

datatype mi_value = MIStr string | MIList "mi_value list" | MIDict "(string \<times> mi_value) list"

datatype mi_record_kind =
    RESULT | EXEC_ASYNC | STATUS_ASYNC | NOTIFY_ASYNC
  | CONSOLE_STREAM | TARGET_STREAM | LOG_STREAM | PROMPT

record mi_record =
  rec_kind :: mi_record_kind
  record_class :: string
  results :: "mi_value dict"
  raw :: string
  token :: "nat option"

record mi_stream_record =
  stream_kind :: mi_record_kind
  stream_text :: string
  stream_raw :: string
  stream_token :: "nat option"

datatype mi_line = Record mi_record | Stream mi_stream_record

definition stream_kinds :: "mi_record_kind set" where
  "stream_kinds = {CONSOLE_STREAM, TARGET_STREAM, LOG_STREAM}"

text \<open>
  A value that GDB can have sent: keys are identifiers and no tuple names a key twice. (A
  duplicate key is overwritten by the parser, as in any dict.)
\<close>

definition identifier_start :: "char \<Rightarrow> bool" where
  "identifier_start c \<longleftrightarrow> is_alpha c \<or> c = CHR ''_''"

definition identifier_part :: "bool \<Rightarrow> char \<Rightarrow> bool" where
  "identifier_part allow_hyphen c \<longleftrightarrow>
     is_alnum c \<or> c = CHR ''_'' \<or> (allow_hyphen \<and> c = CHR ''-'')"

definition is_identifier :: "string \<Rightarrow> bool" where
  "is_identifier s \<longleftrightarrow>
     (case s of [] \<Rightarrow> False | c # cs \<Rightarrow> identifier_start c \<and> list_all (identifier_part True) cs)"

primrec wf_value :: "mi_value \<Rightarrow> bool" where
  "wf_value (MIStr s) = True"
| "wf_value (MIList vs) = list_all id (map wf_value vs)"
| "wf_value (MIDict kvs) =
     (dict_ok kvs \<and> list_all (\<lambda>kv. is_identifier (fst kv)) kvs \<and>
      list_all (\<lambda>kv. snd kv) (map (map_prod id wf_value) kvs))"

definition wf_results :: "mi_value dict \<Rightarrow> bool" where
  "wf_results kvs \<longleftrightarrow> wf_value (MIDict kvs)"

lemma wf_MIList [simp]: "wf_value (MIList vs) \<longleftrightarrow> (\<forall>v \<in> set vs. wf_value v)"
  by (simp add: list_all_iff)

lemma wf_MIDict [simp]:
  "wf_value (MIDict kvs) \<longleftrightarrow>
     dict_ok kvs \<and> (\<forall>(k, v) \<in> set kvs. is_identifier k \<and> wf_value v)"
  by (force simp: list_all_iff)

declare wf_value.simps(2,3) [simp del]

section \<open>The shape of identifiers\<close>

lemma identifier_chars:
  assumes "is_identifier s" and "c \<in> set s"
  shows "identifier_part True c"
proof (cases s)
  case (Cons d ds)
  have "identifier_start d \<Longrightarrow> identifier_part True d"
    by (auto simp: identifier_start_def identifier_part_def is_alnum_def)
  with assms Cons show ?thesis by (auto simp: is_identifier_def list_all_iff)
qed (use assms in simp)

lemma identifier_nonempty: "is_identifier s \<Longrightarrow> s \<noteq> []"
  by (auto simp: is_identifier_def)

lemma not_identifier_part:
  "\<not> identifier_part True (CHR ''='')" "\<not> identifier_part True (CHR '','')"
  "\<not> identifier_part True (CHR ''}'')" "\<not> identifier_part True (CHR '']'')"
  "\<not> identifier_part True DQUOTE" "\<not> identifier_part True LF" "\<not> identifier_part True CR"
  by (simp_all add: identifier_part_def char_class_defs)

lemma not_identifier_start:
  "\<not> identifier_start DQUOTE" "\<not> identifier_start (CHR ''{'')" "\<not> identifier_start (CHR ''['')"
  "\<not> identifier_start (CHR ''}'')" "\<not> identifier_start (CHR '']'')"
  by (simp_all add: identifier_start_def char_class_defs)

end
