(* ===== verification/MI_Parser.thy ===== *)
theory MI_Parser
  imports MI_Records
begin

text \<open>
  The GDB/MI record parser (\<open>mi/parser.py\<close>, class \<open>_MIParser\<close>).

  The parser object holds the line and a position; the model passes the unread suffix
  \<open>line[position:]\<close> instead, so a position is the length of the line less that of the
  suffix, and each method returns its value with the new suffix. A failure carries the
  message and the suffix at the point of the error, from which \<open>parse_mi_record\<close> computes the
  position that \<open>MIParseError\<close> reports. The recursion between values, tuples and lists takes
  fuel; \<open>None\<close> is out of fuel, and \<open>parser_enough\<close> shows that the fuel
  \<open>parse_mi_record\<close> gives is never used up. Python's recursion limit is not modelled.
\<close>

datatype parse_fail = ParseFail (fail_msg: string) (fail_rest: string)

type_synonym 'a parse = "parse_fail + 'a \<times> string"

type_synonym 'a fparse = "'a parse option"

definition peek :: "string \<Rightarrow> char option" where
  "peek r = (case r of [] \<Rightarrow> None | c # _ \<Rightarrow> Some c)"

lemma peek_simps [simp]: "peek [] = None" "peek (c # r) = Some c"
  by (simp_all add: peek_def)

text \<open>\<open>_expect\<close>\<close>

definition expect :: "char \<Rightarrow> string \<Rightarrow> unit parse" where
  "expect c r =
     (if peek r = Some c then Inr ((), tl r)
      else Inl (ParseFail (''expected '' @ py_repr [c]) r))"

text \<open>\<open>_parse_identifier\<close>\<close>

definition parse_identifier :: "bool \<Rightarrow> string \<Rightarrow> string parse" where
  "parse_identifier allow_hyphen r =
     (case r of
        [] \<Rightarrow> Inl (ParseFail ''expected identifier'' r)
      | c # cs \<Rightarrow>
          if identifier_start c
          then Inr (c # takeWhile (identifier_part allow_hyphen) cs,
                    dropWhile (identifier_part allow_hyphen) cs)
          else Inl (ParseFail ''expected identifier'' r))"

text \<open>\<open>_parse_escape\<close>, after the backslash and with a character to read\<close>

definition unescape :: "char \<Rightarrow> char" where
  "unescape e =
     (if e = CHR ''n'' then LF else if e = CHR ''r'' then CR else if e = CHR ''t'' then TAB
      else if e = BSLASH then BSLASH else if e = DQUOTE then DQUOTE else e)"

definition push_char :: "char \<Rightarrow> string parse \<Rightarrow> string parse" where
  "push_char c p = (case p of Inl e \<Rightarrow> Inl e | Inr (s, r) \<Rightarrow> Inr (c # s, r))"

text \<open>The loop of \<open>_parse_c_string\<close>, after the opening quote\<close>

fun c_string_body :: "string \<Rightarrow> string parse" where
  "c_string_body [] = Inl (ParseFail ''unterminated string'' [])"
| "c_string_body [c] =
     (if c = DQUOTE then Inr ([], [])
      else if c = BSLASH then Inl (ParseFail ''unterminated escape'' [])
      else push_char c (c_string_body []))"
| "c_string_body (c # e # r) =
     (if c = DQUOTE then Inr ([], e # r)
      else if c = BSLASH then push_char (unescape e) (c_string_body r)
      else push_char c (c_string_body (e # r)))"

definition parse_c_string :: "string \<Rightarrow> string parse" where
  "parse_c_string r =
     (case expect DQUOTE r of Inl e \<Rightarrow> Inl e | Inr (_, r') \<Rightarrow> c_string_body r')"

text \<open>\<open>_parse_bare_value\<close>\<close>

definition bare_char :: "char \<Rightarrow> bool" where
  "bare_char c \<longleftrightarrow> c \<notin> {CHR '','', CHR '']'', CHR ''}''}"

definition parse_bare_value :: "string \<Rightarrow> string parse" where
  "parse_bare_value r =
     (let s = takeWhile bare_char r
      in if s = [] then Inl (ParseFail ''expected value'' r) else Inr (s, dropWhile bare_char r))"

text \<open>\<open>_next_value_is_result\<close>\<close>

definition next_value_is_result :: "string \<Rightarrow> bool" where
  "next_value_is_result r =
     (case r of
        [] \<Rightarrow> False
      | c # cs \<Rightarrow> identifier_start c \<and> peek (dropWhile (identifier_part True) cs) = Some (CHR ''=''))"

definition fbind :: "'a fparse \<Rightarrow> ('a \<Rightarrow> string \<Rightarrow> 'b fparse) \<Rightarrow> 'b fparse" where
  "fbind p k =
     (case p of None \<Rightarrow> None | Some (Inl e) \<Rightarrow> Some (Inl e) | Some (Inr (x, r)) \<Rightarrow> k x r)"

definition fret :: "'a \<Rightarrow> string \<Rightarrow> 'a fparse" where
  "fret x r = Some (Inr (x, r))"

lemma fbind_simps [simp]:
  "fbind None k = None"
  "fbind (Some (Inl e)) k = Some (Inl e)"
  "fbind (Some (Inr (x, r))) k = k x r"
  by (simp_all add: fbind_def)

text \<open>
  \<open>_parse_value\<close>, \<open>_parse_tuple\<close>, \<open>_parse_list\<close> with its loop, the loop of
  \<open>_parse_result_list\<close> (\<open>stop\<close> is \<open>stop_chars\<close>), and \<open>_parse_result\<close>.
\<close>

function parse_value :: "nat \<Rightarrow> string \<Rightarrow> mi_value fparse"
  and parse_tuple :: "nat \<Rightarrow> string \<Rightarrow> mi_value dict fparse"
  and parse_list :: "nat \<Rightarrow> string \<Rightarrow> mi_value list fparse"
  and parse_list_items :: "nat \<Rightarrow> mi_value list \<Rightarrow> string \<Rightarrow> mi_value list fparse"
  and parse_result_list :: "nat \<Rightarrow> char list \<Rightarrow> mi_value dict \<Rightarrow> string \<Rightarrow> mi_value dict fparse"
  and parse_result :: "nat \<Rightarrow> string \<Rightarrow> (string \<times> mi_value) fparse"
where
  "parse_value 0 r = None"
| "parse_value (Suc n) r =
     (if peek r = Some DQUOTE then fbind (Some (parse_c_string r)) (\<lambda>s. fret (MIStr s))
      else if peek r = Some (CHR ''{'') then fbind (parse_tuple n r) (\<lambda>d. fret (MIDict d))
      else if peek r = Some (CHR ''['') then fbind (parse_list n r) (\<lambda>vs. fret (MIList vs))
      else fbind (Some (parse_bare_value r)) (\<lambda>s. fret (MIStr s)))"
| "parse_tuple 0 r = None"
| "parse_tuple (Suc n) r =
     fbind (Some (expect (CHR ''{'') r)) (\<lambda>_ r1.
       if peek r1 = Some (CHR ''}'') then fret [] (tl r1)
       else fbind (parse_result_list n ''}'' [] r1) (\<lambda>values r2.
         fbind (Some (expect (CHR ''}'') r2)) (\<lambda>_. fret values)))"
| "parse_list 0 r = None"
| "parse_list (Suc n) r =
     fbind (Some (expect (CHR ''['') r)) (\<lambda>_ r1.
       fbind (parse_list_items n [] r1) (\<lambda>values r2.
         fbind (Some (expect (CHR '']'') r2)) (\<lambda>_. fret values)))"
| "parse_list_items 0 acc r = None"
| "parse_list_items (Suc n) acc r =
     (if r = [] \<or> peek r = Some (CHR '']'') then fret acc r
      else
        fbind (if next_value_is_result r
               then fbind (parse_result n r) (\<lambda>kv. fret (MIDict [kv]))
               else parse_value n r) (\<lambda>v r1.
          if peek r1 = Some (CHR '','') then parse_list_items n (acc @ [v]) (tl r1)
          else fret (acc @ [v]) r1))"
| "parse_result_list 0 stop acc r = None"
| "parse_result_list (Suc n) stop acc r =
     (if r = [] \<or> hd r \<in> set stop then fret acc r
      else
        fbind (parse_result n r) (\<lambda>kv r1.
          if peek r1 = Some (CHR '','')
          then parse_result_list n stop (dict_set (fst kv) (snd kv) acc) (tl r1)
          else fret (dict_set (fst kv) (snd kv) acc) r1))"
| "parse_result 0 r = None"
| "parse_result (Suc n) r =
     fbind (Some (parse_identifier True r)) (\<lambda>key r1.
       fbind (Some (expect (CHR ''='') r1)) (\<lambda>_ r2.
         fbind (parse_value n r2) (\<lambda>v. fret (key, v))))"
  by pat_completeness auto
termination
  by (relation "measure (\<lambda>x. case x of
        Inl (Inl (n, _)) \<Rightarrow> n
      | Inl (Inr (Inl (n, _))) \<Rightarrow> n
      | Inl (Inr (Inr (n, _))) \<Rightarrow> n
      | Inr (Inl (n, _)) \<Rightarrow> n
      | Inr (Inr (Inl (n, _))) \<Rightarrow> n
      | Inr (Inr (Inr (n, _))) \<Rightarrow> n)") simp_all

text \<open>\<open>_parse_result_or_async\<close> and \<open>_parse_stream\<close>: the rest of the line after the marker\<close>

definition parse_result_or_async ::
  "string \<Rightarrow> mi_record_kind \<Rightarrow> nat option \<Rightarrow> string \<Rightarrow> mi_line fparse" where
  "parse_result_or_async line kind tok r =
     fbind (Some (parse_identifier True r)) (\<lambda>cls r1.
       fbind (if peek r1 = Some (CHR '','')
              then parse_result_list (4 * length line + 4) [] [] (tl r1)
              else fret [] r1) (\<lambda>res r2.
         if r2 = []
         then fret (Record \<lparr>rec_kind = kind, record_class = cls, results = res, raw = line,
                            token = tok\<rparr>) r2
         else Some (Inl (ParseFail ''unexpected trailing data'' r2))))"

definition parse_stream ::
  "string \<Rightarrow> mi_record_kind \<Rightarrow> nat option \<Rightarrow> string \<Rightarrow> mi_line fparse" where
  "parse_stream line kind tok r =
     fbind (Some (parse_c_string r)) (\<lambda>text r1.
       if r1 = []
       then fret (Stream \<lparr>stream_kind = kind, stream_text = text, stream_raw = line,
                          stream_token = tok\<rparr>) r1
       else Some (Inl (ParseFail ''unexpected trailing stream data'' r1)))"

definition parse_marker ::
  "string \<Rightarrow> nat option \<Rightarrow> string \<Rightarrow> mi_line fparse" where
  "parse_marker line tok r =
     (case r of
        [] \<Rightarrow> Some (Inl (ParseFail ''missing record marker'' r))
      | m # r1 \<Rightarrow>
          if m = CHR ''^'' then parse_result_or_async line RESULT tok r1
          else if m = CHR ''*'' then parse_result_or_async line EXEC_ASYNC tok r1
          else if m = CHR ''+'' then parse_result_or_async line STATUS_ASYNC tok r1
          else if m = CHR ''='' then parse_result_or_async line NOTIFY_ASYNC tok r1
          else if m = CHR ''~'' then parse_stream line CONSOLE_STREAM tok r1
          else if m = CHR ''@'' then parse_stream line TARGET_STREAM tok r1
          else if m = CHR ''&'' then parse_stream line LOG_STREAM tok r1
          else Some (Inl (ParseFail (''unsupported record marker '' @ py_repr [m]) r1)))"

text \<open>
  \<open>_parse_token\<close>: the leading digits; \<open>int\<close> raises \<open>ValueError\<close> where \<open>isdigit\<close> is wider
  than what it converts. The message of that exception is not modelled beyond its start.
\<close>

definition parse_token :: "string \<Rightarrow> nat option res \<times> string" where
  "parse_token r =
     (let ds = takeWhile is_digit r; r1 = dropWhile is_digit r
      in if ds = [] then (Inr None, r)
         else (case int_of_digits ds of
                 None \<Rightarrow> (Inl (Exc ValueError ''invalid literal for int()''), r1)
               | Some n \<Rightarrow> (Inr (Some n), r1)))"

definition mi_parse_error :: "string \<Rightarrow> parse_fail \<Rightarrow> py_exc" where
  "mi_parse_error line f =
     Exc MIParseError (fail_msg f @ '' at position '' @
       nat_str (length line - length (fail_rest f)) @ '': '' @ py_repr line)"

definition parse_line :: "string \<Rightarrow> mi_line res option" where
  "parse_line line =
     (if line = ''(gdb)''
      then Some (Inr (Record \<lparr>rec_kind = PROMPT, record_class = ''prompt'', results = [],
                              raw = line, token = None\<rparr>))
      else (case parse_token line of
              (Inl e, _) \<Rightarrow> Some (Inl e)
            | (Inr tok, r) \<Rightarrow>
                (case parse_marker line tok r of
                   None \<Rightarrow> None
                 | Some (Inl f) \<Rightarrow> Some (Inl (mi_parse_error line f))
                 | Some (Inr (x, _)) \<Rightarrow> Some (Inr x))))"

definition is_eol :: "char \<Rightarrow> bool" where
  "is_eol c \<longleftrightarrow> c = CR \<or> c = LF"

definition parse_mi_record :: "string \<Rightarrow> mi_line res option" where
  "parse_mi_record line = parse_line (rstrip_chars is_eol line)"

section \<open>Progress and termination\<close>

lemma expect_cases [elim]:
  assumes "expect c r = x"
  obtains (ok) r' where "r = c # r'" and "x = Inr ((), r')"
  | (fail) "peek r \<noteq> Some c" and "x = Inl (ParseFail (''expected '' @ py_repr [c]) r)"
  using assms by (cases r) (auto simp: expect_def split: if_splits)

lemma expect_Cons [simp]: "expect c (c # r) = Inr ((), r)"
  by (simp add: expect_def)

lemma c_string_body_progress: "c_string_body r = Inr (s, r') \<Longrightarrow> length r' < length r"
  by (induction r arbitrary: s rule: c_string_body.induct)
    (force simp: push_char_def split: if_splits sum.splits prod.splits)+

lemma parse_c_string_progress: "parse_c_string r = Inr (s, r') \<Longrightarrow> length r' < length r"
  by (cases r) (auto simp: parse_c_string_def expect_def dest: c_string_body_progress
      split: if_splits sum.splits)

lemma parse_identifier_progress: "parse_identifier h r = Inr (s, r') \<Longrightarrow> length r' < length r"
  by (auto simp: parse_identifier_def length_dropWhile_le less_Suc_eq_le
      split: list.splits if_splits)

lemma parse_bare_value_progress:
  assumes "parse_bare_value r = Inr (s, r')"
  shows "length r' < length r"
proof -
  have "takeWhile bare_char r \<noteq> []" and "r' = dropWhile bare_char r"
    using assms by (auto simp: parse_bare_value_def Let_def split: if_splits)
  moreover have "length (takeWhile bare_char r) + length (dropWhile bare_char r) = length r"
    by (metis length_append takeWhile_dropWhile_id)
  ultimately show ?thesis by (cases "takeWhile bare_char r") auto
qed

definition progress :: "nat \<Rightarrow> 'a fparse \<Rightarrow> bool" where
  "progress m p \<longleftrightarrow> p \<noteq> None \<and> (\<forall>x r'. p = Some (Inr (x, r')) \<longrightarrow> length r' \<le> m)"

lemma progress_fail [simp]: "progress m (Some (Inl e))"
  by (simp add: progress_def)

lemma progress_fret [simp]: "progress m (fret x r) \<longleftrightarrow> length r \<le> m"
  by (simp add: progress_def fret_def)

lemma progress_Some [simp]: "progress m (Some (Inr (x, r))) \<longleftrightarrow> length r \<le> m"
  by (simp add: progress_def)

lemma progress_mono: "progress m p \<Longrightarrow> m \<le> k \<Longrightarrow> progress k p"
  by (fastforce simp: progress_def)

lemma progress_fbind:
  assumes "progress m p" and "\<And>x r'. length r' \<le> m \<Longrightarrow> progress k (q x r')"
  shows "progress k (fbind p q)"
  using assms by (auto simp: progress_def fbind_def split: option.splits sum.splits)

text \<open>Every parsing method returns, and what it leaves unread is no longer than it was given.\<close>

lemma parser_enough:
  "4 * length r + 1 \<le> n \<Longrightarrow> progress (length r - 1) (parse_value n r)"
  "4 * length r \<le> n \<Longrightarrow> 1 \<le> n \<Longrightarrow> progress (length r - 1) (parse_tuple n r)"
  "4 * length r \<le> n \<Longrightarrow> 1 \<le> n \<Longrightarrow> progress (length r - 1) (parse_list n r)"
  "4 * length r + 3 \<le> n \<Longrightarrow> progress (length r) (parse_list_items n vs r)"
  "4 * length r + 3 \<le> n \<Longrightarrow> progress (length r) (parse_result_list n stop d r)"
  "4 * length r + 2 \<le> n \<Longrightarrow> progress (length r - 1) (parse_result n r)"
proof (induction n arbitrary: r vs stop d)
  case (Suc n)
  note IH = Suc.IH
  {
    case 1
    have tup: "progress (length r - 1) (parse_tuple n r)" and lst: "progress (length r - 1) (parse_list n r)"
      if "r \<noteq> []"
      using that 1 IH(2,3) [of r] by (cases r; simp)+
    have str: "progress (length r - 1) (Some (parse_c_string r))"
      by (cases "parse_c_string r") (auto dest: parse_c_string_progress)
    have bare: "progress (length r - 1) (Some (parse_bare_value r))"
      by (cases "parse_bare_value r") (auto dest: parse_bare_value_progress)
    consider (q) "peek r = Some DQUOTE"
      | (t) "peek r = Some (CHR ''{'')" | (l) "peek r = Some (CHR ''['')"
      | (b) "peek r \<notin> Some ` {DQUOTE, CHR ''{'', CHR ''[''}"
      by blast
    then show ?case
    proof cases
      case q then show ?thesis by (simp add: progress_fbind [OF str])
    next
      case t
      then have "r \<noteq> []" by auto
      with t show ?thesis by (simp add: progress_fbind [OF tup])
    next
      case l
      then have "r \<noteq> []" by auto
      with l show ?thesis by (simp add: progress_fbind [OF lst])
    next
      case b then show ?thesis by (simp add: progress_fbind [OF bare])
    qed
  next
    case 2
    show ?case
    proof (cases "peek r = Some (CHR ''{'')")
      case True
      then obtain r1 where r: "r = CHR ''{'' # r1" by (cases r) auto
      have "progress (length r1) (parse_result_list n ''}'' [] r1)"
        using 2 r by (intro IH) simp
      then show ?thesis using r
        by (auto simp: expect_def intro!: progress_fbind [of "length r1"])
    qed (simp add: expect_def)
  next
    case 3
    show ?case
    proof (cases "peek r = Some (CHR ''['')")
      case True
      then obtain r1 where r: "r = CHR ''['' # r1" by (cases r) auto
      have "progress (length r1) (parse_list_items n [] r1)"
        using 3 r by (intro IH) simp
      then show ?thesis using r
        by (auto simp: expect_def intro!: progress_fbind [of "length r1"])
    qed (simp add: expect_def)
  next
    case 4
    have v: "progress (length r - 1) (if next_value_is_result r
        then fbind (parse_result n r) (\<lambda>kv. fret (MIDict [kv])) else parse_value n r)"
      using 4 IH(1,6) [of r] by (simp add: progress_fbind [of "length r - 1"])
    have "progress (length r) (parse_list_items n us (tl r1))"
      if "length r1 \<le> length r - 1" "r \<noteq> []" for us r1
      using that 4 by (intro progress_mono [OF IH(4)]) (auto, cases r, auto)
    then have "progress (length r) (fbind (if next_value_is_result r
        then fbind (parse_result n r) (\<lambda>kv. fret (MIDict [kv])) else parse_value n r) (\<lambda>v r1.
          if peek r1 = Some (CHR '','') then parse_list_items n (vs @ [v]) (tl r1)
          else fret (vs @ [v]) r1))" if "r \<noteq> []"
      using that by (intro progress_fbind [OF v]) auto
    then show ?case by (cases "r = [] \<or> peek r = Some (CHR '']'')") auto
  next
    case 5
    have v: "progress (length r - 1) (parse_result n r)"
      using 5 by (intro IH) simp
    have "progress (length r) (parse_result_list n stop us (tl r1))"
      if "length r1 \<le> length r - 1" "r \<noteq> []" for us r1
      using that 5 by (intro progress_mono [OF IH(5)]) (auto, cases r, auto)
    then show ?case
      by (auto intro!: progress_fbind [OF v])
  next
    case 6
    have i: "progress (length r - 1) (Some (parse_identifier True r))"
      by (cases "parse_identifier True r") (auto dest: parse_identifier_progress)
    have e: "progress (length r - 2) (Some (expect (CHR ''='') r1))"
      if "length r1 \<le> length r - 1" for r1
      using that by (cases r1) (auto simp: expect_def)
    have val: "progress (length r - 1) (parse_value n r2)" if "length r2 \<le> length r - 2" for r2
      using that 6 by (intro progress_mono [OF IH(1)]) auto
    have "progress (length r - 1) (fbind (Some (expect (CHR ''='') r1)) (\<lambda>_ r2.
        fbind (parse_value n r2) (\<lambda>v. fret (key, v))))"
      if "length r1 \<le> length r - 1" for r1 key
      by (rule progress_fbind [OF e [OF that]]) (rule progress_fbind [OF val]; simp)
    then show ?case unfolding parse_result.simps by (rule progress_fbind [OF i])
  }
qed auto

text \<open>
  Rejection is total: whatever line GDB sends, the parser answers with a record, with
  \<open>MIParseError\<close>, or with the \<open>ValueError\<close> of \<open>int\<close> on the token digits.
\<close>

lemma parse_result_or_async_total: "length r \<le> length line \<Longrightarrow> \<exists>x. parse_result_or_async line k tok r = Some x"
proof (cases "parse_identifier True r")
  case (Inr sr)
  assume len: "length r \<le> length line"
  obtain s r1 where sr: "sr = (s, r1)" by fastforce
  have "length r1 < length r" using parse_identifier_progress Inr sr by blast
  then have "progress (length (tl r1)) (parse_result_list (4 * length line + 4) [] [] (tl r1))"
    using len by (intro parser_enough(5)) simp
  then show ?thesis
    using Inr sr by (auto simp: parse_result_or_async_def fbind_def fret_def progress_def
        split: option.splits sum.splits)
qed (simp add: parse_result_or_async_def)

lemma parse_stream_total: "\<exists>x. parse_stream line k tok r = Some x"
  by (auto simp: parse_stream_def fbind_def fret_def split: sum.splits)

lemma parse_token_length: "parse_token r = (t, r') \<Longrightarrow> length r' \<le> length r"
  by (auto simp: parse_token_def Let_def length_dropWhile_le split: if_splits option.splits)

lemma parse_marker_total: "length r \<le> length line \<Longrightarrow> \<exists>x. parse_marker line tok r = Some x"
  by (cases r) (simp_all add: parse_marker_def parse_result_or_async_total parse_stream_total)

lemma parse_line_total: "\<exists>res. parse_line line = Some res"
proof (cases "parse_token line")
  case (Pair t r)
  show ?thesis
  proof (cases t)
    case (Inr tok)
    obtain x where "parse_marker line tok r = Some x"
      using Pair parse_token_length parse_marker_total by blast
    then show ?thesis using Pair Inr by (auto simp: parse_line_def split: sum.splits)
  qed (simp add: parse_line_def Pair)
qed

lemma parse_mi_record_total: "\<exists>res. parse_mi_record line = Some res"
  by (simp add: parse_mi_record_def parse_line_total)

lemma parse_token_error: "parse_token r = (Inl e, r') \<Longrightarrow> exc_of e = ValueError"
  by (auto simp: parse_token_def Let_def split: if_splits option.splits)

lemma parse_line_error_class:
  assumes "parse_line line = Some (Inl e)"
  shows "exc_of e = MIParseError \<or> exc_of e = ValueError"
proof (cases "parse_token line")
  case (Pair t r)
  have line: "line \<noteq> ''(gdb)''" using assms by (auto simp: parse_line_def)
  show ?thesis
  proof (cases t)
    case (Inl e')
    then show ?thesis using assms Pair line parse_token_error [of line e' r]
      by (simp add: parse_line_def)
  next
    case (Inr tok)
    then obtain f where "e = mi_parse_error line f"
      using assms Pair line
      by (cases "parse_marker line tok r") (auto simp: parse_line_def split: sum.splits)
    then show ?thesis by (simp add: mi_parse_error_def)
  qed
qed

end
