(* ===== verification/MI_Roundtrip.thy ===== *)
theory MI_Roundtrip
  imports MI_Parser
begin

text \<open>
  The reference grammar of GDB/MI output as a printer, and the theorem that the parser inverts
  it: every record whose identifiers are well formed comes back as it was printed, whatever
  the nesting of its tuples and lists and whatever characters its strings hold. The printer
  is the specification side; the program has no such function.
\<close>

section \<open>Printing\<close>

definition escape_char :: "char \<Rightarrow> string" where
  "escape_char c =
     (if c = DQUOTE then [BSLASH, DQUOTE] else if c = BSLASH then [BSLASH, BSLASH]
      else if c = LF then [BSLASH, CHR ''n''] else if c = CR then [BSLASH, CHR ''r'']
      else if c = TAB then [BSLASH, CHR ''t''] else [c])"

definition print_string :: "string \<Rightarrow> string" where
  "print_string s = DQUOTE # concat (map escape_char s) @ [DQUOTE]"

definition print_pair :: "string \<times> string \<Rightarrow> string" where
  "print_pair kp = fst kp @ CHR ''='' # snd kp"

primrec print_value :: "mi_value \<Rightarrow> string" where
  "print_value (MIStr s) = print_string s"
| "print_value (MIList vs) = CHR ''['' # join '','' (map print_value vs) @ '']''"
| "print_value (MIDict kvs) =
     CHR ''{'' # join '','' (map print_pair (map (map_prod id print_value) kvs)) @ ''}''"

definition print_results :: "mi_value dict \<Rightarrow> string" where
  "print_results kvs = join '','' (map (\<lambda>(k, v). print_pair (k, print_value v)) kvs)"

definition record_marker :: "mi_record_kind \<Rightarrow> char option" where
  "record_marker k =
     (case k of RESULT \<Rightarrow> Some (CHR ''^'') | EXEC_ASYNC \<Rightarrow> Some (CHR ''*'')
      | STATUS_ASYNC \<Rightarrow> Some (CHR ''+'') | NOTIFY_ASYNC \<Rightarrow> Some (CHR ''='') | _ \<Rightarrow> None)"

definition print_token :: "nat option \<Rightarrow> string" where
  "print_token t = (case t of None \<Rightarrow> [] | Some n \<Rightarrow> nat_str n)"

definition print_mi_record :: "nat option \<Rightarrow> char \<Rightarrow> string \<Rightarrow> mi_value dict \<Rightarrow> string" where
  "print_mi_record t m cls res =
     print_token t @ m # cls @ (if res = [] then [] else CHR '','' # print_results res)"

lemma print_MIDict:
  "print_value (MIDict kvs) = CHR ''{'' # print_results kvs @ ''}''"
proof -
  have "map print_pair (map (map_prod id print_value) kvs)
      = map (\<lambda>(k, v). print_pair (k, print_value v)) kvs"
    by (induction kvs) (auto simp: print_pair_def)
  then show ?thesis by (simp only: print_value.simps print_results_def)
qed

declare print_value.simps(3) [simp del]
declare print_MIDict [simp]

lemma join_map_Cons:
  "join sep (map f (x # xs)) = f x @ (if xs = [] then [] else sep @ join sep (map f xs))"
  by (cases xs) simp_all

section \<open>C strings\<close>

lemma c_string_body_quote [simp]: "c_string_body (DQUOTE # r) = Inr ([], r)"
  by (cases r) simp_all

lemma c_string_body_plain:
  "c \<noteq> DQUOTE \<Longrightarrow> c \<noteq> BSLASH \<Longrightarrow> c_string_body (c # r) = push_char c (c_string_body r)"
  by (cases r) simp_all

lemma push_char_Inr [simp]: "push_char c (Inr (s, r)) = Inr (c # s, r)"
  by (simp add: push_char_def)

lemma c_string_body_escape:
  "c_string_body (escape_char c @ r) = push_char c (c_string_body r)"
  by (simp add: escape_char_def unescape_def c_string_body_plain)

lemma c_string_body_print:
  "c_string_body (concat (map escape_char s) @ DQUOTE # r) = Inr (s, r)"
  by (induction s) (simp_all add: c_string_body_escape)

lemma parse_c_string_print: "parse_c_string (print_string s @ r) = Inr (s, r)"
  by (simp add: parse_c_string_def print_string_def c_string_body_print)

section \<open>Identifiers, values and results\<close>

lemma parse_identifier_stop:
  assumes "is_identifier s" and "r = [] \<or> \<not> identifier_part True (hd r)"
  shows "parse_identifier True (s @ r) = Inr (s, r)"
proof (cases s)
  case (Cons c cs)
  have c: "identifier_start c" and cs: "\<forall>d \<in> set cs. identifier_part True d"
    using assms(1) Cons by (auto simp: is_identifier_def list_all_iff)
  have "takeWhile (identifier_part True) (cs @ r) = cs"
    and "dropWhile (identifier_part True) (cs @ r) = r"
    using cs assms(2) by (cases r; simp)+
  with c Cons show ?thesis by (simp add: parse_identifier_def)
qed (use assms(1) in \<open>simp add: is_identifier_def\<close>)

lemma print_value_head:
  obtains c t where "print_value v = c # t"
    and "c \<in> {DQUOTE, CHR ''['', CHR ''{''}"
  by (cases v) (auto simp: print_string_def)

lemma print_value_not_result: "\<not> next_value_is_result (print_value v @ r)"
proof -
  obtain c t where "print_value v = c # t" "c \<in> {DQUOTE, CHR ''['', CHR ''{''}"
    by (rule print_value_head)
  then show ?thesis by (auto simp: next_value_is_result_def not_identifier_start)
qed

text \<open>One result, given that its value parses.\<close>

lemma parse_result_print:
  assumes "is_identifier k" and "parse_value n (print_value v @ r) = Some (Inr (v, r))"
  shows "parse_result (Suc n) (print_pair (k, print_value v) @ r) = Some (Inr ((k, v), r))"
proof -
  have "parse_identifier True (k @ CHR ''='' # print_value v @ r)
      = Inr (k, CHR ''='' # print_value v @ r)"
    using assms(1) by (intro parse_identifier_stop) (simp_all add: not_identifier_part)
  then show ?thesis using assms(2) by (simp add: print_pair_def fret_def)
qed

definition value_ok :: "mi_value \<Rightarrow> bool" where
  "value_ok v \<longleftrightarrow> (\<forall>n r. 4 * length (print_value v @ r) + 1 \<le> n \<longrightarrow>
     parse_value n (print_value v @ r) = Some (Inr (v, r)))"

lemma parse_list_items_print:
  assumes "\<forall>v \<in> set vs. value_ok v"
    and "4 * length (join '','' (map print_value vs) @ CHR '']'' # r) + 3 \<le> n"
  shows "parse_list_items n acc (join '','' (map print_value vs) @ CHR '']'' # r)
       = Some (Inr (acc @ vs, CHR '']'' # r))"
  using assms
proof (induction vs arbitrary: n acc)
  case Nil
  then show ?case by (cases n) (simp_all add: fret_def)
next
  case (Cons v vs)
  define rest where "rest = (if vs = [] then CHR '']'' # r
    else CHR '','' # join '','' (map print_value vs) @ CHR '']'' # r)"
  have inp: "join '','' (map print_value (v # vs)) @ CHR '']'' # r = print_value v @ rest"
    by (simp add: join_map_Cons rest_def del: list.map)
  have fuel: "4 * length (print_value v @ rest) + 3 \<le> n" using Cons.prems(2) by (simp only: inp)
  then obtain m where n: "n = Suc m" by (cases n) auto
  have v: "parse_value m (print_value v @ rest) = Some (Inr (v, rest))"
    using Cons.prems(1) fuel n by (simp add: value_ok_def)
  obtain c t where head: "print_value v = c # t" "c \<in> {DQUOTE, CHR ''['', CHR ''{''}"
    by (rule print_value_head)
  have go: "parse_list_items n acc (print_value v @ rest) =
      (if peek rest = Some (CHR '','') then parse_list_items m (acc @ [v]) (tl rest)
       else fret (acc @ [v]) rest)"
    using v head print_value_not_result [of v rest] by (auto simp: n)
  have len: "4 * length (tl rest) + 3 \<le> m"
    using fuel n head by (cases rest) auto
  show ?case
  proof (cases "vs = []")
    case True
    then show ?thesis using go inp by (simp add: rest_def fret_def)
  next
    case False
    then show ?thesis
      using go inp Cons.IH [of m "acc @ [v]"] Cons.prems(1) len by (simp add: rest_def)
  qed
qed

lemma parse_result_list_print:
  assumes "\<forall>(k, v) \<in> set kvs. is_identifier k \<and> value_ok v"
    and "distinct (map fst kvs)" and "fst ` set acc \<inter> fst ` set kvs = {}"
    and "r = [] \<or> (hd r \<in> set stop \<and> hd r \<noteq> CHR '','')" and "\<forall>c \<in> set stop. \<not> identifier_start c"
    and "4 * length (print_results kvs @ r) + 3 \<le> n"
  shows "parse_result_list n stop acc (print_results kvs @ r) = Some (Inr (acc @ kvs, r))"
  using assms
proof (induction kvs arbitrary: n acc)
  case Nil
  then show ?case by (cases n) (auto simp: fret_def print_results_def)
next
  case (Cons kv kvs)
  obtain k v where kv: "kv = (k, v)" by fastforce
  have k: "is_identifier k" and v: "value_ok v" using Cons.prems(1) kv by auto
  define rest where "rest = (if kvs = [] then r else CHR '','' # print_results kvs @ r)"
  have inp: "print_results (kv # kvs) @ r = print_pair (k, print_value v) @ rest"
    by (simp add: print_results_def join_map_Cons rest_def kv del: list.map)
  have fuel: "4 * length (print_pair (k, print_value v) @ rest) + 3 \<le> n"
    using Cons.prems(6) by (simp only: inp)
  then obtain m where n: "n = Suc (Suc m)" by (cases n; cases "n - 1") auto
  obtain c cs where kc: "k = c # cs" and c: "identifier_start c"
    using k by (auto simp: is_identifier_def split: list.splits)
  have len: "4 * length (print_value v @ rest) + 1 \<le> m" "4 * length (tl rest) + 3 \<le> Suc m"
    using fuel n by (cases rest; simp add: print_pair_def kc)+
  have "parse_result (Suc m) (print_pair (k, print_value v) @ rest) = Some (Inr ((k, v), rest))"
    using k v len by (intro parse_result_print) (auto simp: value_ok_def)
  moreover have "dict_set k v acc = acc @ [(k, v)]"
    using Cons.prems(3) kv by (intro dict_set_fresh) auto
  ultimately have go: "parse_result_list n stop acc (print_pair (k, print_value v) @ rest) =
      (if peek rest = Some (CHR '','') then parse_result_list (Suc m) stop (acc @ [(k, v)]) (tl rest)
       else fret (acc @ [(k, v)]) rest)"
    using c Cons.prems(5) by (auto simp: n print_pair_def kc)
  show ?case
  proof (cases "kvs = []")
    case True
    then show ?thesis using go inp kv Cons.prems(4) by (cases r) (auto simp: rest_def fret_def)
  next
    case False
    have "parse_result_list (Suc m) stop (acc @ [(k, v)]) (print_results kvs @ r)
        = Some (Inr ((acc @ [(k, v)]) @ kvs, r))"
      using Cons.prems kv len(2) False by (intro Cons.IH) (auto simp: rest_def)
    with False show ?thesis using go inp kv by (simp add: rest_def)
  qed
qed

lemma parse_value_print: "wf_value v \<Longrightarrow> value_ok v"
proof (induction v)
  case (MIStr s)
  have "parse_value n (print_value (MIStr s) @ r) = Some (Inr (MIStr s, r))" if "1 \<le> n" for n r
    using that parse_c_string_print [of s r]
    by (cases n) (auto simp: fret_def print_string_def)
  then show ?case by (simp add: value_ok_def)
next
  case (MIList vs)
  have "parse_value n (print_value (MIList vs) @ r) = Some (Inr (MIList vs, r))"
    if fuel: "4 * length (print_value (MIList vs) @ r) + 1 \<le> n" for n r
  proof -
    obtain m where n: "n = Suc (Suc m)" using fuel by (cases n; cases "n - 1") auto
    have "parse_list_items m [] (join '','' (map print_value vs) @ CHR '']'' # r)
        = Some (Inr ([] @ vs, CHR '']'' # r))"
      using MIList fuel n by (intro parse_list_items_print) auto
    then show ?thesis by (simp add: n fret_def)
  qed
  then show ?case by (simp add: value_ok_def)
next
  case (MIDict kvs)
  have ok: "\<forall>(k, v) \<in> set kvs. is_identifier k \<and> value_ok v" and d: "distinct (map fst kvs)"
    using MIDict by (fastforce simp: dict_ok_def)+
  have "parse_value n (print_value (MIDict kvs) @ r) = Some (Inr (MIDict kvs, r))"
    if fuel: "4 * length (print_value (MIDict kvs) @ r) + 1 \<le> n" for n r
  proof -
    obtain m where n: "n = Suc (Suc m)" using fuel by (cases n; cases "n - 1") auto
    have "parse_result_list m ''}'' [] (print_results kvs @ CHR ''}'' # r)
        = Some (Inr ([] @ kvs, CHR ''}'' # r))"
      using ok d fuel n unfolding print_MIDict
      by (intro parse_result_list_print) (auto simp: not_identifier_start)
    moreover have "peek (print_results kvs @ CHR ''}'' # r) \<noteq> Some (CHR ''}'')" if ne: "kvs \<noteq> []"
    proof -
      obtain k v kvs' where kvs: "kvs = (k, v) # kvs'" using ne by (cases kvs) auto
      with ok obtain c cs where "k = c # cs" "identifier_start c"
        by (auto simp: is_identifier_def split: list.splits)
      then show ?thesis using kvs
        by (auto simp: print_results_def join_map_Cons print_pair_def not_identifier_start
            simp del: list.map)
    qed
    ultimately show ?thesis
      by (cases "kvs = []") (auto simp: n fret_def, simp add: print_results_def)
  qed
  then show ?case by (simp add: value_ok_def)
qed

section \<open>Records\<close>

lemma parse_results_print:
  assumes "wf_results res" and "4 * length (print_results res) + 3 \<le> n"
  shows "parse_result_list n [] [] (print_results res) = Some (Inr (res, []))"
  using assms parse_value_print parse_result_list_print [of res "[]" "[]" "[]" n]
  by (fastforce simp: wf_results_def dict_ok_def)

lemma parse_result_or_async_print:
  assumes "is_identifier cls" and "wf_results res" and "length (print_results res) \<le> length line"
  shows "parse_result_or_async line k t (cls @ (if res = [] then [] else CHR '','' # print_results res))
    = Some (Inr (Record \<lparr>rec_kind = k, record_class = cls, results = res, raw = line, token = t\<rparr>, []))"
proof -
  define r where "r = (if res = [] then [] else CHR '','' # print_results res)"
  have "parse_identifier True (cls @ r) = Inr (cls, r)"
    using assms(1) by (intro parse_identifier_stop) (auto simp: r_def not_identifier_part)
  moreover have "parse_result_list (4 * length line + 4) [] [] (print_results res) = Some (Inr (res, []))"
    using assms(2,3) by (intro parse_results_print) auto
  ultimately show ?thesis
    unfolding parse_result_or_async_def r_def [symmetric] by (simp add: r_def fret_def)
qed

lemma parse_token_print:
  assumes "\<And>n. t = Some n \<Longrightarrow> length (nat_str n) \<le> 4300" and "\<not> is_digit m"
  shows "parse_token (print_token t @ m # r) = (Inr t, m # r)"
proof (cases t)
  case (Some n)
  have "\<forall>c \<in> set (nat_str n). is_digit c" using nat_str_digits by blast
  then have "takeWhile is_digit (nat_str n @ m # r) = nat_str n"
    and "dropWhile is_digit (nat_str n @ m # r) = m # r"
    using assms(2) by simp_all
  then show ?thesis using assms(1) [OF Some] Some
    by (simp add: parse_token_def print_token_def int_of_digits_nat_str)
qed (use assms(2) in \<open>simp add: parse_token_def print_token_def\<close>)

lemma record_marker_char:
  "record_marker k = Some m \<Longrightarrow> m \<in> {CHR ''^'', CHR ''*'', CHR ''+'', CHR ''=''}"
  by (simp add: record_marker_def split: mi_record_kind.splits)

lemma marker_not_digit: "record_marker k = Some m \<Longrightarrow> \<not> is_digit m"
  by (drule record_marker_char) (auto simp: char_class_defs)

lemma parse_marker_record:
  "record_marker k = Some m \<Longrightarrow> parse_marker line t (m # r) = parse_result_or_async line k t r"
  by (auto simp: record_marker_def parse_marker_def split: mi_record_kind.splits)

lemma parse_line_print:
  assumes "record_marker k = Some m" and "is_identifier cls" and "wf_results res"
    and "\<And>n. t = Some n \<Longrightarrow> length (nat_str n) \<le> 4300"
  defines "line \<equiv> print_mi_record t m cls res"
  shows "parse_line line = Some (Inr (Record
     \<lparr>rec_kind = k, record_class = cls, results = res, raw = line, token = t\<rparr>))"
proof -
  define r where "r = cls @ (if res = [] then [] else CHR '','' # print_results res)"
  have line: "line = print_token t @ m # r"
    by (simp add: line_def print_mi_record_def r_def)
  have "hd line \<noteq> CHR ''(''"
  proof (cases "print_token t")
    case Nil
    then show ?thesis using record_marker_char [OF assms(1)] line by auto
  next
    case (Cons c cs)
    then have "is_digit c" by (cases t) (auto simp: print_token_def intro: nat_str_digits [of _ "the t"])
    then show ?thesis using Cons line by (auto simp: char_class_defs)
  qed
  then have not_prompt: "line \<noteq> ''(gdb)''" by auto
  have tok: "parse_token line = (Inr t, m # r)"
    unfolding line using assms(4) marker_not_digit [OF assms(1)] by (rule parse_token_print)
  have "length (print_results res) \<le> length line"
    by (cases "res = []") (auto simp: line r_def print_results_def)
  then have "parse_result_or_async line k t r = Some (Inr (Record
      \<lparr>rec_kind = k, record_class = cls, results = res, raw = line, token = t\<rparr>, []))"
    unfolding r_def using assms(2,3) by (intro parse_result_or_async_print)
  then show ?thesis
    using not_prompt tok parse_marker_record [OF assms(1)] by (simp add: parse_line_def)
qed

lemma print_value_last: "\<not> is_eol (last (print_value v))" "print_value v \<noteq> []"
  by (cases v; simp add: print_string_def is_eol_def print_MIDict)+

lemma print_results_last:
  "res \<noteq> [] \<Longrightarrow> print_results res \<noteq> [] \<and> \<not> is_eol (last (print_results res))"
proof (induction res)
  case (Cons kv res)
  then show ?case
    by (cases kv; cases "res = []")
      (auto simp: print_results_def join_map_Cons print_pair_def print_value_last simp del: list.map)
qed simp

lemma print_record_last:
  assumes "is_identifier cls"
  shows "\<not> is_eol (last (print_mi_record t m cls res))"
proof (cases "res = []")
  case True
  have "cls \<noteq> []" and "identifier_part True (last cls)"
    using identifier_nonempty [OF assms] identifier_chars [OF assms] by auto
  then show ?thesis using True not_identifier_part
    by (auto simp: print_mi_record_def is_eol_def)
next
  case False
  then show ?thesis using print_results_last [OF False] by (auto simp: print_mi_record_def)
qed

text \<open>
  The main lemma: the line terminators \<open>readline\<close> leaves behind are stripped, and the record
  is read back.
\<close>

lemma parse_mi_record_print:
  assumes "record_marker k = Some m" and "is_identifier cls" and "wf_results res"
    and "\<And>n. t = Some n \<Longrightarrow> length (nat_str n) \<le> 4300" and "list_all is_eol eol"
  defines "line \<equiv> print_mi_record t m cls res"
  shows "parse_mi_record (line @ eol) = Some (Inr (Record
     \<lparr>rec_kind = k, record_class = cls, results = res, raw = line, token = t\<rparr>))"
proof -
  have "rstrip_chars is_eol (line @ eol) = line"
    using print_record_last [OF assms(2)]
    by (simp add: rstrip_append [OF assms(5)] rstrip_none line_def)
  then show ?thesis
    unfolding parse_mi_record_def line_def using parse_line_print [OF assms(1-4)] by simp
qed

end
