(* ===== verification/Json.thy ===== *)
theory Json
  imports Py_Dict Py_Text
begin

text \<open>
  JSON values and their canonical text: what \<open>model_dump(mode="json")\<close> produces and what
  \<open>json.dumps(.., sort_keys=True, separators=(",", ":"))\<close> writes
  (\<open>safety/confirmation.py\<close>). The text of a float is not modelled (\<open>None\<close>): no request
  of the program holds one. The main lemma is that the text determines the value
  (\<open>json_dumps_inj\<close>), which is what makes a digest of it a fingerprint.
\<close>

datatype json =
    JNull | JBool bool | JInt int | JFloat rat | JStr string
  | JArr "json list" | JObj "(string \<times> json) list"

section \<open>Text\<close>

text \<open>\<open>json.dumps\<close> of a string with \<open>ensure_ascii\<close>: everything outside space..tilde is escaped.\<close>

definition json_char :: "char \<Rightarrow> string" where
  "json_char c =
     (if c = DQUOTE then [BSLASH, DQUOTE] else if c = BSLASH then [BSLASH, BSLASH]
      else if c = LF then [BSLASH, CHR ''n''] else if c = CR then [BSLASH, CHR ''r'']
      else if c = TAB then [BSLASH, CHR ''t''] else if c = CHR 0x0C then [BSLASH, CHR ''f'']
      else if c = CHR 0x08 then [BSLASH, CHR ''b'']
      else if 32 \<le> cp c \<and> cp c \<le> 126 then [c]
      else [BSLASH, CHR ''u'', CHR ''0'', CHR ''0'', hex_char (cp c div 16), hex_char (cp c mod 16)])"

definition json_string :: "string \<Rightarrow> string" where
  "json_string s = DQUOTE # concat (map json_char s) @ [DQUOTE]"

definition sequence :: "string option list \<Rightarrow> string list option" where
  "sequence xs = (if None \<in> set xs then None else Some (map the xs))"

definition json_member :: "string \<times> string option \<Rightarrow> string option" where
  "json_member kv = map_option (\<lambda>t. json_string (fst kv) @ CHR '':'' # t) (snd kv)"

primrec json_dumps :: "json \<Rightarrow> string option" where
  "json_dumps JNull = Some ''null''"
| "json_dumps (JBool b) = Some (if b then ''true'' else ''false'')"
| "json_dumps (JInt i) = Some (int_str i)"
| "json_dumps (JFloat q) = None"
| "json_dumps (JStr s) = Some (json_string s)"
| "json_dumps (JArr xs) =
     map_option (\<lambda>ts. ''['' @ join '','' ts @ '']'') (sequence (map json_dumps xs))"
| "json_dumps (JObj kvs) =
     map_option (\<lambda>ts. ''{'' @ join '','' ts @ ''}'')
       (sequence (map json_member (map (map_prod id json_dumps) kvs)))"

text \<open>\<open>sort_keys=True\<close>\<close>

primrec sort_json :: "json \<Rightarrow> json" where
  "sort_json JNull = JNull"
| "sort_json (JBool b) = JBool b"
| "sort_json (JInt i) = JInt i"
| "sort_json (JFloat q) = JFloat q"
| "sort_json (JStr s) = JStr s"
| "sort_json (JArr xs) = JArr (map sort_json xs)"
| "sort_json (JObj kvs) = JObj (sort_key fst (map (map_prod id sort_json) kvs))"

definition json_canonical :: "json \<Rightarrow> string option" where
  "json_canonical j = json_dumps (sort_json j)"

section \<open>The text determines the value\<close>

lemma json_char_shape:
  "(json_char c = [c] \<and> c \<noteq> DQUOTE \<and> c \<noteq> BSLASH)
   \<or> (\<exists>e. json_char c = [BSLASH, e] \<and> e \<noteq> CHR ''u'')
   \<or> json_char c = [BSLASH, CHR ''u'', CHR ''0'', CHR ''0'',
        hex_char (cp c div 16), hex_char (cp c mod 16)]"
  by (simp add: json_char_def)

lemma json_char_cases:
  obtains (plain) "json_char c = [c]" and "c \<noteq> DQUOTE" and "c \<noteq> BSLASH"
  | (esc) e where "json_char c = [BSLASH, e]" and "e \<noteq> CHR ''u''"
  | (uni) "json_char c = [BSLASH, CHR ''u'', CHR ''0'', CHR ''0'',
      hex_char (cp c div 16), hex_char (cp c mod 16)]"
  using json_char_shape [of c] by blast

lemma hex_char_inj: "m < 16 \<Longrightarrow> n < 16 \<Longrightarrow> hex_char m = hex_char n \<Longrightarrow> m = n"
  using digit_val_hex_char by (metis option.inject)

lemma json_char_head: "hd (json_char c) \<noteq> DQUOTE" "json_char c \<noteq> []"
  by (cases c rule: json_char_cases; simp)+

lemma json_char_esc:
  "json_char c = [BSLASH, e] \<Longrightarrow>
   c = (if e = CHR ''n'' then LF else if e = CHR ''r'' then CR else if e = CHR ''t'' then TAB
        else if e = CHR ''f'' then CHR 0x0C else if e = CHR ''b'' then CHR 0x08 else e)"
  unfolding json_char_def by (auto split: if_split_asm)

lemma json_char_esc_inj:
  assumes "json_char c = [BSLASH, e]" and "json_char d = [BSLASH, e]"
  shows "c = d"
  using json_char_esc [OF assms(1)] json_char_esc [OF assms(2)] by simp

lemma json_char_prefix:
  assumes "json_char c @ x = json_char d @ y"
  shows "c = d \<and> x = y"
proof (cases c rule: json_char_cases)
  case plain
  then show ?thesis using assms by (cases d rule: json_char_cases) auto
next
  case (esc e)
  then show ?thesis using assms json_char_esc_inj [of c e d]
    by (cases d rule: json_char_cases) auto
next
  case uni
  show ?thesis
  proof (cases d rule: json_char_cases)
    case d: uni
    have lt: "cp c div 16 < 16" "cp d div 16 < 16" using cp_less [of c] cp_less [of d] by simp_all
    have "hex_char (cp c div 16) = hex_char (cp d div 16)"
      and "hex_char (cp c mod 16) = hex_char (cp d mod 16)" and xy: "x = y"
      using assms uni d by simp_all
    then have "cp c div 16 = cp d div 16" and "cp c mod 16 = cp d mod 16"
      using lt by (simp_all add: hex_char_inj)
    then have "cp c = cp d" by (metis div_mult_mod_eq)
    then show ?thesis using cp_inj xy by simp
  qed (use assms uni in auto)
qed

lemma json_body_prefix:
  "concat (map json_char s) @ DQUOTE # x = concat (map json_char t) @ DQUOTE # y \<Longrightarrow> s = t \<and> x = y"
proof (induction s arbitrary: t)
  case Nil
  show ?case
  proof (cases t)
    case (Cons d t')
    then have "hd (json_char d @ concat (map json_char t') @ DQUOTE # y) = DQUOTE"
      using Nil.prems by (metis append_Nil append_assoc concat.simps(1,2) list.map(1,2) list.sel(1))
    then show ?thesis using json_char_head [of d] by simp
  qed (use Nil in simp)
next
  case (Cons c s)
  show ?case
  proof (cases t)
    case Nil
    then have "hd (json_char c @ concat (map json_char s) @ DQUOTE # x) = DQUOTE"
      using Cons.prems by simp
    then show ?thesis using json_char_head [of c] by simp
  next
    case (Cons d t')
    then have "c = d \<and> concat (map json_char s) @ DQUOTE # x = concat (map json_char t') @ DQUOTE # y"
      using Cons.prems by (intro json_char_prefix) simp
    then show ?thesis using Cons.IH Cons by simp
  qed
qed

lemma json_string_prefix: "json_string s @ x = json_string t @ y \<Longrightarrow> s = t \<and> x = y"
  using json_body_prefix [of s x t y] by (simp add: json_string_def)

definition int_start :: "char \<Rightarrow> bool" where
  "int_start c \<longleftrightarrow> c = CHR ''-'' \<or> is_decimal c"

text \<open>What may follow a value: nothing that could continue an integer.\<close>

definition int_end :: "string \<Rightarrow> bool" where
  "int_end x \<longleftrightarrow> x = [] \<or> \<not> is_decimal (hd x)"

lemma nat_str_prefix:
  assumes "nat_str m @ x = nat_str n @ y" and "int_end x" and "int_end y"
  shows "m = n \<and> x = y"
proof -
  have tw: "takeWhile is_decimal (nat_str k @ z) = nat_str k" if "int_end z" for k z
    using nat_str_decimal [of k] that by (cases z) (auto simp: list_all_iff int_end_def)
  have "nat_str m = nat_str n" using tw [of x m] tw [of y n] assms by simp
  then show ?thesis using assms(1) nat_str_inj by auto
qed

lemma nat_str_start: "is_decimal (hd (nat_str n))"
  using nat_str_decimal [of n] nat_str_nonempty [of n] by (cases "nat_str n") auto

lemma minus_not_decimal: "\<not> is_decimal (CHR ''-'')"
  by (simp add: char_class_defs)

lemma int_str_start: "int_str i = c # s \<Longrightarrow> int_start c"
  using nat_str_start [of "nat i"] by (auto simp: int_str_def int_start_def split: if_splits)

lemma int_str_nonempty [simp]: "int_str i \<noteq> []"
  by (simp add: int_str_def)

lemma int_str_prefix:
  assumes "int_str i @ x = int_str j @ y" and "int_end x" and "int_end y"
  shows "i = j \<and> x = y"
proof (cases "i < 0")
  case True
  then have "j < 0"
    using assms(1) nat_str_start [of "nat j"] minus_not_decimal
    by (cases "nat_str (nat j)") (auto simp: int_str_def split: if_splits)
  with True show ?thesis
    using assms nat_str_prefix [of "nat (- i)" x "nat (- j)" y] by (auto simp: int_str_def)
next
  case False
  then have "\<not> j < 0"
    using assms(1) nat_str_start [of "nat i"] minus_not_decimal
    by (cases "nat_str (nat i)") (auto simp: int_str_def split: if_splits)
  with False show ?thesis
    using assms nat_str_prefix [of "nat i" x "nat j" y] by (auto simp: int_str_def)
qed

text \<open>The first character tells the constructor.\<close>

definition head_char :: "json \<Rightarrow> char \<Rightarrow> bool" where
  "head_char j c = (case j of
      JNull \<Rightarrow> c = CHR ''n'' | JBool b \<Rightarrow> c = (if b then CHR ''t'' else CHR ''f'')
    | JInt i \<Rightarrow> int_start c | JFloat q \<Rightarrow> False | JStr s \<Rightarrow> c = DQUOTE
    | JArr xs \<Rightarrow> c = CHR ''['' | JObj kvs \<Rightarrow> c = CHR ''{'')"

lemma json_dumps_head:
  assumes "json_dumps j = Some t"
  obtains c s where "t = c # s" and "head_char j c"
proof (cases j)
  case (JInt i)
  then obtain c s where "t = c # s" using assms int_str_nonempty [of i] by (cases t) auto
  then show thesis using that assms JInt int_str_start by (simp add: head_char_def)
qed (use assms that in \<open>auto simp: head_char_def json_string_def split: if_splits\<close>)

lemma int_start_iff:
  "\<not> int_start (CHR ''n'')" "\<not> int_start (CHR ''t'')" "\<not> int_start (CHR ''f'')"
  "\<not> int_start DQUOTE" "\<not> int_start (CHR ''['')" "\<not> int_start (CHR ''{'')"
  "\<not> is_decimal (CHR '','')" "\<not> is_decimal (CHR '']'')" "\<not> is_decimal (CHR ''}'')"
  "\<not> int_start (CHR '']'')" "\<not> int_start (CHR ''}'')"
  by (simp_all add: int_start_def char_class_defs)

lemma head_char_close: "head_char j c \<Longrightarrow> c \<noteq> CHR '']''"
  by (auto simp: head_char_def int_start_iff split: json.splits if_splits)

lemma head_char_unique:
  "head_char a c \<Longrightarrow> head_char b c \<Longrightarrow>
     (a = JNull \<and> b = JNull) \<or> (\<exists>p. a = JBool p \<and> b = JBool p) \<or> (\<exists>i j. a = JInt i \<and> b = JInt j)
     \<or> (\<exists>s t. a = JStr s \<and> b = JStr t) \<or> (\<exists>xs ys. a = JArr xs \<and> b = JArr ys)
     \<or> (\<exists>xs ys. a = JObj xs \<and> b = JObj ys)"
  unfolding head_char_def
  by (cases a; cases b) (auto simp: int_start_iff split: if_splits)

lemma sequence_Nil [simp]: "sequence [] = Some []"
  by (simp add: sequence_def)

lemma sequence_Cons:
  "sequence (x # xs) = Some ts \<longleftrightarrow> (\<exists>t ts'. ts = t # ts' \<and> x = Some t \<and> sequence xs = Some ts')"
  by (cases x) (auto simp: sequence_def)

lemma join_Cons: "join sep (t # ts) = t @ (if ts = [] then [] else sep @ join sep ts)"
  by (cases ts) simp_all

lemma join_nonempty: "t \<noteq> [] \<Longrightarrow> join sep (t # ts) \<noteq> [] \<and> hd (join sep (t # ts)) = hd t"
  by (simp add: join_Cons)

text \<open>
  A comma-separated list of texts that are each prefix-free, closed by \<open>close\<close>, determines
  its elements.
\<close>

definition prefix_free :: "('a \<Rightarrow> string option) \<Rightarrow> 'a \<Rightarrow> bool" where
  "prefix_free f a \<longleftrightarrow> (\<forall>b s t x y. f a = Some s \<longrightarrow> f b = Some t \<longrightarrow> s @ x = t @ y \<longrightarrow>
     int_end x \<longrightarrow> int_end y \<longrightarrow> a = b \<and> x = y)"

lemma prefix_freeD:
  "prefix_free f a \<Longrightarrow> f a = Some s \<Longrightarrow> f b = Some t \<Longrightarrow> s @ x = t @ y \<Longrightarrow> int_end x \<Longrightarrow> int_end y
   \<Longrightarrow> a = b \<and> x = y"
  unfolding prefix_free_def by blast

lemma join_prefix:
  assumes "\<forall>a \<in> set as. prefix_free f a"
    and "\<And>a s. f a = Some s \<Longrightarrow> s \<noteq> [] \<and> hd s \<noteq> close"
    and "\<not> is_decimal close \<and> close \<noteq> CHR '',''"
    and "sequence (map f as) = Some ss" and "sequence (map f bs) = Some ts"
    and "join '','' ss @ close # x = join '','' ts @ close # y"
  shows "as = bs \<and> x = y"
  using assms
proof (induction as arbitrary: bs ss ts)
  case Nil
  show ?case
  proof (cases bs)
    case (Cons b bs')
    then obtain t ts' where ts: "ts = t # ts'" "f b = Some t" using Nil.prems(5)
      by (auto simp: sequence_Cons)
    then show ?thesis using Nil.prems(2) [of b t] Nil.prems(4,6) join_nonempty [of t "'',''" ts']
      by (cases "join '','' ts") auto
  qed (use Nil in simp)
next
  case (Cons a as)
  obtain s ss' where s: "ss = s # ss'" "f a = Some s" "sequence (map f as) = Some ss'"
    using Cons.prems(4) by (auto simp: sequence_Cons)
  show ?case
  proof (cases bs)
    case Nil
    then show ?thesis using Cons.prems(2) [of a s] Cons.prems(5,6) s join_nonempty [of s "'',''" ss']
      by (cases "join '','' ss") auto
  next
    case b: (Cons b bs')
    obtain t ts' where t: "ts = t # ts'" "f b = Some t" "sequence (map f bs') = Some ts'"
      using Cons.prems(5) b by (auto simp: sequence_Cons)
    define rest where "rest zs z = (if zs = [] then close # z else CHR '','' # join '','' zs @ close # z)"
      for zs z
    have "s @ rest ss' x = t @ rest ts' y"
      using Cons.prems(6) s t by (cases ss'; cases ts') (auto simp: rest_def)
    moreover have "int_end (rest zs z)" for zs z
      using Cons.prems(3) by (auto simp: int_end_def rest_def int_start_iff)
    ultimately have "a = b \<and> rest ss' x = rest ts' y"
      using Cons.prems(1) by (intro prefix_freeD [of f, OF _ s(2) t(2)]) simp_all
    then have ab: "a = b" and rest: "rest ss' x = rest ts' y" by simp_all
    have "join '','' ss' @ close # x = join '','' ts' @ close # y"
      using rest Cons.prems(3) by (auto simp: rest_def split: if_splits)
    then have "as = bs' \<and> x = y"
      using Cons.IH [OF _ Cons.prems(2,3) s(3) t(3)] Cons.prems(1) by auto
    then show ?thesis using ab b by simp
  qed
qed

lemma member_prefix_free:
  assumes "prefix_free json_dumps v"
  shows "prefix_free (\<lambda>kv. json_member (map_prod id json_dumps kv)) (k, v)"
  unfolding prefix_free_def
proof (intro allI impI)
  fix b s t x y
  assume a: "json_member (map_prod id json_dumps (k, v)) = Some s"
    "json_member (map_prod id json_dumps b) = Some t" "s @ x = t @ y" "int_end x" "int_end y"
  obtain l w where b: "b = (l, w)" by fastforce
  obtain sv tw where sv: "json_dumps v = Some sv" "s = json_string k @ CHR '':'' # sv"
    and tw: "json_dumps w = Some tw" "t = json_string l @ CHR '':'' # tw"
    using a(1,2) b by (auto simp: json_member_def)
  have "k = l \<and> CHR '':'' # sv @ x = CHR '':'' # tw @ y"
    using a(3) sv tw by (intro json_string_prefix) simp
  then show "(k, v) = b \<and> x = y"
    using prefix_freeD [OF assms sv(1) tw(1) _ a(4,5)] b by simp
qed

lemma json_dumps_prefix_free: "prefix_free json_dumps a"
proof (induction a)
  case (JArr as)
  have head: "s \<noteq> [] \<and> hd s \<noteq> CHR '']''" if "json_dumps a = Some s" for a s
    using that by (rule json_dumps_head) (auto dest: head_char_close)
  show ?case unfolding prefix_free_def
  proof (intro allI impI)
    fix b s t x y
    assume a: "json_dumps (JArr as) = Some s" "json_dumps b = Some t" "s @ x = t @ y"
    obtain c u where "t = c # u" "head_char b c" using a(2) by (rule json_dumps_head)
    moreover have "hd s = CHR ''[''" "s \<noteq> []" using a(1) by auto
    ultimately have "c = CHR ''[''" using a(3) by (cases s) auto
    then obtain bs where b: "b = JArr bs"
      using \<open>head_char b c\<close> by (auto simp: head_char_def int_start_iff split: json.splits if_splits)
    obtain ss ts where ss: "sequence (map json_dumps as) = Some ss" "s = ''['' @ join '','' ss @ '']''"
      and ts: "sequence (map json_dumps bs) = Some ts" "t = ''['' @ join '','' ts @ '']''"
      using a(1,2) b by auto
    have "join '','' ss @ CHR '']'' # x = join '','' ts @ CHR '']'' # y"
      using a(3) ss ts by simp
    then have "as = bs \<and> x = y"
      by (intro join_prefix [OF _ _ _ ss(1) ts(1)]) (use JArr head in \<open>auto simp: int_start_iff\<close>)
    then show "JArr as = b \<and> x = y" using b by simp
  qed
next
  case (JObj as)
  let ?f = "\<lambda>kv. json_member (map_prod id json_dumps kv)"
  have head: "s \<noteq> [] \<and> hd s \<noteq> CHR ''}''" if "?f a = Some s" for a s
    using that by (cases a) (auto simp: json_member_def json_string_def)
  have free: "\<forall>kv \<in> set as. prefix_free ?f kv"
    using JObj member_prefix_free by fastforce
  show ?case unfolding prefix_free_def
  proof (intro allI impI)
    fix b s t x y
    assume a: "json_dumps (JObj as) = Some s" "json_dumps b = Some t" "s @ x = t @ y"
    obtain c u where "t = c # u" "head_char b c" using a(2) by (rule json_dumps_head)
    moreover have "hd s = CHR ''{''" "s \<noteq> []" using a(1) by auto
    ultimately have "c = CHR ''{''" using a(3) by (cases s) auto
    then obtain bs where b: "b = JObj bs"
      using \<open>head_char b c\<close> by (auto simp: head_char_def int_start_iff split: json.splits if_splits)
    obtain ss ts where ss: "sequence (map ?f as) = Some ss" "s = ''{'' @ join '','' ss @ ''}''"
      and ts: "sequence (map ?f bs) = Some ts" "t = ''{'' @ join '','' ts @ ''}''"
      using a(1,2) b by (auto simp: comp_def)
    have "join '','' ss @ CHR ''}'' # x = join '','' ts @ CHR ''}'' # y"
      using a(3) ss ts by simp
    then have "as = bs \<and> x = y"
      by (intro join_prefix [OF free _ _ ss(1) ts(1)]) (use head in \<open>auto simp: int_start_iff\<close>)
    then show "JObj as = b \<and> x = y" using b by simp
  qed
next
  case (JInt i)
  show ?case unfolding prefix_free_def
  proof (intro allI impI)
    fix b s t x y
    assume a: "json_dumps (JInt i) = Some s" "json_dumps b = Some t" "s @ x = t @ y"
      "int_end x" "int_end y"
    obtain c u where t: "t = c # u" "head_char b c" using a(2) by (rule json_dumps_head)
    obtain d v where s: "s = d # v" "head_char (JInt i) d" using a(1) by (rule json_dumps_head)
    have "c = d" using a(3) s t by simp
    then obtain j where b: "b = JInt j" using head_char_unique [OF s(2), of b] t(2) by auto
    then show "JInt i = b \<and> x = y" using int_str_prefix [of i x j y] a by simp
  qed
next
  case (JStr u)
  show ?case unfolding prefix_free_def
  proof (intro allI impI)
    fix b s t x y
    assume a: "json_dumps (JStr u) = Some s" "json_dumps b = Some t" "s @ x = t @ y"
    obtain c w where t: "t = c # w" "head_char b c" using a(2) by (rule json_dumps_head)
    obtain d v where s: "s = d # v" "head_char (JStr u) d" using a(1) by (rule json_dumps_head)
    have "c = d" using a(3) s t by simp
    then obtain j where b: "b = JStr j" using head_char_unique [OF s(2), of b] t(2) by auto
    then show "JStr u = b \<and> x = y" using json_string_prefix [of u x j y] a by simp
  qed
next
  case JNull
  show ?case unfolding prefix_free_def
  proof (intro allI impI)
    fix b s t x y
    assume a: "json_dumps JNull = Some s" "json_dumps b = Some t" "s @ x = t @ y"
    obtain c w where t: "t = c # w" "head_char b c" using a(2) by (rule json_dumps_head)
    then have "head_char JNull c" using a by (auto simp: head_char_def)
    then have "b = JNull" using head_char_unique [of JNull c b] t(2) by auto
    then show "JNull = b \<and> x = y" using a by simp
  qed
next
  case (JBool p)
  show ?case unfolding prefix_free_def
  proof (intro allI impI)
    fix b s t x y
    assume a: "json_dumps (JBool p) = Some s" "json_dumps b = Some t" "s @ x = t @ y"
    obtain c w where t: "t = c # w" "head_char b c" using a(2) by (rule json_dumps_head)
    then have "head_char (JBool p) c" using a by (auto simp: head_char_def split: if_splits)
    then have "b = JBool p" using head_char_unique [of "JBool p" c b] t(2) by auto
    then show "JBool p = b \<and> x = y" using a by simp
  qed
qed (simp add: prefix_free_def)

lemma json_dumps_inj: "json_dumps a = Some s \<Longrightarrow> json_dumps b = Some s \<Longrightarrow> a = b"
  using prefix_freeD [OF json_dumps_prefix_free, of a s b s "[]" "[]"] by (simp add: int_end_def)

end
