(* ===== verification/Schemas.thy ===== *)
theory Schemas
  imports Json
begin

text \<open>
  The public schemas (\<open>mcp_server/schemas.py\<close>) and the error registry (\<open>errors.py\<close>): the
  enumerations with their wire values, the error and result envelopes, the request models with
  their field constraints, and the data models. A pydantic constructor that refuses its
  arguments is a function into \<open>res\<close>; a request is built by \<open>validated\<close>. Requests are
  gathered in \<open>tool_request\<close>, whose JSON form \<open>request_json\<close> is \<open>model_dump\<close> with
  \<open>exclude_none\<close>.
\<close>

section \<open>Enumerations\<close>

datatype permission_level = READONLY | CONFIRM_REQUIRED | FULL_CONTROL

datatype target_state = DISCONNECTED | CONNECTING | HALTED | RUNNING | UNKNOWN | DEGRADED

datatype error_category =
  CAT_PERMISSION | CAT_TIMEOUT | CAT_TARGET | CAT_GDB | CAT_VALIDATION | CAT_INTERNAL

datatype backend_kind = GENERIC_REMOTE | QEMU | OPENOCD | JLINK | PYOCD

datatype register_group = GROUP_CORE | GROUP_FAULT | GROUP_ALL

datatype reset_mode = RESET_HALT | RESET_RUN

datatype breakpoint_type = HARDWARE | SOFTWARE

datatype halt_policy = REQUIRE_ALREADY_HALTED | HALT_IF_RUNNING

datatype detail_level = BRIEF | NORMAL | VERBOSE

datatype location_kind = LOC_SYMBOL | LOC_ADDRESS | LOC_FILE_LINE

primrec permission_value :: "permission_level \<Rightarrow> string" where
  "permission_value READONLY = ''readonly''"
| "permission_value CONFIRM_REQUIRED = ''confirm-required''"
| "permission_value FULL_CONTROL = ''full-control''"

primrec state_value :: "target_state \<Rightarrow> string" where
  "state_value DISCONNECTED = ''disconnected''"
| "state_value CONNECTING = ''connecting''"
| "state_value HALTED = ''halted''"
| "state_value RUNNING = ''running''"
| "state_value UNKNOWN = ''unknown''"
| "state_value DEGRADED = ''degraded''"

primrec category_value :: "error_category \<Rightarrow> string" where
  "category_value CAT_PERMISSION = ''permission''"
| "category_value CAT_TIMEOUT = ''timeout''"
| "category_value CAT_TARGET = ''target''"
| "category_value CAT_GDB = ''gdb''"
| "category_value CAT_VALIDATION = ''validation''"
| "category_value CAT_INTERNAL = ''internal''"

primrec backend_value :: "backend_kind \<Rightarrow> string" where
  "backend_value GENERIC_REMOTE = ''generic-remote''"
| "backend_value QEMU = ''qemu''"
| "backend_value OPENOCD = ''openocd''"
| "backend_value JLINK = ''jlink''"
| "backend_value PYOCD = ''pyocd''"

primrec group_value :: "register_group \<Rightarrow> string" where
  "group_value GROUP_CORE = ''core''"
| "group_value GROUP_FAULT = ''fault''"
| "group_value GROUP_ALL = ''all''"

primrec reset_value :: "reset_mode \<Rightarrow> string" where
  "reset_value RESET_HALT = ''halt''"
| "reset_value RESET_RUN = ''run''"

primrec breakpoint_type_value :: "breakpoint_type \<Rightarrow> string" where
  "breakpoint_type_value HARDWARE = ''hardware''"
| "breakpoint_type_value SOFTWARE = ''software''"

primrec halt_policy_value :: "halt_policy \<Rightarrow> string" where
  "halt_policy_value REQUIRE_ALREADY_HALTED = ''require_already_halted''"
| "halt_policy_value HALT_IF_RUNNING = ''halt_if_running''"

primrec detail_value :: "detail_level \<Rightarrow> string" where
  "detail_value BRIEF = ''brief''"
| "detail_value NORMAL = ''normal''"
| "detail_value VERBOSE = ''verbose''"

primrec location_kind_value :: "location_kind \<Rightarrow> string" where
  "location_kind_value LOC_SYMBOL = ''symbol''"
| "location_kind_value LOC_ADDRESS = ''address''"
| "location_kind_value LOC_FILE_LINE = ''file-line''"

lemma enum_values_inj:
  "permission_value a = permission_value b \<longleftrightarrow> a = b"
  "state_value c = state_value d \<longleftrightarrow> c = d"
  "backend_value e = backend_value f \<longleftrightarrow> e = f"
  "group_value g = group_value h \<longleftrightarrow> g = h"
  "reset_value i = reset_value j \<longleftrightarrow> i = j"
  "breakpoint_type_value k = breakpoint_type_value l \<longleftrightarrow> k = l"
  "halt_policy_value m = halt_policy_value n \<longleftrightarrow> m = n"
  "detail_value p = detail_value q \<longleftrightarrow> p = q"
  "location_kind_value s = location_kind_value t \<longleftrightarrow> s = t"
  by ((cases a; cases b; simp), (cases c; cases d; simp), (cases e; cases f; simp),
      (cases g; cases h; simp), (cases i; cases j; simp), (cases k; cases l; simp),
      (cases m; cases n; simp), (cases p; cases q; simp), (cases s; cases t; simp))

text \<open>Permission levels in the order of what they allow.\<close>

primrec rank_of :: "permission_level \<Rightarrow> nat" where
  "rank_of READONLY = 0"
| "rank_of CONFIRM_REQUIRED = 1"
| "rank_of FULL_CONTROL = 2"

instantiation permission_level :: linorder
begin

definition less_eq_permission_level :: "permission_level \<Rightarrow> permission_level \<Rightarrow> bool" where
  "less_eq_permission_level a b \<longleftrightarrow> rank_of a \<le> rank_of b"

definition less_permission_level :: "permission_level \<Rightarrow> permission_level \<Rightarrow> bool" where
  "less_permission_level a b \<longleftrightarrow> rank_of a < rank_of b"

instance
proof
  fix a b :: permission_level
  show "a = b" if "a \<le> b" "b \<le> a"
    using that by (cases a; cases b; simp add: less_eq_permission_level_def)
qed (auto simp: less_eq_permission_level_def less_permission_level_def)

end

lemma permission_order [simp]:
  "READONLY \<le> p" "p \<le> FULL_CONTROL" "p \<le> READONLY \<longleftrightarrow> p = READONLY"
  "FULL_CONTROL \<le> p \<longleftrightarrow> p = FULL_CONTROL"
  by (cases p; simp add: less_eq_permission_level_def)+

section \<open>Errors\<close>

datatype error_code =
    CONFIRMATION_REQUIRED | INVALID_CONFIRMATION_TOKEN | PERMISSION_DENIED
  | RESOURCE_LIMIT_EXCEEDED | SESSION_FACTORY_UNAVAILABLE | SESSION_NOT_FOUND
  | SNAPSHOT_NOT_FOUND | SNAPSHOT_REQUIRED | TOOL_EXECUTION_FAILED | UNSUPPORTED_BACKEND
  | VALIDATION_FAILED

text \<open>\<open>DebugError.code\<close> holds the value of an \<open>ErrorCode\<close>; every constructor call passes one.\<close>

record debug_error =
  code :: error_code
  message :: string
  category :: error_category
  retryable :: bool
  details :: "json dict"
  required_permission :: "permission_level option"
  confirmation_token :: "string option"

text \<open>
  The pydantic constructor: \<open>message\<close> has \<open>min_length=1\<close>, so an empty one raises
  \<open>ValidationError\<close> (the code is never empty).
\<close>

definition mk_debug_error ::
  "error_code \<Rightarrow> string \<Rightarrow> error_category \<Rightarrow> bool \<Rightarrow> json dict \<Rightarrow> permission_level option
   \<Rightarrow> string option \<Rightarrow> debug_error res" where
  "mk_debug_error c msg cat retry ds perm tok =
     (if msg = [] then Inl (Exc ValidationError ''message'')
      else Inr \<lparr>code = c, message = msg, category = cat, retryable = retry, details = ds,
                required_permission = perm, confirmation_token = tok\<rparr>)"

text \<open>
  \<open>make_error\<close> of the registry and the direct constructor calls, where the message is a
  non-empty literal, so that the constructor cannot refuse it.
\<close>

definition make_error ::
  "error_code \<Rightarrow> string \<Rightarrow> error_category \<Rightarrow> bool \<Rightarrow> permission_level option \<Rightarrow> json dict
   \<Rightarrow> string option \<Rightarrow> debug_error" where
  "make_error c msg cat retry perm ds tok =
     \<lparr>code = c, message = msg, category = cat, retryable = retry, details = ds,
      required_permission = perm, confirmation_token = tok\<rparr>"

lemma make_error_mk:
  "msg \<noteq> [] \<Longrightarrow> mk_debug_error c msg cat retry ds perm tok = Inr (make_error c msg cat retry perm ds tok)"
  by (simp add: mk_debug_error_def make_error_def)

section \<open>Requests\<close>

record connect_target_request =
  ct_backend :: backend_kind
  ct_gdb_path :: string
  ct_elf_path :: "string option"
  ct_endpoint :: "string option"
  ct_profile :: string
  ct_timeout_ms :: int

record disconnect_target_request =
  dt_session_id :: string
  dt_kill_backend :: bool
  dt_timeout_ms :: int

record halt_request =
  ht_session_id :: string
  ht_timeout_ms :: int

record resume_request =
  rs_session_id :: string
  rs_max_run_ms :: int
  rs_auto_interrupt :: bool

record step_instruction_request =
  si_session_id :: string
  si_count :: int
  si_timeout_ms :: int

record reset_target_request =
  rt_session_id :: string
  rt_mode :: reset_mode
  rt_timeout_ms :: int

record read_registers_request =
  rr_session_id :: string
  rr_group :: register_group

record read_memory_request =
  rm_session_id :: string
  rm_address :: string
  rm_length :: int
  rm_width :: int
  rm_timeout_ms :: int

record write_memory_request =
  wm_session_id :: string
  wm_address :: string
  wm_data_hex :: string
  wm_expected_old_hex :: "string option"
  wm_timeout_ms :: int

record breakpoint_location =
  loc_kind :: location_kind
  loc_value :: string

record set_breakpoint_request =
  sb_session_id :: string
  sb_location :: breakpoint_location
  sb_type :: breakpoint_type
  sb_temporary :: bool
  sb_timeout_ms :: int

record clear_breakpoint_request =
  cb_session_id :: string
  cb_breakpoint_id :: string
  cb_timeout_ms :: int

record debug_snapshot_request =
  ds_session_id :: string
  ds_halt_policy :: halt_policy
  ds_include_core_registers :: bool
  ds_include_fault_registers :: bool
  ds_include_stack :: bool
  ds_stack_bytes :: int
  ds_include_symbol_context :: bool
  ds_disassembly_instructions :: int

record analyze_fault_request =
  af_session_id :: "string option"
  af_snapshot_id :: "string option"

record inspect_peripheral_request =
  ip_session_id :: string
  ip_svd_path :: string
  ip_peripheral :: string
  ip_registers :: "string list option"
  ip_timeout_ms :: int

record compare_snapshots_request =
  cs_before_snapshot_id :: string
  cs_after_snapshot_id :: string
  cs_include_memory_diffs :: bool

record explain_current_state_request =
  ex_session_id :: "string option"
  ex_snapshot_id :: "string option"
  ex_detail_level :: detail_level

record suggest_next_debug_steps_request =
  sn_session_id :: "string option"
  sn_snapshot_id :: "string option"
  sn_goal :: string

datatype tool_request =
    ConnectTarget connect_target_request
  | DisconnectTarget disconnect_target_request
  | Halt halt_request
  | Resume resume_request
  | StepInstruction step_instruction_request
  | ResetTarget reset_target_request
  | ReadRegisters read_registers_request
  | ReadMemory read_memory_request
  | WriteMemory write_memory_request
  | SetBreakpoint set_breakpoint_request
  | ClearBreakpoint clear_breakpoint_request
  | DebugSnapshot debug_snapshot_request
  | AnalyzeFault analyze_fault_request
  | InspectPeripheral inspect_peripheral_request
  | CompareSnapshots compare_snapshots_request
  | ExplainCurrentState explain_current_state_request
  | SuggestNextDebugSteps suggest_next_debug_steps_request

definition timeout_ok :: "int \<Rightarrow> bool" where
  "timeout_ok t \<longleftrightarrow> 1 \<le> t \<and> t \<le> 120000"

definition between :: "int \<Rightarrow> int \<Rightarrow> int \<Rightarrow> bool" where
  "between lo x hi \<longleftrightarrow> lo \<le> x \<and> x \<le> hi"

text \<open>The field constraints and model validators, one equation per request model.\<close>

primrec valid_request :: "tool_request \<Rightarrow> bool" where
  "valid_request (ConnectTarget r) =
     (ct_gdb_path r \<noteq> [] \<and> ct_profile r \<noteq> [] \<and> timeout_ok (ct_timeout_ms r))"
| "valid_request (DisconnectTarget r) = (dt_session_id r \<noteq> [] \<and> timeout_ok (dt_timeout_ms r))"
| "valid_request (Halt r) = (ht_session_id r \<noteq> [] \<and> timeout_ok (ht_timeout_ms r))"
| "valid_request (Resume r) = (rs_session_id r \<noteq> [] \<and> between 1 (rs_max_run_ms r) 120000)"
| "valid_request (StepInstruction r) =
     (si_session_id r \<noteq> [] \<and> between 1 (si_count r) 100 \<and> timeout_ok (si_timeout_ms r))"
| "valid_request (ResetTarget r) = (rt_session_id r \<noteq> [] \<and> timeout_ok (rt_timeout_ms r))"
| "valid_request (ReadRegisters r) = (rr_session_id r \<noteq> [])"
| "valid_request (ReadMemory r) =
     (rm_session_id r \<noteq> [] \<and> rm_address r \<noteq> [] \<and> between 1 (rm_length r) 4096 \<and>
      between 1 (rm_width r) 8 \<and> timeout_ok (rm_timeout_ms r))"
| "valid_request (WriteMemory r) =
     (wm_session_id r \<noteq> [] \<and> wm_address r \<noteq> [] \<and> 2 \<le> length (wm_data_hex r) \<and>
      timeout_ok (wm_timeout_ms r))"
| "valid_request (SetBreakpoint r) =
     (sb_session_id r \<noteq> [] \<and> loc_value (sb_location r) \<noteq> [] \<and> timeout_ok (sb_timeout_ms r))"
| "valid_request (ClearBreakpoint r) =
     (cb_session_id r \<noteq> [] \<and> cb_breakpoint_id r \<noteq> [] \<and> timeout_ok (cb_timeout_ms r))"
| "valid_request (DebugSnapshot r) =
     (ds_session_id r \<noteq> [] \<and> between 0 (ds_stack_bytes r) 4096 \<and>
      between 0 (ds_disassembly_instructions r) 32)"
| "valid_request (AnalyzeFault r) = (af_session_id r \<noteq> None \<or> af_snapshot_id r \<noteq> None)"
| "valid_request (InspectPeripheral r) =
     (ip_session_id r \<noteq> [] \<and> ip_svd_path r \<noteq> [] \<and> ip_peripheral r \<noteq> [] \<and>
      timeout_ok (ip_timeout_ms r))"
| "valid_request (CompareSnapshots r) = True"
| "valid_request (ExplainCurrentState r) = (ex_session_id r \<noteq> None \<or> ex_snapshot_id r \<noteq> None)"
| "valid_request (SuggestNextDebugSteps r) =
     ((sn_session_id r \<noteq> None \<or> sn_snapshot_id r \<noteq> None) \<and> sn_goal r \<noteq> [])"

definition validated :: "tool_request \<Rightarrow> tool_request res" where
  "validated r = (if valid_request r then Inr r else Inl (Exc ValidationError ''request''))"

section \<open>The JSON form of a request\<close>

text \<open>A field that is \<open>None\<close> is left out (\<open>exclude_none=True\<close>).\<close>

definition opt_field :: "string \<Rightarrow> ('a \<Rightarrow> json) \<Rightarrow> 'a option \<Rightarrow> (string \<times> json) list" where
  "opt_field k f x = (case x of None \<Rightarrow> [] | Some v \<Rightarrow> [(k, f v)])"

primrec request_fields :: "tool_request \<Rightarrow> json dict" where
  "request_fields (ConnectTarget r) =
     [(''timeout_ms'', JInt (ct_timeout_ms r)), (''backend'', JStr (backend_value (ct_backend r))),
      (''gdb_path'', JStr (ct_gdb_path r))]
     @ opt_field ''elf_path'' JStr (ct_elf_path r)
     @ opt_field ''endpoint'' JStr (ct_endpoint r)
     @ [(''profile'', JStr (ct_profile r))]"
| "request_fields (DisconnectTarget r) =
     [(''timeout_ms'', JInt (dt_timeout_ms r)), (''session_id'', JStr (dt_session_id r)),
      (''kill_backend'', JBool (dt_kill_backend r))]"
| "request_fields (Halt r) =
     [(''timeout_ms'', JInt (ht_timeout_ms r)), (''session_id'', JStr (ht_session_id r))]"
| "request_fields (Resume r) =
     [(''session_id'', JStr (rs_session_id r)), (''max_run_ms'', JInt (rs_max_run_ms r)),
      (''auto_interrupt'', JBool (rs_auto_interrupt r))]"
| "request_fields (StepInstruction r) =
     [(''timeout_ms'', JInt (si_timeout_ms r)), (''session_id'', JStr (si_session_id r)),
      (''count'', JInt (si_count r))]"
| "request_fields (ResetTarget r) =
     [(''timeout_ms'', JInt (rt_timeout_ms r)), (''session_id'', JStr (rt_session_id r)),
      (''mode'', JStr (reset_value (rt_mode r)))]"
| "request_fields (ReadRegisters r) =
     [(''session_id'', JStr (rr_session_id r)), (''group'', JStr (group_value (rr_group r)))]"
| "request_fields (ReadMemory r) =
     [(''timeout_ms'', JInt (rm_timeout_ms r)), (''session_id'', JStr (rm_session_id r)),
      (''address'', JStr (rm_address r)), (''length'', JInt (rm_length r)),
      (''width'', JInt (rm_width r))]"
| "request_fields (WriteMemory r) =
     [(''timeout_ms'', JInt (wm_timeout_ms r)), (''session_id'', JStr (wm_session_id r)),
      (''address'', JStr (wm_address r)), (''data_hex'', JStr (wm_data_hex r))]
     @ opt_field ''expected_old_hex'' JStr (wm_expected_old_hex r)"
| "request_fields (SetBreakpoint r) =
     [(''timeout_ms'', JInt (sb_timeout_ms r)), (''session_id'', JStr (sb_session_id r)),
      (''location'', JObj [(''kind'', JStr (location_kind_value (loc_kind (sb_location r)))),
                          (''value'', JStr (loc_value (sb_location r)))]),
      (''type'', JStr (breakpoint_type_value (sb_type r))),
      (''temporary'', JBool (sb_temporary r))]"
| "request_fields (ClearBreakpoint r) =
     [(''timeout_ms'', JInt (cb_timeout_ms r)), (''session_id'', JStr (cb_session_id r)),
      (''breakpoint_id'', JStr (cb_breakpoint_id r))]"
| "request_fields (DebugSnapshot r) =
     [(''session_id'', JStr (ds_session_id r)),
      (''halt_policy'', JStr (halt_policy_value (ds_halt_policy r))),
      (''include_core_registers'', JBool (ds_include_core_registers r)),
      (''include_fault_registers'', JBool (ds_include_fault_registers r)),
      (''include_stack'', JBool (ds_include_stack r)),
      (''stack_bytes'', JInt (ds_stack_bytes r)),
      (''include_symbol_context'', JBool (ds_include_symbol_context r)),
      (''disassembly_instructions'', JInt (ds_disassembly_instructions r))]"
| "request_fields (AnalyzeFault r) =
     opt_field ''session_id'' JStr (af_session_id r)
     @ opt_field ''snapshot_id'' JStr (af_snapshot_id r)"
| "request_fields (InspectPeripheral r) =
     [(''session_id'', JStr (ip_session_id r)), (''svd_path'', JStr (ip_svd_path r)),
      (''peripheral'', JStr (ip_peripheral r))]
     @ opt_field ''registers'' (\<lambda>ns. JArr (map JStr ns)) (ip_registers r)
     @ [(''timeout_ms'', JInt (ip_timeout_ms r))]"
| "request_fields (CompareSnapshots r) =
     [(''before_snapshot_id'', JStr (cs_before_snapshot_id r)),
      (''after_snapshot_id'', JStr (cs_after_snapshot_id r)),
      (''include_memory_diffs'', JBool (cs_include_memory_diffs r))]"
| "request_fields (ExplainCurrentState r) =
     opt_field ''session_id'' JStr (ex_session_id r)
     @ opt_field ''snapshot_id'' JStr (ex_snapshot_id r)
     @ [(''detail_level'', JStr (detail_value (ex_detail_level r)))]"
| "request_fields (SuggestNextDebugSteps r) =
     opt_field ''session_id'' JStr (sn_session_id r)
     @ opt_field ''snapshot_id'' JStr (sn_snapshot_id r)
     @ [(''goal'', JStr (sn_goal r))]"

definition request_json :: "tool_request \<Rightarrow> json" where
  "request_json r = JObj (request_fields r)"

text \<open>The session a request names, where its model has the field.\<close>

primrec request_session :: "tool_request \<Rightarrow> string option" where
  "request_session (ConnectTarget r) = None"
| "request_session (DisconnectTarget r) = Some (dt_session_id r)"
| "request_session (Halt r) = Some (ht_session_id r)"
| "request_session (Resume r) = Some (rs_session_id r)"
| "request_session (StepInstruction r) = Some (si_session_id r)"
| "request_session (ResetTarget r) = Some (rt_session_id r)"
| "request_session (ReadRegisters r) = Some (rr_session_id r)"
| "request_session (ReadMemory r) = Some (rm_session_id r)"
| "request_session (WriteMemory r) = Some (wm_session_id r)"
| "request_session (SetBreakpoint r) = Some (sb_session_id r)"
| "request_session (ClearBreakpoint r) = Some (cb_session_id r)"
| "request_session (DebugSnapshot r) = Some (ds_session_id r)"
| "request_session (AnalyzeFault r) = af_session_id r"
| "request_session (InspectPeripheral r) = Some (ip_session_id r)"
| "request_session (CompareSnapshots r) = None"
| "request_session (ExplainCurrentState r) = ex_session_id r"
| "request_session (SuggestNextDebugSteps r) = sn_session_id r"

end
