(* ===== verification/MI_Commands.thy ===== *)
theory MI_Commands
  imports MI_Roundtrip Schemas
begin

text \<open>
  The allowlisted GDB/MI commands (\<open>mi/commands.py\<close>): the command names, one builder per
  command, argument quoting and serialization. \<open>read_line_args\<close> is the reader on GDB's side of
  the pipe, a specification: it splits a command line into arguments, C strings or bare words.
  The lemmas show that it gets back exactly the arguments that were serialized, that a
  serialized command is a single line as long as no argument holds a line feed, and what a line
  feed in an argument does.
\<close>

datatype mi_command_name =
    TARGET_SELECT | GDB_EXIT | DATA_LIST_REGISTER_VALUES | DATA_READ_MEMORY_BYTES
  | DATA_WRITE_MEMORY_BYTES | EXEC_INTERRUPT | EXEC_CONTINUE | EXEC_STEP_INSTRUCTION
  | BREAK_INSERT | BREAK_DELETE | INTERPRETER_EXEC | STACK_INFO_FRAME | DATA_DISASSEMBLE

primrec command_value :: "mi_command_name \<Rightarrow> string" where
  "command_value TARGET_SELECT = ''target-select''"
| "command_value GDB_EXIT = ''gdb-exit''"
| "command_value DATA_LIST_REGISTER_VALUES = ''data-list-register-values''"
| "command_value DATA_READ_MEMORY_BYTES = ''data-read-memory-bytes''"
| "command_value DATA_WRITE_MEMORY_BYTES = ''data-write-memory-bytes''"
| "command_value EXEC_INTERRUPT = ''exec-interrupt''"
| "command_value EXEC_CONTINUE = ''exec-continue''"
| "command_value EXEC_STEP_INSTRUCTION = ''exec-step-instruction''"
| "command_value BREAK_INSERT = ''break-insert''"
| "command_value BREAK_DELETE = ''break-delete''"
| "command_value INTERPRETER_EXEC = ''interpreter-exec''"
| "command_value STACK_INFO_FRAME = ''stack-info-frame''"
| "command_value DATA_DISASSEMBLE = ''data-disassemble''"

definition allowlisted_console_commands :: "string list" where
  "allowlisted_console_commands = [''monitor reset halt'', ''monitor reset run'']"

record mi_command =
  cmd_name :: mi_command_name
  cmd_args :: "string list"

text \<open>\<open>_quote_arg\<close>\<close>

definition needs_quotes :: "string \<Rightarrow> bool" where
  "needs_quotes arg \<longleftrightarrow> list_ex (\<lambda>c. is_space c \<or> c = DQUOTE \<or> c = BSLASH) arg"

definition quote_arg :: "string \<Rightarrow> string" where
  "quote_arg arg =
     (if arg = [] then [DQUOTE, DQUOTE]
      else if needs_quotes arg
      then DQUOTE # replace_char DQUOTE [BSLASH, DQUOTE] (replace_char BSLASH [BSLASH, BSLASH] arg)
           @ [DQUOTE]
      else arg)"

text \<open>\<open>MICommand.serialize\<close>\<close>

definition serialize :: "mi_command \<Rightarrow> nat option \<Rightarrow> string" where
  "serialize c tok =
     join '' '' ((print_token tok @ CHR ''-'' # command_value (cmd_name c)) # map quote_arg (cmd_args c))"

definition target_select :: "string \<Rightarrow> bool \<Rightarrow> mi_command" where
  "target_select endpoint extended =
     \<lparr>cmd_name = TARGET_SELECT,
      cmd_args = [if extended then ''extended-remote'' else ''remote'', endpoint]\<rparr>"

definition gdb_exit :: mi_command where
  "gdb_exit = \<lparr>cmd_name = GDB_EXIT, cmd_args = []\<rparr>"

definition data_list_register_values :: "string \<Rightarrow> mi_command" where
  "data_list_register_values fmt = \<lparr>cmd_name = DATA_LIST_REGISTER_VALUES, cmd_args = [fmt]\<rparr>"

definition data_read_memory_bytes :: "string \<Rightarrow> int \<Rightarrow> mi_command" where
  "data_read_memory_bytes address len =
     \<lparr>cmd_name = DATA_READ_MEMORY_BYTES, cmd_args = [address, int_str len]\<rparr>"

definition data_write_memory_bytes :: "string \<Rightarrow> string \<Rightarrow> mi_command" where
  "data_write_memory_bytes address data_hex =
     \<lparr>cmd_name = DATA_WRITE_MEMORY_BYTES, cmd_args = [address, data_hex]\<rparr>"

definition stack_info_frame :: mi_command where
  "stack_info_frame = \<lparr>cmd_name = STACK_INFO_FRAME, cmd_args = []\<rparr>"

definition data_disassemble :: "string \<Rightarrow> int \<Rightarrow> mi_command" where
  "data_disassemble address instruction_count =
     \<lparr>cmd_name = DATA_DISASSEMBLE,
      cmd_args = [''-a'', address, ''-n'', int_str instruction_count, ''--'', ''0'']\<rparr>"

definition exec_interrupt :: mi_command where
  "exec_interrupt = \<lparr>cmd_name = EXEC_INTERRUPT, cmd_args = []\<rparr>"

definition exec_continue :: mi_command where
  "exec_continue = \<lparr>cmd_name = EXEC_CONTINUE, cmd_args = []\<rparr>"

definition exec_step_instruction :: mi_command where
  "exec_step_instruction = \<lparr>cmd_name = EXEC_STEP_INSTRUCTION, cmd_args = []\<rparr>"

definition break_insert :: "string \<Rightarrow> breakpoint_type \<Rightarrow> bool \<Rightarrow> mi_command" where
  "break_insert location btype temporary =
     \<lparr>cmd_name = BREAK_INSERT,
      cmd_args = (if temporary then [''-t''] else []) @ (if btype = HARDWARE then [''-h''] else [])
                 @ [location]\<rparr>"

definition break_delete :: "string \<Rightarrow> mi_command" where
  "break_delete breakpoint_id = \<lparr>cmd_name = BREAK_DELETE, cmd_args = [breakpoint_id]\<rparr>"

definition interpreter_exec_console :: "string \<Rightarrow> mi_command res" where
  "interpreter_exec_console command =
     (if command \<notin> set allowlisted_console_commands
      then Inl (Exc ValueError (''console command is not allowlisted: '' @ command))
      else Inr \<lparr>cmd_name = INTERPRETER_EXEC, cmd_args = [''console'', command]\<rparr>)"

lemmas builder_defs =
  target_select_def gdb_exit_def data_list_register_values_def data_read_memory_bytes_def
  data_write_memory_bytes_def stack_info_frame_def data_disassemble_def exec_interrupt_def
  exec_continue_def exec_step_instruction_def break_insert_def break_delete_def

section \<open>Quoting\<close>

definition quote_char :: "char \<Rightarrow> string" where
  "quote_char c = (if c = DQUOTE then [BSLASH, DQUOTE] else if c = BSLASH then [BSLASH, BSLASH] else [c])"

lemma quote_arg_chars:
  "needs_quotes arg \<Longrightarrow> quote_arg arg = DQUOTE # concat (map quote_char arg) @ [DQUOTE]"
proof -
  have "replace_char DQUOTE [BSLASH, DQUOTE] (replace_char BSLASH [BSLASH, BSLASH] s)
      = concat (map quote_char s)" for s
    by (induction s) (auto simp: replace_char_def quote_char_def)
  then show "needs_quotes arg \<Longrightarrow> ?thesis"
    by (auto simp: quote_arg_def needs_quotes_def)
qed

lemma c_string_body_quote_char: "c_string_body (quote_char c @ r) = push_char c (c_string_body r)"
  by (simp add: quote_char_def unescape_def c_string_body_plain)

lemma c_string_body_quoted:
  "c_string_body (concat (map quote_char s) @ DQUOTE # r) = Inr (s, r)"
  by (induction s) (simp_all add: c_string_body_quote_char)

text \<open>A quoted argument is a C string of the argument itself, whatever characters it holds.\<close>

lemma parse_c_string_quote_arg:
  "arg = [] \<or> needs_quotes arg \<Longrightarrow> parse_c_string (quote_arg arg @ r) = Inr (arg, r)"
proof (cases "arg = []")
  case True
  then show ?thesis by (simp add: quote_arg_def parse_c_string_def)
next
  case False
  assume "arg = [] \<or> needs_quotes arg"
  with False have "quote_arg arg = DQUOTE # concat (map quote_char arg) @ [DQUOTE]"
    by (intro quote_arg_chars) simp
  then show ?thesis by (simp add: parse_c_string_def c_string_body_quoted)
qed

lemma quote_arg_plain:
  "arg \<noteq> [] \<Longrightarrow> \<not> needs_quotes arg \<Longrightarrow> quote_arg arg = arg \<and> (\<forall>c \<in> set arg. \<not> is_space c \<and> c \<noteq> DQUOTE \<and> c \<noteq> BSLASH)"
  by (auto simp: quote_arg_def needs_quotes_def list_ex_iff)

section \<open>The reader of a command line\<close>

function read_args :: "string \<Rightarrow> string list option" where
  "read_args s =
     (case s of
        [] \<Rightarrow> Some []
      | c # r \<Rightarrow>
          if c \<noteq> CHR '' '' then None
          else if peek r = Some DQUOTE then
            (case parse_c_string r of
               Inl e \<Rightarrow> None
             | Inr (a, r') \<Rightarrow> map_option (\<lambda>as. a # as) (read_args r'))
          else map_option (\<lambda>as. takeWhile (\<lambda>d. d \<noteq> CHR '' '') r # as)
                 (read_args (dropWhile (\<lambda>d. d \<noteq> CHR '' '') r)))"
  by pat_completeness auto
termination
proof (relation "measure length", goal_cases)
  case (2 s c r ar a r')
  then show ?case using parse_c_string_progress [of r a r'] by simp
next
  case (3 s c r)
  then show ?case using length_dropWhile_le [of "\<lambda>d. d \<noteq> CHR '' ''" r] by simp
qed simp

declare read_args.simps [simp del]

definition read_line_args :: "string \<Rightarrow> (nat option \<times> string \<times> string list) option" where
  "read_line_args line =
     (case parse_token line of
        (Inr tok, r) \<Rightarrow>
          (if peek r = Some (CHR ''-'')
           then map_option (\<lambda>as. (tok, takeWhile (\<lambda>d. d \<noteq> CHR '' '') (tl r), as))
                  (read_args (dropWhile (\<lambda>d. d \<noteq> CHR '' '') (tl r)))
           else None)
      | _ \<Rightarrow> None)"

lemma space_is_space: "is_space (CHR '' '')"
  by (simp add: char_class_defs)

lemma read_args_quoted:
  "read_args (concat (map (\<lambda>a. CHR '' '' # quote_arg a) as)) = Some as"
proof (induction as)
  case Nil
  then show ?case by (simp add: read_args.simps)
next
  case (Cons a as)
  define rest where "rest = concat (map (\<lambda>a. CHR '' '' # quote_arg a) as)"
  have rest: "rest = [] \<or> hd rest = CHR '' ''" by (cases as) (simp_all add: rest_def)
  show ?case
  proof (cases "a = [] \<or> needs_quotes a")
    case True
    then have "peek (quote_arg a @ rest) = Some DQUOTE"
      using quote_arg_chars [of a] by (auto simp: quote_arg_def)
    with parse_c_string_quote_arg [OF True, of rest] Cons show ?thesis
      by (subst read_args.simps) (simp add: rest_def)
  next
    case False
    then have q: "quote_arg a = a" and plain: "\<forall>c \<in> set a. c \<noteq> CHR '' '' \<and> c \<noteq> DQUOTE"
      using quote_arg_plain [of a] space_is_space by auto
    have "peek (a @ rest) \<noteq> Some DQUOTE" using False plain by (cases a) auto
    moreover have "takeWhile (\<lambda>d. d \<noteq> CHR '' '') (a @ rest) = a"
      and "dropWhile (\<lambda>d. d \<noteq> CHR '' '') (a @ rest) = rest"
      using plain rest by (cases rest; simp)+
    ultimately show ?thesis using Cons q
      by (subst read_args.simps) (simp add: rest_def)
  qed
qed

lemma join_space: "join '' '' (x # map quote_arg as) = x @ concat (map (\<lambda>a. CHR '' '' # quote_arg a) as)"
  by (induction as arbitrary: x) simp_all

lemma command_value_no_space: "CHR '' '' \<notin> set (command_value n)"
  by (cases n) simp_all

text \<open>GDB reads back the token, the command and exactly the arguments that were given.\<close>

lemma read_line_args_serialize:
  assumes "\<And>n. tok = Some n \<Longrightarrow> length (nat_str n) \<le> 4300"
  shows "read_line_args (serialize c tok) = Some (tok, command_value (cmd_name c), cmd_args c)"
proof -
  define rest where "rest = concat (map (\<lambda>a. CHR '' '' # quote_arg a) (cmd_args c))"
  have line: "serialize c tok = print_token tok @ CHR ''-'' # command_value (cmd_name c) @ rest"
    by (simp add: serialize_def join_space rest_def)
  have "\<not> is_digit (CHR ''-'')" by (simp add: char_class_defs)
  then have tok: "parse_token (serialize c tok) = (Inr tok, CHR ''-'' # command_value (cmd_name c) @ rest)"
    unfolding line by (intro parse_token_print assms)
  have rest_hd: "rest = [] \<or> hd rest = CHR '' ''" by (cases "cmd_args c") (simp_all add: rest_def)
  have v: "\<forall>d \<in> set (command_value (cmd_name c)). d \<noteq> CHR '' ''"
    using command_value_no_space by metis
  have "takeWhile (\<lambda>d. d \<noteq> CHR '' '') (command_value (cmd_name c) @ rest) = command_value (cmd_name c)"
    and "dropWhile (\<lambda>d. d \<noteq> CHR '' '') (command_value (cmd_name c) @ rest) = rest"
    using v rest_hd by (cases rest; simp)+
  then show ?thesis using tok read_args_quoted [of "cmd_args c"]
    by (simp add: read_line_args_def rest_def)
qed

section \<open>Line feeds\<close>

lemma quote_char_set: "set (quote_char c) \<subseteq> {c, BSLASH}"
  by (simp add: quote_char_def)

lemma quote_arg_no_lf: "LF \<notin> set a \<Longrightarrow> LF \<notin> set (quote_arg a)"
proof (cases "needs_quotes a")
  case True
  assume "LF \<notin> set a"
  then have "LF \<notin> set (concat (map quote_char a))"
    using quote_char_set by (fastforce simp: subset_iff)
  then show ?thesis by (simp add: quote_arg_chars [OF True])
qed (simp add: quote_arg_def)

lemma token_no_lf: "LF \<notin> set (print_token tok)"
  using nat_str_digits [of LF] by (auto simp: print_token_def char_class_defs split: option.splits)

lemma command_value_no_lf: "LF \<notin> set (command_value n)"
  by (cases n) simp_all

lemma serialize_single_line:
  assumes "\<forall>a \<in> set (cmd_args c). LF \<notin> set a"
  shows "split_on LF (serialize c tok) = [serialize c tok]"
proof (rule split_on_none)
  have "LF \<notin> set (concat (map (\<lambda>a. CHR '' '' # quote_arg a) (cmd_args c)))"
    using assms quote_arg_no_lf by auto
  then show "LF \<notin> set (serialize c tok)"
    using token_no_lf command_value_no_lf by (simp add: serialize_def join_space)
qed

text \<open>
  Quoting keeps a line feed as it is, so an argument that holds one is more than one line to
  the reader: whatever stands between two line feeds is a line of its own.
\<close>

lemma quote_char_id: "set l \<inter> {DQUOTE, BSLASH} = {} \<Longrightarrow> concat (map quote_char l) = l"
  by (induction l) (auto simp: quote_char_def)

lemma quote_arg_lf:
  assumes "set l \<inter> {DQUOTE, BSLASH} = {}"
  shows "quote_arg (a @ LF # l @ LF # b) =
    (DQUOTE # concat (map quote_char a)) @ LF # l @ LF # concat (map quote_char b) @ [DQUOTE]"
proof -
  have "needs_quotes (a @ LF # l @ LF # b)"
    by (simp add: needs_quotes_def char_class_defs)
  moreover have "quote_char LF = [LF]" by (simp add: quote_char_def)
  ultimately show ?thesis using quote_char_id [OF assms] by (simp add: quote_arg_chars)
qed

lemma split_on_middle:
  assumes "LF \<notin> set l"
  shows "l \<in> set (split_on LF (p @ LF # l @ LF # q))"
proof -
  have "split_on LF (p @ LF # l @ LF # q) = split_on LF p @ split_on LF l @ split_on LF q"
    by (simp add: split_on_sep)
  then show ?thesis by (simp add: split_on_none [OF assms])
qed

lemma serialize_lf_argument:
  assumes "set l \<inter> {DQUOTE, BSLASH, LF} = {}" and "a @ LF # l @ LF # b \<in> set (cmd_args c)"
  shows "l \<in> set (split_on LF (serialize c tok))"
proof -
  obtain as bs where args: "cmd_args c = as @ (a @ LF # l @ LF # b) # bs"
    using assms(2) by (meson split_list)
  have q: "quote_arg (a @ LF # l @ LF # b) =
      (DQUOTE # concat (map quote_char a)) @ LF # l @ LF # concat (map quote_char b) @ [DQUOTE]"
    using assms(1) by (intro quote_arg_lf) auto
  obtain p r where "serialize c tok = p @ LF # l @ LF # r"
    unfolding serialize_def join_space args by (simp add: q) (metis append.assoc append_Cons)
  then show ?thesis using assms(1) split_on_middle [of l p r] by simp
qed

end
