(* ===== verification/Slot_Pool.thy ===== *)
theory Slot_Pool
  imports Py_Base
begin

text \<open>
  Counters of slots that many coroutines reserve and release under a lock: the MI controller
  counts its queued commands this way, and the tool service its active calls and the active
  operations of each session. \<open>pool_step\<close> is any interleaving of coroutines that enter by a
  reservation and leave by a release; \<open>H\<close> is the set of those inside.

  The contract is the locale \<open>slot_counter\<close>: the counter counts the coroutines of a set
  \<open>members\<close>; one of them enters only below the limit and counts one up, and counts one down when
  it leaves, where the counter stops at zero. The invariant is that the counter is the number of
  members inside, so that the limit holds for them and the clipping at zero never happens. In a
  \<open>slot_pool\<close> a member is refused only at the limit.
\<close>

inductive pool_step ::
  "(nat \<Rightarrow> 's \<Rightarrow> 's option) \<Rightarrow> (nat \<Rightarrow> 's \<Rightarrow> 's) \<Rightarrow> 's \<times> nat set \<Rightarrow> 's \<times> nat set \<Rightarrow> bool"
  for reserve :: "nat \<Rightarrow> 's \<Rightarrow> 's option" and release :: "nat \<Rightarrow> 's \<Rightarrow> 's" where
  enter: "i \<notin> H \<Longrightarrow> reserve i s = Some t \<Longrightarrow> pool_step reserve release (s, H) (t, insert i H)"
| refuse: "i \<notin> H \<Longrightarrow> reserve i s = None \<Longrightarrow> pool_step reserve release (s, H) (s, H)"
| leave: "i \<in> H \<Longrightarrow> pool_step reserve release (s, H) (release i s, H - {i})"

inductive pool_run ::
  "(nat \<Rightarrow> 's \<Rightarrow> 's option) \<Rightarrow> (nat \<Rightarrow> 's \<Rightarrow> 's) \<Rightarrow> 's \<times> nat set \<Rightarrow> 's \<times> nat set \<Rightarrow> bool"
  for reserve :: "nat \<Rightarrow> 's \<Rightarrow> 's option" and release :: "nat \<Rightarrow> 's \<Rightarrow> 's" where
  start: "pool_run reserve release x x"
| step: "pool_run reserve release x y \<Longrightarrow> pool_step reserve release y z \<Longrightarrow> pool_run reserve release x z"

locale slot_counter =
  fixes reserve :: "nat \<Rightarrow> 's \<Rightarrow> 's option"
    and release :: "nat \<Rightarrow> 's \<Rightarrow> 's"
    and used :: "'s \<Rightarrow> int"
    and limit :: "'s \<Rightarrow> int"
    and members :: "nat set"
  assumes reserve_member: "i \<in> members \<Longrightarrow> reserve i s = Some t \<Longrightarrow> used s < limit s \<and> used t = used s + 1"
    and reserve_other: "i \<notin> members \<Longrightarrow> reserve i s = Some t \<Longrightarrow> used t = used s"
    and reserve_limit: "reserve i s = Some t \<Longrightarrow> limit t = limit s"
    and release_member: "i \<in> members \<Longrightarrow> used (release i s) = max 0 (used s - 1)"
    and release_other: "i \<notin> members \<Longrightarrow> used (release i s) = used s"
    and release_limit: "limit (release i s) = limit s"
begin

definition counts :: "'s \<times> nat set \<Rightarrow> bool" where
  "counts x \<longleftrightarrow> finite (snd x) \<and> used (fst x) = int (card (snd x \<inter> members))
     \<and> int (card (snd x \<inter> members)) \<le> max 0 (limit (fst x))"

lemma pool_step_inv:
  assumes "pool_step reserve release (s, H) (t, K)" and "counts (s, H)"
  shows "counts (t, K) \<and> limit t = limit s"
  using assms(1)
proof cases
  case (enter i)
  then show ?thesis
    using assms(2) reserve_member [of i s t] reserve_other [of i s t] reserve_limit [of i s t]
    by (cases "i \<in> members") (auto simp: counts_def Int_insert_left)
next
  case (leave i)
  have fin: "finite (H \<inter> members)" using assms(2) by (simp add: counts_def)
  show ?thesis
  proof (cases "i \<in> members")
    case True
    then have "0 < card (H \<inter> members)" using leave fin card_gt_0_iff by blast
    moreover have "(H - {i}) \<inter> members = H \<inter> members - {i}" by blast
    moreover have "card (H \<inter> members - {i}) = card (H \<inter> members) - 1"
      using leave True fin by (intro card_Diff_singleton) simp
    ultimately show ?thesis
      using leave assms(2) release_member [OF True, of s] release_limit [of i s]
      by (simp add: counts_def)
  next
    case False
    then have "(H - {i}) \<inter> members = H \<inter> members" by blast
    then show ?thesis
      using leave assms(2) release_other [OF False, of s] release_limit [of i s] by (simp add: counts_def)
  qed
qed (use assms in simp)

lemma pool_run_inv:
  assumes "pool_run reserve release x y" and "counts x"
  shows "counts y \<and> limit (fst y) = limit (fst x)"
  using assms
proof (induction rule: pool_run.induct)
  case (step x y z)
  then show ?case using pool_step_inv [of "fst y" "snd y" "fst z" "snd z"] by simp
qed simp

text \<open>From an empty pool, never more members inside than the limit, and none is forgotten.\<close>

lemma pool_bound:
  assumes "pool_run reserve release (s, {}) (t, K)" and "used s = 0"
  shows "used t = int (card (K \<inter> members)) \<and> int (card (K \<inter> members)) \<le> max 0 (limit s)"
  using pool_run_inv [OF assms(1)] assms(2) by (auto simp: counts_def)

lemma release_reserve:
  "i \<in> members \<Longrightarrow> reserve i s = Some t \<Longrightarrow> 0 \<le> used s \<Longrightarrow> used (release i t) = used s"
  using reserve_member [of i s t] by (simp add: release_member)

end

locale slot_pool = slot_counter +
  assumes reserve_None: "i \<in> members \<Longrightarrow> reserve i s = None \<Longrightarrow> limit s \<le> used s"
begin

lemma reserve_enough: "i \<in> members \<Longrightarrow> used s < limit s \<Longrightarrow> \<exists>t. reserve i s = Some t"
  using reserve_None [of i s] by (cases "reserve i s") auto

text \<open>A member that is refused finds the pool full of others.\<close>

lemma refused_full:
  assumes "pool_run reserve release (s, {}) (t, K)" and "used s = 0" and "i \<in> members"
    and "reserve i t = None"
  shows "int (card (K \<inter> members)) = max 0 (limit s)"
  using pool_bound [OF assms(1,2)] reserve_None [OF assms(3,4)] pool_run_inv [OF assms(1)] assms(2)
  by (auto simp: counts_def)

end

end
