(* ===== verification/MI_Controller.thy ===== *)
theory MI_Controller
  imports MI_Commands Slot_Pool
begin

text \<open>
  The MI controller (\<open>mi/controller.py\<close>): the transport to the GDB process, command execution
  with token correlation and timeouts, and the bounded command queue.

  The environment is the transport's script: \<open>inbox\<close> holds what the reads will see, in order
  (a line, the expiry of the timeout that is running, or the end of the stream, which stays),
  \<open>write_faults\<close> what the next writes will do (\<open>None\<close> succeeds, as does an empty list);
  theorems quantify over both. An empty inbox is silence, so a read runs into its timeout.
  \<open>outbox\<close> is what was written, nothing at first (\<open>new_transport\<close>). UTF-8 decoding and the stream's line length limit are not
  modelled.
\<close>

section \<open>The transport\<close>

datatype read_event = Line string | Expire | Eof

record transport =
  inbox :: "read_event list"
  write_faults :: "string option list"
  outbox :: "string list"
  closed :: bool

text \<open>
  \<open>SubprocessMITransport.__init__\<close>: the transport of a process that was just spawned, to which nothing
  was written yet. Of the process the environment gives what it will print and which writes fail.
\<close>

record gdb_io =
  io_reads :: "read_event list"
  io_faults :: "string option list"

definition new_transport :: "gdb_io \<Rightarrow> transport" where
  "new_transport p = \<lparr>inbox = io_reads p, write_faults = io_faults p, outbox = [], closed = False\<rparr>"

definition write_line :: "string \<Rightarrow> (transport, unit) prog" where
  "write_line line tr =
     (case write_faults tr of
        Some msg # fs \<Rightarrow> (Inl (Exc OSError msg), tr\<lparr>write_faults := fs\<rparr>)
      | fs \<Rightarrow> (Inr (), tr\<lparr>write_faults := tl fs, outbox := outbox tr @ [line]\<rparr>))"

text \<open>One read under \<open>asyncio.timeout\<close>.\<close>

definition read_line :: "(transport, string) prog" where
  "read_line tr =
     (case inbox tr of
        [] \<Rightarrow> (Inl (Exc TimeoutError []), tr)
      | Expire # es \<Rightarrow> (Inl (Exc TimeoutError []), tr\<lparr>inbox := es\<rparr>)
      | Eof # es \<Rightarrow> (Inl (Exc MIControllerError ''GDB process closed stdout''), tr)
      | Line l # es \<Rightarrow> (Inr (rstrip_chars is_eol l), tr\<lparr>inbox := es\<rparr>))"

definition close_transport :: "(transport, unit) prog" where
  "close_transport = modify (\<lambda>tr. tr\<lparr>closed := True\<rparr>)"

text \<open>The bytes on GDB's standard input: each line with a line feed.\<close>

definition wire :: "transport \<Rightarrow> string" where
  "wire tr = concat (map (\<lambda>l. l @ [LF]) (outbox tr))"

text \<open>The command line of the spawned GDB: MI mode, without the user's init files.\<close>

definition gdb_args :: "string \<Rightarrow> string option \<Rightarrow> string list" where
  "gdb_args gdb_path elf_path =
     [gdb_path, ''--interpreter=mi2'', ''--nx'', ''--nh'', ''-q'']
     @ (case elf_path of None \<Rightarrow> [] | Some p \<Rightarrow> [p])"

section \<open>The controller\<close>

record mi_command_result =
  result_record :: mi_record
  async_records :: "mi_record list"
  stream_records :: "mi_stream_record list"

record controller =
  transport_of :: transport
  next_token :: nat
  max_queued_commands :: int
  queued_commands :: int

definition new_controller :: "transport \<Rightarrow> controller" where
  "new_controller tr =
     \<lparr>transport_of = tr, next_token = 1, max_queued_commands = 32, queued_commands = 0\<rparr>"

definition on_transport :: "(transport, 'a) prog \<Rightarrow> (controller, 'a) prog" where
  "on_transport = zoom transport_of (\<lambda>tr c. c\<lparr>transport_of := tr\<rparr>)"

definition allocate_token :: "(controller, nat) prog" where
  "allocate_token c = (Inr (next_token c), c\<lparr>next_token := next_token c + 1\<rparr>)"

definition try_reserve :: "controller \<Rightarrow> controller option" where
  "try_reserve c =
     (if max_queued_commands c \<le> queued_commands c then None
      else Some (c\<lparr>queued_commands := queued_commands c + 1\<rparr>))"

definition reserve_queue_slot :: "mi_command \<Rightarrow> (controller, unit) prog" where
  "reserve_queue_slot cmd c =
     (case try_reserve c of
        None \<Rightarrow> (Inl (Exc MIControllerError
           (''MI command queue limit reached ('' @ int_str (max_queued_commands c) @
            '') before '' @ command_value (cmd_name cmd))), c)
      | Some c' \<Rightarrow> (Inr (), c'))"

definition release_slot :: "controller \<Rightarrow> controller" where
  "release_slot c = c\<lparr>queued_commands := max 0 (queued_commands c - 1)\<rparr>"

definition release_queue_slot :: "(controller, unit) prog" where
  "release_queue_slot = modify release_slot"

text \<open>\<open>str(value)\<close> of an MI value: a string itself, a container its \<open>repr\<close>.\<close>

definition repr_entry :: "string \<times> string \<Rightarrow> string" where
  "repr_entry kv = py_repr (fst kv) @ '': '' @ snd kv"

primrec mi_repr :: "mi_value \<Rightarrow> string" where
  "mi_repr (MIStr s) = py_repr s"
| "mi_repr (MIList vs) = ''['' @ join '', '' (map mi_repr vs) @ '']''"
| "mi_repr (MIDict kvs) = ''{'' @ join '', '' (map repr_entry (map (map_prod id mi_repr) kvs)) @ ''}''"

definition mi_text :: "mi_value \<Rightarrow> string" where
  "mi_text v = (case v of MIStr s \<Rightarrow> s | _ \<Rightarrow> mi_repr v)"

definition mi_command_error :: "mi_record \<Rightarrow> py_exc" where
  "mi_command_error r =
     Exc MICommandError (case dict_get (results r) ''msg'' of None \<Rightarrow> raw r | Some v \<Rightarrow> mi_text v)"

text \<open>\<open>parse_mi_record\<close> with the impossible case named (\<open>parse_mi_total\<close>).\<close>

definition parse_mi :: "string \<Rightarrow> mi_line res" where
  "parse_mi line =
     (case parse_mi_record line of Some r \<Rightarrow> r | None \<Rightarrow> Inl (Exc MIParseError ''out of fuel''))"

text \<open>What the loop does with one parsed line.\<close>

datatype verdict = Keep_async mi_record | Keep_stream mi_stream_record | Answer mi_record | Broken py_exc

definition judge :: "nat \<Rightarrow> string \<Rightarrow> verdict" where
  "judge tok line =
     (case parse_mi line of
        Inl e \<Rightarrow> Broken (if exc_of e = MIParseError then Exc MIControllerError (exc_msg e) else e)
      | Inr (Stream r) \<Rightarrow> Keep_stream r
      | Inr (Record r) \<Rightarrow>
          if rec_kind r \<noteq> RESULT then Keep_async r
          else if token r \<noteq> Some tok then Keep_async r
          else Answer r)"

definition finish :: "mi_record \<Rightarrow> mi_record list \<Rightarrow> mi_stream_record list \<Rightarrow> mi_command_result res" where
  "finish r asyncs streams =
     (if record_class r = ''error'' then Inl (mi_command_error r)
      else Inr \<lparr>result_record = r, async_records = asyncs, stream_records = streams\<rparr>)"

text \<open>\<open>_read_until_result\<close>, as a recursion over the script of reads.\<close>

fun read_events ::
  "nat \<Rightarrow> mi_record list \<Rightarrow> mi_stream_record list \<Rightarrow> read_event list
   \<Rightarrow> mi_command_result res \<times> read_event list" where
  "read_events tok asyncs streams [] = (Inl (Exc TimeoutError []), [])"
| "read_events tok asyncs streams (Expire # es) = (Inl (Exc TimeoutError []), es)"
| "read_events tok asyncs streams (Eof # es) =
     (Inl (Exc MIControllerError ''GDB process closed stdout''), Eof # es)"
| "read_events tok asyncs streams (Line l # es) =
     (case judge tok (rstrip_chars is_eol l) of
        Broken e \<Rightarrow> (Inl e, es)
      | Keep_stream r \<Rightarrow> read_events tok asyncs (streams @ [r]) es
      | Keep_async r \<Rightarrow> read_events tok (asyncs @ [r]) streams es
      | Answer r \<Rightarrow> (finish r asyncs streams, es))"

definition read_until_result :: "nat \<Rightarrow> (transport, mi_command_result) prog" where
  "read_until_result tok tr =
     (case read_events tok [] [] (inbox tr) of (r, es) \<Rightarrow> (r, tr\<lparr>inbox := es\<rparr>))"

definition is_timeout :: "py_exc \<Rightarrow> bool" where
  "is_timeout e \<longleftrightarrow> exc_of e = TimeoutError \<or> exc_of e = MITimeoutError"

definition execute :: "mi_command \<Rightarrow> int \<Rightarrow> (controller, mi_command_result) prog" where
  "execute cmd timeout_ms =
     andthen (reserve_queue_slot cmd) (\<lambda>_.
       finally_do
         (andthen allocate_token (\<lambda>tok.
            andthen (on_transport (write_line (serialize cmd (Some tok)))) (\<lambda>_.
              catch (on_transport (read_until_result tok))
                (\<lambda>e. throw (if is_timeout e
                   then Exc MITimeoutError (''MI command '' @ command_value (cmd_name cmd) @
                          '' timed out after '' @ int_str timeout_ms @ '' ms'')
                   else e)))))
         release_queue_slot)"

definition close_controller :: "(controller, unit) prog" where
  "close_controller = on_transport close_transport"

section \<open>The read loop\<close>

lemma parse_mi_total: "parse_mi_record line = Some (parse_mi line)"
  using parse_mi_record_total [of line] by (auto simp: parse_mi_def)

text \<open>The loop is the reads of \<open>read_line\<close> one after the other.\<close>

lemma read_until_result_step:
  "read_until_result tok tr = andthen read_line (\<lambda>l.
     case judge tok l of
       Broken e \<Rightarrow> throw e
     | Keep_stream r \<Rightarrow> (\<lambda>t. case read_events tok [] [r] (inbox t) of (x, es) \<Rightarrow> (x, t\<lparr>inbox := es\<rparr>))
     | Keep_async r \<Rightarrow> (\<lambda>t. case read_events tok [r] [] (inbox t) of (x, es) \<Rightarrow> (x, t\<lparr>inbox := es\<rparr>))
     | Answer r \<Rightarrow> lift_res (finish r [] [])) tr"
proof (cases "inbox tr")
  case (Cons e es)
  then show ?thesis
    by (cases e) (auto simp: read_until_result_def read_line_def andthen_def
        split: verdict.splits prod.splits)
qed (simp add: read_until_result_def read_line_def andthen_def)

lemma read_events_result:
  assumes "read_events tok as ss evs = (Inr res, es)"
  shows "rec_kind (result_record res) = RESULT \<and> token (result_record res) = Some tok
    \<and> record_class (result_record res) \<noteq> ''error''"
  using assms
  by (induction tok as ss evs rule: read_events.induct)
    (auto simp: judge_def finish_def split: sum.splits mi_line.splits if_splits)

lemma read_events_suffix: "\<exists>us. evs = us @ snd (read_events tok as ss evs)"
proof (induction tok as ss evs rule: read_events.induct)
  case (4 tok as ss l es)
  show ?case
  proof (cases "judge tok (rstrip_chars is_eol l)")
    case (Keep_async r)
    then obtain us where "es = us @ snd (read_events tok (as @ [r]) ss es)" using 4(1) by blast
    with Keep_async show ?thesis by (intro exI [of _ "Line l # us"]) simp
  next
    case (Keep_stream r)
    then obtain us where "es = us @ snd (read_events tok as (ss @ [r]) es)" using 4(2) by blast
    with Keep_stream show ?thesis by (intro exI [of _ "Line l # us"]) simp
  qed simp_all
qed simp_all

text \<open>
  Lines that are not the answer are kept in order: asynchronous records and results of other
  commands in one list, stream records in the other.
\<close>

primrec kept_async :: "verdict \<Rightarrow> mi_record list" where
  "kept_async (Keep_async r) = [r]"
| "kept_async (Keep_stream r) = []"
| "kept_async (Answer r) = []"
| "kept_async (Broken e) = []"

primrec kept_stream :: "verdict \<Rightarrow> mi_stream_record list" where
  "kept_stream (Keep_stream r) = [r]"
| "kept_stream (Keep_async r) = []"
| "kept_stream (Answer r) = []"
| "kept_stream (Broken e) = []"

definition passes :: "nat \<Rightarrow> string \<Rightarrow> bool" where
  "passes tok l \<longleftrightarrow> (case judge tok (rstrip_chars is_eol l) of
     Keep_async r \<Rightarrow> True | Keep_stream r \<Rightarrow> True | _ \<Rightarrow> False)"

lemma read_events_passes:
  assumes "\<forall>l \<in> set ls. passes tok l"
  shows "read_events tok as ss (map Line ls @ es) =
    read_events tok
      (as @ concat (map (\<lambda>l. kept_async (judge tok (rstrip_chars is_eol l))) ls))
      (ss @ concat (map (\<lambda>l. kept_stream (judge tok (rstrip_chars is_eol l))) ls)) es"
  using assms
proof (induction ls arbitrary: as ss)
  case (Cons l ls)
  then show ?case by (cases "judge tok (rstrip_chars is_eol l)") (auto simp: passes_def)
qed simp

section \<open>The command queue and the tokens\<close>

interpretation cmd_queue:
  slot_pool "\<lambda>_. try_reserve" "\<lambda>_. release_slot" queued_commands max_queued_commands UNIV
  by unfold_locales (auto simp: try_reserve_def release_slot_def split: if_splits)

definition body :: "mi_command \<Rightarrow> int \<Rightarrow> (controller, mi_command_result) prog" where
  "body cmd timeout_ms =
     andthen allocate_token (\<lambda>tok.
       andthen (on_transport (write_line (serialize cmd (Some tok)))) (\<lambda>_.
         catch (on_transport (read_until_result tok))
           (\<lambda>e. throw (if is_timeout e
              then Exc MITimeoutError (''MI command '' @ command_value (cmd_name cmd) @
                     '' timed out after '' @ int_str timeout_ms @ '' ms'')
              else e))))"

lemma execute_body:
  "execute cmd t = andthen (reserve_queue_slot cmd) (\<lambda>_. finally_do (body cmd t) release_queue_slot)"
  by (simp add: execute_def body_def)

lemma on_transport_frame:
  "on_transport m c = (r, d) \<Longrightarrow> next_token d = next_token c \<and> queued_commands d = queued_commands c
     \<and> max_queued_commands d = max_queued_commands c"
  by (auto simp: on_transport_def zoom_def split: prod.splits)

lemma write_line_outbox:
  "write_line l tr = (r, tr') \<Longrightarrow> outbox tr' = (case r of Inl e \<Rightarrow> outbox tr | Inr _ \<Rightarrow> outbox tr @ [l])
     \<and> inbox tr' = inbox tr \<and> closed tr' = closed tr"
  by (auto simp: write_line_def split: list.splits option.splits)

lemma read_until_result_outbox:
  "read_until_result tok tr = (r, tr') \<Longrightarrow> outbox tr' = outbox tr \<and> closed tr' = closed tr"
  by (auto simp: read_until_result_def split: prod.splits)

text \<open>The written lines and the result of the part of \<open>execute\<close> under the lock.\<close>

lemma body_cases:
  assumes "body cmd t c = (r, d)"
  shows "next_token d = Suc (next_token c) \<and> queued_commands d = queued_commands c
    \<and> max_queued_commands d = max_queued_commands c
    \<and> closed (transport_of d) = closed (transport_of c)
    \<and> (outbox (transport_of d) = outbox (transport_of c) @ [serialize cmd (Some (next_token c))]
       \<or> (outbox (transport_of d) = outbox (transport_of c) \<and> (\<exists>m. r = Inl (Exc OSError m))))"
proof -
  obtain w tr1 where w: "write_line (serialize cmd (Some (next_token c))) (transport_of c) = (w, tr1)"
    by fastforce
  obtain x tr2 where x: "read_until_result (next_token c) tr1 = (x, tr2)" by fastforce
  have o1: "outbox tr1 = (case w of Inl e \<Rightarrow> outbox (transport_of c)
      | Inr _ \<Rightarrow> outbox (transport_of c) @ [serialize cmd (Some (next_token c))])"
    and c1: "closed tr1 = closed (transport_of c)"
    using write_line_outbox [OF w] by simp_all
  have o2: "outbox tr2 = outbox tr1" and c2: "closed tr2 = closed tr1"
    using read_until_result_outbox [OF x] by simp_all
  have fault: "\<exists>m. e = Exc OSError m" if "w = Inl e" for e
    using w that by (auto simp: write_line_def split: list.splits option.splits)
  show ?thesis
  proof (cases w)
    case (Inl e)
    then show ?thesis using assms w o1 c1 fault
      by (auto simp: body_def andthen_def allocate_token_def on_transport_def zoom_def)
  next
    case (Inr u)
    then show ?thesis using assms w x o1 c1 o2 c2
      by (cases x) (auto simp: body_def andthen_def catch_def allocate_token_def on_transport_def zoom_def)
  qed
qed

text \<open>
  \<open>execute\<close> in two cases: the queue is full and nothing happens, or the command runs and the
  slot is given back whatever the outcome.
\<close>

lemma execute_full:
  assumes "max_queued_commands c \<le> queued_commands c"
  shows "\<exists>m. execute cmd t c = (Inl (Exc MIControllerError m), c)"
  using assms by (simp add: execute_body reserve_queue_slot_def try_reserve_def andthen_def)

lemma execute_runs:
  assumes "queued_commands c < max_queued_commands c" and "0 \<le> queued_commands c"
    and "body cmd t (c\<lparr>queued_commands := queued_commands c + 1\<rparr>) = (r, d)"
  shows "execute cmd t c = (r, d\<lparr>queued_commands := queued_commands c\<rparr>)"
proof -
  have "queued_commands d = queued_commands c + 1"
    using body_cases [OF assms(3)] by simp
  then have "release_slot d = d\<lparr>queued_commands := queued_commands c\<rparr>"
    using assms(2) by (simp add: release_slot_def)
  then show ?thesis
    using assms by (simp add: execute_body reserve_queue_slot_def try_reserve_def andthen_def
        finally_do_def release_queue_slot_def)
qed

definition controller_ok :: "controller \<Rightarrow> bool" where
  "controller_ok c \<longleftrightarrow> 0 \<le> queued_commands c \<and> 1 \<le> next_token c"

lemma new_controller_ok: "controller_ok (new_controller tr)"
  by (simp add: controller_ok_def new_controller_def)

text \<open>What every execution leaves: the queue as it was, and at most one more line.\<close>

lemma execute_effect:
  assumes "execute cmd t c = (r, d)" and "0 \<le> queued_commands c"
  shows "queued_commands d = queued_commands c \<and> max_queued_commands d = max_queued_commands c
    \<and> closed (transport_of d) = closed (transport_of c) \<and> next_token c \<le> next_token d
    \<and> (outbox (transport_of d) = outbox (transport_of c)
       \<or> outbox (transport_of d) = outbox (transport_of c) @ [serialize cmd (Some (next_token c))])"
proof (cases "queued_commands c < max_queued_commands c")
  case True
  let ?c = "c\<lparr>queued_commands := queued_commands c + 1\<rparr>"
  obtain x e where b: "body cmd t ?c = (x, e)" by fastforce
  then have "(r, d) = (x, e\<lparr>queued_commands := queued_commands c\<rparr>)"
    using execute_runs [OF True assms(2) b] assms(1) by simp
  then show ?thesis using body_cases [OF b] by auto
next
  case False
  then show ?thesis using execute_full [of c cmd t] assms(1) by auto
qed

lemma keeps_controller_ok [keeps_intros]: "keeps controller_ok (execute cmd t)"
proof (rule keepsI)
  fix c assume "controller_ok c"
  moreover obtain r d where "execute cmd t c = (r, d)" by fastforce
  ultimately show "controller_ok (snd (execute cmd t c))"
    using execute_effect [of cmd t c r d] by (simp add: controller_ok_def)
qed

lemma close_controller_effect:
  "close_controller c = (Inr (), c\<lparr>transport_of := (transport_of c)\<lparr>closed := True\<rparr>\<rparr>)"
  by (simp add: close_controller_def on_transport_def zoom_def close_transport_def)

lemma keeps_controller_ok_close [keeps_intros]: "keeps controller_ok close_controller"
  by (rule keepsI) (simp add: close_controller_effect controller_ok_def)

text \<open>A successful execution, in full.\<close>

lemma execute_success:
  assumes "execute cmd t c = (Inr res, d)" and "0 \<le> queued_commands c"
  shows "outbox (transport_of d) = outbox (transport_of c) @ [serialize cmd (Some (next_token c))]
    \<and> next_token d = Suc (next_token c)
    \<and> rec_kind (result_record res) = RESULT \<and> token (result_record res) = Some (next_token c)
    \<and> record_class (result_record res) \<noteq> ''error''"
proof -
  have lt: "queued_commands c < max_queued_commands c"
    using execute_full [of c cmd t] assms(1) by fastforce
  let ?c = "c\<lparr>queued_commands := queued_commands c + 1\<rparr>"
  obtain x e where b: "body cmd t ?c = (x, e)" by fastforce
  have xe: "x = Inr res" "d = e\<lparr>queued_commands := queued_commands c\<rparr>"
    using execute_runs [OF lt assms(2) b] assms(1) by simp_all
  obtain tr tr' where r: "read_until_result (next_token c) tr = (Inr res, tr')"
    using b xe(1)
    by (auto simp: body_def andthen_def catch_def allocate_token_def on_transport_def zoom_def
        split: prod.splits sum.splits)
  then have "rec_kind (result_record res) = RESULT \<and> token (result_record res) = Some (next_token c)
      \<and> record_class (result_record res) \<noteq> ''error''"
    by (auto simp: read_until_result_def split: prod.splits dest: read_events_result)
  then show ?thesis using body_cases [OF b] xe by simp
qed

section \<open>What a controller may write\<close>

text \<open>
  \<open>extends P c d\<close>: from \<open>c\<close> to \<open>d\<close> the controller has only appended lines, each the
  serialization of a command that satisfies \<open>P\<close>, under tokens that are new and increasing.
  It is a preorder, so every program built from \<open>execute\<close> satisfies it.
\<close>

definition sent :: "nat \<times> mi_command \<Rightarrow> string" where
  "sent tc = serialize (snd tc) (Some (fst tc))"

definition extends :: "(mi_command \<Rightarrow> bool) \<Rightarrow> controller \<Rightarrow> controller \<Rightarrow> bool" where
  "extends P c d \<longleftrightarrow>
     next_token c \<le> next_token d \<and>
     (\<exists>tcs. outbox (transport_of d) = outbox (transport_of c) @ map sent tcs
        \<and> sorted_wrt (<) (map fst tcs)
        \<and> (\<forall>tc \<in> set tcs. next_token c \<le> fst tc \<and> fst tc < next_token d \<and> P (snd tc)))"

lemma extends_same:
  "next_token d = next_token c \<Longrightarrow> outbox (transport_of d) = outbox (transport_of c) \<Longrightarrow> extends P c d"
  by (simp add: extends_def)

lemma extends_one:
  assumes "next_token d = Suc (next_token c)" and "P cmd"
    and "outbox (transport_of d) = outbox (transport_of c) @ [serialize cmd (Some (next_token c))]"
  shows "extends P c d"
  unfolding extends_def using assms
  by (auto simp: sent_def intro!: exI [of _ "[(next_token c, cmd)]"])

lemma extends_trans:
  assumes "extends P c d" and "extends P d e"
  shows "extends P c e"
proof -
  obtain xs ys where
    xs: "outbox (transport_of d) = outbox (transport_of c) @ map sent xs" "sorted_wrt (<) (map fst xs)"
      "\<forall>tc \<in> set xs. next_token c \<le> fst tc \<and> fst tc < next_token d \<and> P (snd tc)" and
    ys: "outbox (transport_of e) = outbox (transport_of d) @ map sent ys" "sorted_wrt (<) (map fst ys)"
      "\<forall>tc \<in> set ys. next_token d \<le> fst tc \<and> fst tc < next_token e \<and> P (snd tc)"
    using assms by (auto simp: extends_def)
  have le: "next_token c \<le> next_token d" "next_token d \<le> next_token e"
    using assms by (auto simp: extends_def)
  have "sorted_wrt (<) (map fst (xs @ ys))"
    using xs(2,3) ys(2,3) by (fastforce simp: sorted_wrt_append)
  moreover have "\<forall>tc \<in> set (xs @ ys). next_token c \<le> fst tc \<and> fst tc < next_token e \<and> P (snd tc)"
    using xs(3) ys(3) le by fastforce
  moreover have "outbox (transport_of e) = outbox (transport_of c) @ map sent (xs @ ys)"
    using xs(1) ys(1) by simp
  ultimately show ?thesis unfolding extends_def using le by (intro conjI exI [of _ "xs @ ys"]) simp_all
qed

lemma extends_mono: "extends P c d \<Longrightarrow> (\<And>cmd. P cmd \<Longrightarrow> Q cmd) \<Longrightarrow> extends Q c d"
  unfolding extends_def by blast

interpretation written: effect_order "extends P" for P
  by unfold_locales (simp add: extends_same, rule extends_trans)

lemma ensures_body: "P cmd \<Longrightarrow> ensures (extends P) (body cmd t)"
proof (rule ensuresI)
  fix c assume P: "P cmd"
  obtain r d where b: "body cmd t c = (r, d)" by fastforce
  then show "extends P c (snd (body cmd t c))"
    using body_cases [OF b] P extends_one [of d c P cmd]
    by (auto simp: extends_def)
qed

lemma ensures_reserve: "ensures (extends P) (reserve_queue_slot cmd)"
  by (rule ensuresI)
    (auto simp: reserve_queue_slot_def try_reserve_def intro: extends_same)

lemma ensures_release: "ensures (extends P) release_queue_slot"
  by (rule ensuresI) (auto simp: release_queue_slot_def release_slot_def intro: extends_same)

lemma ensures_execute: "P cmd \<Longrightarrow> ensures (extends P) (execute cmd t)"
  unfolding execute_body
  by (intro written.ensures_andthen written.ensures_finally ensures_reserve ensures_body ensures_release)

lemma ensures_close: "ensures (extends P) close_controller"
  by (rule ensuresI) (simp add: close_controller_effect extends_same)

text \<open>
  Two lines written at different times never carry the same token, so an answer determines
  the line it answers.
\<close>

lemma extends_distinct:
  assumes "extends P c d"
  obtains tcs where "outbox (transport_of d) = outbox (transport_of c) @ map sent tcs"
    and "distinct (map fst tcs)" and "\<forall>tc \<in> set tcs. P (snd tc)"
  using assms by (auto simp: extends_def strict_sorted_iff)

section \<open>Stale and foreign answers\<close>

text \<open>
  The lines of a late answer to an earlier command, and of anything asynchronous, pass: the
  next command is not answered by them.
\<close>

lemma passes_printed:
  assumes "record_marker k = Some m" and "is_identifier cls" and "wf_results res"
    and "\<And>n. t = Some n \<Longrightarrow> length (nat_str n) \<le> 4300" and "list_all is_eol eol"
    and "k \<noteq> RESULT \<or> t \<noteq> Some tok"
  shows "judge tok (rstrip_chars is_eol (print_mi_record t m cls res @ eol)) =
    Keep_async \<lparr>rec_kind = k, record_class = cls, results = res,
      raw = print_mi_record t m cls res, token = t\<rparr>"
proof -
  have "rstrip_chars is_eol (print_mi_record t m cls res @ eol) = print_mi_record t m cls res"
    using print_record_last [OF assms(2)] by (simp add: rstrip_append [OF assms(5)] rstrip_none)
  then show ?thesis
    using parse_mi_record_print [OF assms(1-4), where eol = "[]"] assms(6)
    by (auto simp: judge_def parse_mi_def)
qed

lemma judge_answer:
  assumes "is_identifier cls" and "wf_results res"
    and "length (nat_str tok) \<le> 4300" and "list_all is_eol eol"
  shows "judge tok (rstrip_chars is_eol (print_mi_record (Some tok) (CHR ''^'') cls res @ eol)) =
    Answer \<lparr>rec_kind = RESULT, record_class = cls, results = res,
      raw = print_mi_record (Some tok) (CHR ''^'') cls res, token = Some tok\<rparr>"
proof -
  have m: "record_marker RESULT = Some (CHR ''^'')" by (simp add: record_marker_def)
  have "rstrip_chars is_eol (print_mi_record (Some tok) (CHR ''^'') cls res @ eol)
      = print_mi_record (Some tok) (CHR ''^'') cls res"
    using print_record_last [OF assms(1)] by (simp add: rstrip_append [OF assms(4)] rstrip_none)
  then show ?thesis
    using parse_mi_record_print [OF m assms(1,2), where t = "Some tok" and eol = "[]"] assms(3)
    by (simp add: judge_def parse_mi_def)
qed

text \<open>
  The whole exchange: a command is written, any number of lines that are not its answer come
  first, then GDB prints the answer. \<open>execute\<close> returns exactly what GDB sent.
\<close>

lemma execute_answered:
  assumes "queued_commands c < max_queued_commands c" and "0 \<le> queued_commands c"
    and "write_faults (transport_of c) = []"
    and "inbox (transport_of c) =
      map Line ls @ Line (print_mi_record (Some (next_token c)) (CHR ''^'') cls res @ eol) # es"
    and "\<forall>l \<in> set ls. passes (next_token c) l"
    and "is_identifier cls" and "cls \<noteq> ''error''" and "wf_results res"
    and "length (nat_str (next_token c)) \<le> 4300" and "list_all is_eol eol"
  shows "\<exists>d as ss raw. execute cmd t c = (Inr \<lparr>result_record = \<lparr>rec_kind = RESULT, record_class = cls,
      results = res, raw = raw, token = Some (next_token c)\<rparr>, async_records = as,
      stream_records = ss\<rparr>, d)
    \<and> inbox (transport_of d) = es
    \<and> outbox (transport_of d) = outbox (transport_of c) @ [serialize cmd (Some (next_token c))]"
proof -
  let ?a = "Line (print_mi_record (Some (next_token c)) (CHR ''^'') cls res @ eol) # es"
  have r: "read_events (next_token c) [] [] (map Line ls @ ?a) =
      read_events (next_token c)
        (concat (map (\<lambda>l. kept_async (judge (next_token c) (rstrip_chars is_eol l))) ls))
        (concat (map (\<lambda>l. kept_stream (judge (next_token c) (rstrip_chars is_eol l))) ls)) ?a"
    using read_events_passes [OF assms(5), of "[]" "[]"] by simp
  show ?thesis
    unfolding execute_def
    using assms(1-4,7) r judge_answer [OF assms(6,8,9,10)]
    by (simp add: prog_defs reserve_queue_slot_def try_reserve_def allocate_token_def on_transport_def
        write_line_def read_until_result_def finish_def release_queue_slot_def
        release_slot_def)
qed

end
