(* ===== verification/Targets.thy ===== *)
theory Targets
  imports Schemas
begin

text \<open>
  Target profiles (\<open>targets.py\<close>): the register names of Cortex-M and the architecture of a
  backend and profile. \<open>normalize_registers\<close> lower-cases the names GDB reported and adds the
  canonical aliases; the lemmas say what a normalized table holds under each name, that it never
  loses or changes a reported register, and that normalizing twice is normalizing once.
\<close>

definition register_aliases :: "(string \<times> string) list" where
  "register_aliases =
     [(''0'', ''r0''), (''1'', ''r1''), (''2'', ''r2''), (''3'', ''r3''), (''4'', ''r4''),
      (''5'', ''r5''), (''6'', ''r6''), (''7'', ''r7''), (''8'', ''r8''), (''9'', ''r9''),
      (''10'', ''r10''), (''11'', ''r11''), (''12'', ''r12''), (''13'', ''sp''), (''14'', ''lr''),
      (''15'', ''pc''), (''16'', ''xpsr''), (''17'', ''msp''), (''18'', ''psp''), (''25'', ''xpsr'')]"

text \<open>The loop over the alias table, as a recursion on it.\<close>

fun add_aliases :: "(string \<times> string) list \<Rightarrow> string dict \<Rightarrow> string dict" where
  "add_aliases [] regs = regs"
| "add_aliases ((source, target) # as) regs =
     add_aliases as
       (case dict_get regs source of
          None \<Rightarrow> regs
        | Some v \<Rightarrow> if dict_get regs target = None then dict_set target v regs else regs)"

definition normalize_registers :: "string dict \<Rightarrow> string \<Rightarrow> string dict" where
  "normalize_registers registers profile =
     (let normalized = dict_of (map (\<lambda>(k, v). (lower k, v)) registers)
      in if profile = ''cortex-m'' then add_aliases register_aliases normalized else normalized)"

definition infer_architecture :: "backend_kind \<Rightarrow> string \<Rightarrow> string option" where
  "infer_architecture kind profile =
     (if profile = ''cortex-m'' then Some ''arm''
      else if startswith profile ''riscv'' then Some ''riscv''
      else if startswith profile ''xtensa'' then Some ''xtensa''
      else if kind = QEMU then Some ''unknown-emulated''
      else None)"

section \<open>The aliases\<close>

lemma dict_ok_aliases: "dict_ok regs \<Longrightarrow> dict_ok (add_aliases as regs)"
  by (induction as regs rule: add_aliases.induct) (simp_all split: option.split)

lemma dict_ok_normalize [simp]: "dict_ok (normalize_registers regs profile)"
  by (simp add: normalize_registers_def Let_def dict_ok_aliases)

text \<open>What is there stays, with its value.\<close>

lemma add_aliases_keeps: "dict_get regs k = Some v \<Longrightarrow> dict_get (add_aliases as regs) k = Some v"
proof (induction as regs rule: add_aliases.induct)
  case (2 source target as regs)
  then show ?case by (cases "dict_get regs source"; cases "k = target") simp_all
qed simp

text \<open>
  When no alias is the source of another (\<open>flat\<close>), a missing name gets the value of the first
  source that is present.
\<close>

definition first_source :: "(string \<times> string) list \<Rightarrow> string dict \<Rightarrow> string \<Rightarrow> string option" where
  "first_source as regs k =
     map_option (\<lambda>st. the (dict_get regs (fst st)))
       (List.find (\<lambda>st. snd st = k \<and> dict_get regs (fst st) \<noteq> None) as)"

lemma first_source_None:
  "first_source as regs k = None \<longleftrightarrow> (\<forall>st \<in> set as. snd st = k \<longrightarrow> dict_get regs (fst st) = None)"
  by (auto simp: first_source_def find_None_iff)

lemma first_source_Some:
  assumes "first_source as regs k = Some v"
  obtains source where "(source, k) \<in> set as" and "dict_get regs source = Some v"
proof -
  obtain st where "List.find (\<lambda>st. snd st = k \<and> dict_get regs (fst st) \<noteq> None) as = Some st"
      and v: "v = the (dict_get regs (fst st))"
    using assms by (auto simp: first_source_def)
  then have "st \<in> set as" "snd st = k" "dict_get regs (fst st) \<noteq> None"
    by (auto simp: find_Some_iff)
  then show thesis using that [of "fst st"] v by (metis option.sel option.exhaust prod.collapse)
qed

definition flat :: "(string \<times> string) list \<Rightarrow> bool" where
  "flat as \<longleftrightarrow> fst ` set as \<inter> snd ` set as = {}"

lemma find_cong_dict:
  assumes "fst ` set as \<inter> {t} = {}"
  shows "first_source as (dict_set t v regs) k = first_source as regs k"
  using assms by (induction as) (auto simp: first_source_def)

lemma add_aliases_get:
  assumes "flat as"
  shows "dict_get (add_aliases as regs) k =
    (case dict_get regs k of Some v \<Rightarrow> Some v | None \<Rightarrow> first_source as regs k)"
  using assms
proof (induction as regs rule: add_aliases.induct)
  case (1 regs)
  then show ?case by (cases "dict_get regs k") (simp_all add: first_source_def)
next
  case (2 source target as regs)
  have flat: "flat as" and fresh: "fst ` set as \<inter> {target} = {}"
    using 2(2) by (auto simp: flat_def)
  have cong: "first_source as (dict_set target v regs) k = first_source as regs k" for v
    using find_cong_dict [OF fresh] .
  show ?case
    using 2(1) [OF flat] cong
    by (cases "dict_get regs source"; cases "dict_get regs target"; cases "k = target";
        cases "dict_get regs k") (simp_all add: first_source_def)
qed

lemma flat_register_aliases: "flat register_aliases"
  by (simp add: flat_def register_aliases_def)

lemma first_source_idem:
  assumes "flat as" and "dict_get regs k = None" and "first_source as regs k = None"
  shows "first_source as (add_aliases as regs) k = None"
proof -
  have "dict_get (add_aliases as regs) (fst st) = None"
    if "st \<in> set as" "dict_get regs (fst st) = None" for st
  proof -
    have "fst st \<notin> snd ` set as" using assms(1) that(1) by (auto simp: flat_def)
    then have "first_source as regs (fst st) = None"
      by (metis first_source_None image_eqI)
    then show ?thesis using add_aliases_get [OF assms(1)] that(2) by simp
  qed
  then show ?thesis
    using assms(3) by (simp add: first_source_None)
qed

lemma add_aliases_idem:
  assumes "flat as" and "dict_ok regs"
  shows "dict_get (add_aliases as (add_aliases as regs)) = dict_get (add_aliases as regs)"
proof
  fix k
  show "dict_get (add_aliases as (add_aliases as regs)) k = dict_get (add_aliases as regs) k"
    using add_aliases_get [OF assms(1), of "add_aliases as regs" k] add_aliases_get [OF assms(1), of regs k]
      first_source_idem [OF assms(1), of regs k]
    by (cases "dict_get regs k"; cases "first_source as regs k") auto
qed

section \<open>Normalized tables\<close>

lemma lower_idem [simp]: "lower (lower s) = lower s"
proof -
  have "lower_char (lower_char c) = lower_char c" for c
    by (cases "65 \<le> cp c \<and> cp c \<le> 90 \<or> 192 \<le> cp c \<and> cp c \<le> 222")
      (auto simp: lower_char_def cp_def)
  then show ?thesis by (simp add: lower_def)
qed

lemma lower_aliases: "\<forall>st \<in> set register_aliases. lower (snd st) = snd st"
  by (simp add: register_aliases_def lower_def lower_char_def cp_def)

text \<open>The reported names: the last one wins when two differ only in case.\<close>

definition reported :: "string dict \<Rightarrow> string \<Rightarrow> string option" where
  "reported regs k = dict_get (rev (map (\<lambda>(k, v). (lower k, v)) regs)) k"

lemma normalize_get:
  "dict_get (normalize_registers regs profile) k =
    (case reported regs k of
       Some v \<Rightarrow> Some v
     | None \<Rightarrow> if profile = ''cortex-m''
               then first_source register_aliases (dict_of (map (\<lambda>(k, v). (lower k, v)) regs)) k
               else None)"
  by (auto simp: normalize_registers_def reported_def Let_def dict_simps
      add_aliases_get [OF flat_register_aliases] split: option.split)

lemma normalize_keeps: "reported regs k = Some v \<Longrightarrow> dict_get (normalize_registers regs profile) k = Some v"
  by (simp add: normalize_get)

lemma normalized_keys:
  assumes "k \<in> fst ` set (normalize_registers regs profile)"
  shows "lower k = k"
proof -
  have "dict_get (normalize_registers regs profile) k \<noteq> None"
    using assms by (simp add: map_of_eq_None_iff)
  moreover have "lower k = k" if "reported regs k = Some v" for v
    using map_of_SomeD [OF that [unfolded reported_def]] by auto
  moreover have "lower k = k" if "first_source register_aliases d k = Some v" for d v
    using first_source_Some [OF that] lower_aliases by fastforce
  ultimately show ?thesis by (auto simp: normalize_get split: option.splits if_splits)
qed

lemma normalize_idem:
  "dict_get (normalize_registers (normalize_registers regs profile) profile)
    = dict_get (normalize_registers regs profile)"
proof -
  let ?n = "normalize_registers regs profile" and ?d = "dict_of (map (\<lambda>(k, v). (lower k, v)) regs)"
  have "map (\<lambda>(k, v). (lower k, v)) ?n = ?n"
    using normalized_keys by (intro map_idI) (force simp: image_iff)
  then have "dict_of (map (\<lambda>(k, v). (lower k, v)) ?n) = ?n"
    by (simp add: dict_of_id)
  then show ?thesis
    using add_aliases_idem [OF flat_register_aliases, of ?d]
    by (simp add: normalize_registers_def [of ?n] Let_def) (simp add: normalize_registers_def Let_def)
qed

end
