(* ===== verification/Backends.thy ===== *)
theory Backends
  imports MI_Controller Targets
begin

text \<open>
  The backend adapters (\<open>backends/*.py\<close>). Every adapter attaches with one \<open>-target-select\<close>
  and describes the connection; OpenOCD can also reset through two fixed monitor commands. The
  protocol \<open>BackendAdapter\<close> is the locale \<open>backend_adapter\<close>, interpreted for every adapter;
  what a session needs of an adapter is proved once from it.
\<close>

datatype backend_feature =
  FEAT_CONNECT | FEAT_RESET | FEAT_HALT | FEAT_BREAKPOINTS | FEAT_MEMORY_READ

record backend_connection =
  bc_backend :: backend_kind
  bc_endpoint :: string
  bc_profile :: string
  bc_architecture :: "string option"
  bc_state :: target_state
  bc_features :: "backend_feature list"

text \<open>The adapter objects; the vendor class is instantiated with its kind and display name.\<close>

datatype backend =
    GenericRemoteBackend
  | QemuBackend
  | OpenOCDBackend
  | AttachOnlyVendorBackend backend_kind string

primrec backend_kind_of :: "backend \<Rightarrow> backend_kind" where
  "backend_kind_of GenericRemoteBackend = GENERIC_REMOTE"
| "backend_kind_of QemuBackend = QEMU"
| "backend_kind_of OpenOCDBackend = OPENOCD"
| "backend_kind_of (AttachOnlyVendorBackend kind name) = kind"

definition generic_connect ::
  "string \<Rightarrow> string \<Rightarrow> int \<Rightarrow> (controller, backend_connection) prog" where
  "generic_connect endpoint profile timeout_ms =
     andthen (execute (target_select endpoint True) timeout_ms) (\<lambda>_.
       ret \<lparr>bc_backend = GENERIC_REMOTE, bc_endpoint = endpoint, bc_profile = profile,
            bc_architecture = None, bc_state = UNKNOWN,
            bc_features = [FEAT_CONNECT, FEAT_HALT, FEAT_BREAKPOINTS, FEAT_MEMORY_READ]\<rparr>)"

definition qemu_connect ::
  "string \<Rightarrow> string \<Rightarrow> int \<Rightarrow> (controller, backend_connection) prog" where
  "qemu_connect endpoint profile timeout_ms =
     andthen (execute (target_select endpoint True) timeout_ms) (\<lambda>_.
       ret \<lparr>bc_backend = QEMU, bc_endpoint = endpoint, bc_profile = profile,
            bc_architecture = infer_architecture QEMU profile, bc_state = UNKNOWN,
            bc_features = [FEAT_CONNECT, FEAT_HALT, FEAT_RESET, FEAT_BREAKPOINTS, FEAT_MEMORY_READ]\<rparr>)"

definition openocd_connect ::
  "string \<Rightarrow> string \<Rightarrow> int \<Rightarrow> (controller, backend_connection) prog" where
  "openocd_connect endpoint profile timeout_ms =
     andthen (execute (target_select endpoint True) timeout_ms) (\<lambda>_.
       ret \<lparr>bc_backend = OPENOCD, bc_endpoint = endpoint, bc_profile = profile,
            bc_architecture = infer_architecture OPENOCD profile, bc_state = UNKNOWN,
            bc_features = [FEAT_CONNECT, FEAT_HALT, FEAT_RESET, FEAT_BREAKPOINTS, FEAT_MEMORY_READ]\<rparr>)"

definition openocd_reset ::
  "reset_mode \<Rightarrow> int \<Rightarrow> (controller, target_state) prog" where
  "openocd_reset mode timeout_ms =
     andthen (lift_res (interpreter_exec_console
                (if mode = RESET_HALT then ''monitor reset halt'' else ''monitor reset run'')))
       (\<lambda>cmd. andthen (execute cmd timeout_ms) (\<lambda>_.
         ret (if mode = RESET_HALT then HALTED else RUNNING)))"

definition vendor_connect ::
  "backend_kind \<Rightarrow> string \<Rightarrow> string \<Rightarrow> int \<Rightarrow> (controller, backend_connection) prog" where
  "vendor_connect kind endpoint profile timeout_ms =
     andthen (execute (target_select endpoint True) timeout_ms) (\<lambda>_.
       ret \<lparr>bc_backend = kind, bc_endpoint = endpoint, bc_profile = profile,
            bc_architecture = infer_architecture kind profile, bc_state = UNKNOWN,
            bc_features = [FEAT_CONNECT, FEAT_HALT, FEAT_BREAKPOINTS, FEAT_MEMORY_READ]\<rparr>)"

definition jlink_backend :: backend where
  "jlink_backend = AttachOnlyVendorBackend JLINK ''J-Link GDB Server''"

definition pyocd_backend :: backend where
  "pyocd_backend = AttachOnlyVendorBackend PYOCD ''pyOCD GDB server''"

text \<open>Dynamic dispatch on the adapter: \<open>connect\<close>, and \<open>getattr(backend, "reset_target", None)\<close>.\<close>

primrec backend_connect ::
  "backend \<Rightarrow> string \<Rightarrow> string \<Rightarrow> int \<Rightarrow> (controller, backend_connection) prog" where
  "backend_connect GenericRemoteBackend = generic_connect"
| "backend_connect QemuBackend = qemu_connect"
| "backend_connect OpenOCDBackend = openocd_connect"
| "backend_connect (AttachOnlyVendorBackend kind name) = vendor_connect kind"

primrec backend_resetter :: "backend \<Rightarrow> (reset_mode \<Rightarrow> int \<Rightarrow> (controller, target_state) prog) option" where
  "backend_resetter GenericRemoteBackend = None"
| "backend_resetter QemuBackend = None"
| "backend_resetter OpenOCDBackend = Some openocd_reset"
| "backend_resetter (AttachOnlyVendorBackend kind name) = None"

text \<open>The match is exhaustive over \<open>BackendKind\<close>, so its final \<open>raise\<close> is never reached.\<close>

primrec create_backend :: "backend_kind \<Rightarrow> backend" where
  "create_backend GENERIC_REMOTE = GenericRemoteBackend"
| "create_backend QEMU = QemuBackend"
| "create_backend OPENOCD = OpenOCDBackend"
| "create_backend JLINK = jlink_backend"
| "create_backend PYOCD = pyocd_backend"

section \<open>The protocol of an adapter\<close>

text \<open>
  \<open>connect_ok\<close> and \<open>connect_error\<close>: attaching is exactly one \<open>-target-select\<close> of the endpoint,
  the description names the request and leaves the target's state unknown, and a failure is the
  failure of that command.
\<close>

locale backend_adapter =
  fixes kind :: backend_kind
    and connect :: "string \<Rightarrow> string \<Rightarrow> int \<Rightarrow> (controller, backend_connection) prog"
  assumes connect_ok: "connect e p t c = (Inr conn, d) \<Longrightarrow>
      (\<exists>res. execute (target_select e True) t c = (Inr res, d))
      \<and> bc_backend conn = kind \<and> bc_endpoint conn = e \<and> bc_profile conn = p
      \<and> bc_state conn = UNKNOWN \<and> FEAT_CONNECT \<in> set (bc_features conn)"
    and connect_error: "connect e p t c = (Inl x, d) \<Longrightarrow>
      execute (target_select e True) t c = (Inl x, d)"
begin

lemma connect_state: "snd (connect e p t c) = snd (execute (target_select e True) t c)"
proof -
  obtain r d where r: "connect e p t c = (r, d)" by fastforce
  then show ?thesis
    using connect_ok [of e p t c _ d] connect_error [of e p t c _ d] by (cases r) fastforce+
qed

lemma connect_writes: "P (target_select e True) \<Longrightarrow> ensures (extends P) (connect e p t)"
  using ensures_execute [of P "target_select e True" t]
  by (simp add: ensures_def connect_state)

lemma connect_keeps_controller: "keeps controller_ok (connect e p t)"
  using keeps_controller_ok [of "target_select e True" t]
  by (simp add: keeps_def connect_state)

lemma connect_sends:
  assumes "connect e p t c = (Inr conn, d)" and "0 \<le> queued_commands c"
  shows "outbox (transport_of d) =
    outbox (transport_of c) @ [serialize (target_select e True) (Some (next_token c))]"
  using connect_ok [OF assms(1)] execute_success [of "target_select e True" t c _ d] assms(2)
  by auto

end

lemmas connect_defs = generic_connect_def qemu_connect_def openocd_connect_def vendor_connect_def

interpretation generic_remote: backend_adapter GENERIC_REMOTE generic_connect
  by unfold_locales (auto simp: connect_defs andthen_def split: prod.splits sum.splits)

interpretation qemu: backend_adapter QEMU qemu_connect
  by unfold_locales (auto simp: connect_defs andthen_def split: prod.splits sum.splits)

interpretation openocd: backend_adapter OPENOCD openocd_connect
  by unfold_locales (auto simp: connect_defs andthen_def split: prod.splits sum.splits)

interpretation vendor: backend_adapter kind "vendor_connect kind" for kind
  by unfold_locales (auto simp: connect_defs andthen_def split: prod.splits sum.splits)

text \<open>The dispatching functions satisfy the protocol for every adapter object.\<close>

interpretation adapter: backend_adapter "backend_kind_of b" "backend_connect b" for b
  using generic_remote.connect_ok generic_remote.connect_error qemu.connect_ok qemu.connect_error
    openocd.connect_ok openocd.connect_error vendor.connect_ok vendor.connect_error
  by unfold_locales (cases b; simp)+

lemma create_backend_kind [simp]: "backend_kind_of (create_backend k) = k"
  by (cases k) (simp_all add: jlink_backend_def pyocd_backend_def)

section \<open>Reset\<close>

definition reset_command :: "reset_mode \<Rightarrow> mi_command" where
  "reset_command mode = \<lparr>cmd_name = INTERPRETER_EXEC, cmd_args =
     [''console'', if mode = RESET_HALT then ''monitor reset halt'' else ''monitor reset run'']\<rparr>"

text \<open>The console commands of a reset are on the allowlist, so the builder does not raise.\<close>

lemma openocd_reset_command:
  "openocd_reset mode t =
     andthen (execute (reset_command mode) t) (\<lambda>_. ret (if mode = RESET_HALT then HALTED else RUNNING))"
proof -
  have "interpreter_exec_console (if mode = RESET_HALT then ''monitor reset halt'' else ''monitor reset run'')
      = Inr (reset_command mode)"
    by (simp add: interpreter_exec_console_def allowlisted_console_commands_def reset_command_def)
  then show ?thesis by (simp add: openocd_reset_def fun_eq_iff andthen_def)
qed

lemma keeps_openocd_reset: "keeps controller_ok (openocd_reset mode t)"
  unfolding openocd_reset_command by (intro keeps_intros)

lemma ensures_openocd_reset: "P (reset_command mode) \<Longrightarrow> ensures (extends P) (openocd_reset mode t)"
  unfolding openocd_reset_command
  by (intro written.ensures_andthen ensures_execute written.ensures_basic)

lemma backend_resetter_openocd:
  "backend_resetter b = Some r \<longleftrightarrow> b = OpenOCDBackend \<and> r = openocd_reset"
  by (cases b) auto

end
