(* ===== verification/Debug_State.thy ===== *)
theory Debug_State
  imports Schemas
begin

text \<open>
  The state machine of one debug session (\<open>debug/state.py\<close>): the table of legal transitions,
  the guarded \<open>transition\<close>, and the history it records. The contract is \<open>linked\<close>: the history
  is a path of allowed transitions from the initial state to the current one. The time stamp of
  a recorded transition is not modelled.
\<close>

section \<open>The state machine\<close>

record state_transition =
  from_state :: target_state
  to_state :: target_state
  reason :: string

record state_machine =
  sm_state :: target_state
  sm_history :: "state_transition list"

primrec legal_transitions :: "target_state \<Rightarrow> target_state list" where
  "legal_transitions DISCONNECTED = [CONNECTING]"
| "legal_transitions CONNECTING = [HALTED, RUNNING, UNKNOWN, DEGRADED, DISCONNECTED]"
| "legal_transitions HALTED = [RUNNING, UNKNOWN, DEGRADED, DISCONNECTED]"
| "legal_transitions RUNNING = [HALTED, UNKNOWN, DEGRADED, DISCONNECTED]"
| "legal_transitions UNKNOWN = [CONNECTING, HALTED, RUNNING, DEGRADED, DISCONNECTED]"
| "legal_transitions DEGRADED = [CONNECTING, UNKNOWN, DISCONNECTED]"

definition new_state_machine :: "target_state \<Rightarrow> state_machine" where
  "new_state_machine initial = \<lparr>sm_state = initial, sm_history = []\<rparr>"

definition allowed :: "target_state \<Rightarrow> target_state \<Rightarrow> bool" where
  "allowed from to \<longleftrightarrow> (if to = from then True else to \<in> set (legal_transitions from))"

definition can_transition :: "state_machine \<Rightarrow> target_state \<Rightarrow> bool" where
  "can_transition sm to = allowed (sm_state sm) to"

definition transition :: "target_state \<Rightarrow> string \<Rightarrow> (state_machine, state_transition) prog" where
  "transition to why sm =
     (if \<not> can_transition sm to
      then (Inl (Exc StateTransitionError
              (''invalid transition from '' @ state_value (sm_state sm) @ '' to '' @ state_value to)), sm)
      else let tr = \<lparr>from_state = sm_state sm, to_state = to, reason = why\<rparr>
           in (Inr tr, sm\<lparr>sm_state := to, sm_history := sm_history sm @ [tr]\<rparr>))"

section \<open>The history is a path\<close>

fun path_from :: "target_state \<Rightarrow> state_transition list \<Rightarrow> target_state \<Rightarrow> bool" where
  "path_from s [] t \<longleftrightarrow> s = t"
| "path_from s (tr # trs) t \<longleftrightarrow>
     from_state tr = s \<and> allowed s (to_state tr) \<and> path_from (to_state tr) trs t"

definition linked :: "target_state \<Rightarrow> state_machine \<Rightarrow> bool" where
  "linked initial sm \<longleftrightarrow> path_from initial (sm_history sm) (sm_state sm)"

lemma path_from_append:
  "path_from s (xs @ ys) t \<longleftrightarrow> (\<exists>u. path_from s xs u \<and> path_from u ys t)"
  by (induction xs arbitrary: s) auto

lemma linked_new: "linked s (new_state_machine s)"
  by (simp add: linked_def new_state_machine_def)

lemma transition_cases:
  assumes "transition to why sm = (r, sm')"
  obtains (refused) e where "r = Inl e" "exc_of e = StateTransitionError" "sm' = sm"
      "\<not> allowed (sm_state sm) to"
    | (moved) tr where "r = Inr tr" "allowed (sm_state sm) to" "sm_state sm' = to"
      "sm_history sm' = sm_history sm @ [tr]"
      "tr = \<lparr>from_state = sm_state sm, to_state = to, reason = why\<rparr>"
  using assms by (auto simp: transition_def can_transition_def Let_def split: if_splits)

lemma transition_linked:
  assumes "linked s sm" and "transition to why sm = (r, sm')"
  shows "linked s sm'"
  using assms(2)
proof (cases rule: transition_cases)
  case (moved tr)
  then have "path_from (sm_state sm) [tr] (sm_state sm')" by simp
  with assms(1) moved(4) show ?thesis by (auto simp: linked_def path_from_append)
qed (use assms in simp)

lemma keeps_transition [keeps_intros]: "keeps (linked s) (transition to why)"
  by (rule keepsI) (metis prod.exhaust_sel transition_linked)

text \<open>The history only grows.\<close>

definition history_extends :: "state_machine \<Rightarrow> state_machine \<Rightarrow> bool" where
  "history_extends a b \<longleftrightarrow> (\<exists>trs. sm_history b = sm_history a @ trs)"

interpretation history: effect_order history_extends
  by unfold_locales (auto simp: history_extends_def)

lemma ensures_transition: "ensures history_extends (transition to why)"
  by (rule ensuresI) (auto simp: transition_def Let_def history_extends_def)

section \<open>What the table promises\<close>

lemma allowed_refl [simp]: "allowed s s"
  by (simp add: allowed_def)

text \<open>Every state can be left for \<open>DISCONNECTED\<close>.\<close>

lemma allowed_disconnect: "allowed s DISCONNECTED"
  by (cases s) (simp_all add: allowed_def)

text \<open>From \<open>DISCONNECTED\<close> the only way on is \<open>CONNECTING\<close>.\<close>

lemma allowed_from_disconnected: "allowed DISCONNECTED t \<longleftrightarrow> t = DISCONNECTED \<or> t = CONNECTING"
  by (cases t) (simp_all add: allowed_def)

text \<open>A degraded session is never usable again without passing another state first.\<close>

lemma allowed_from_degraded: "allowed DEGRADED t \<longleftrightarrow> t \<noteq> HALTED \<and> t \<noteq> RUNNING"
  by (cases t) (simp_all add: allowed_def)

lemma allowed_connecting: "allowed s CONNECTING \<longleftrightarrow> s \<noteq> HALTED \<and> s \<noteq> RUNNING"
  by (cases s) (simp_all add: allowed_def)

text \<open>
  A path that leaves a class of states closed under the table has a step out of it: a session
  that left \<open>DISCONNECTED\<close> connected first, and one that recovered from \<open>DEGRADED\<close> went
  through \<open>CONNECTING\<close>, \<open>UNKNOWN\<close> or \<open>DISCONNECTED\<close>.
\<close>

lemma path_from_exit:
  assumes "path_from s trs t" and "s \<in> S" and "t \<notin> S"
  shows "\<exists>tr \<in> set trs. from_state tr \<in> S \<and> to_state tr \<notin> S \<and> allowed (from_state tr) (to_state tr)"
  using assms by (induction trs arbitrary: s) auto

lemma path_through_connecting:
  assumes "path_from DISCONNECTED trs t" and "t \<noteq> DISCONNECTED"
  shows "\<exists>tr \<in> set trs. to_state tr = CONNECTING"
  using path_from_exit [OF assms(1), of "{DISCONNECTED}"] assms(2)
  by (auto simp: allowed_from_disconnected)

lemma path_out_of_degraded:
  assumes "path_from DEGRADED trs t" and "t = HALTED \<or> t = RUNNING"
  shows "\<exists>tr \<in> set trs. to_state tr \<in> {CONNECTING, UNKNOWN, DISCONNECTED}"
proof -
  obtain tr where "tr \<in> set trs" "from_state tr = DEGRADED" "to_state tr \<noteq> DEGRADED"
      "allowed (from_state tr) (to_state tr)"
    using path_from_exit [OF assms(1), of "{DEGRADED}"] assms(2) by auto
  then show ?thesis by (cases "to_state tr") (auto simp: allowed_from_degraded)
qed

end
