(* ===== verification/Symbols.thy ===== *)
theory Symbols
  imports Schemas MI_Records
begin

text \<open>
  Symbol and disassembly context (\<open>symbols.py\<close>): what the replies to \<open>-stack-info-frame\<close> and
  \<open>-data-disassemble\<close> say about a program counter. The confidence, a float literal in the code,
  is the rational of the same decimal.
\<close>

record disassembly_instruction =
  di_address :: string
  di_function :: "string option"
  di_offset :: "int option"
  di_instruction :: string

record symbol_context =
  sc_address :: string
  sc_symbol :: "string option"
  sc_source :: "string option"
  sc_disassembly :: "disassembly_instruction list"
  sc_confidence :: rat

text \<open>Python's truth of an optional string and of a list.\<close>

definition truthy :: "string option \<Rightarrow> bool" where
  "truthy s \<longleftrightarrow> (case s of None \<Rightarrow> False | Some t \<Rightarrow> t \<noteq> [])"

definition summarize_symbol_context :: "symbol_context \<Rightarrow> string" where
  "summarize_symbol_context c =
     (case sc_symbol c of
        Some (x # s) \<Rightarrow> sc_address c @ '' resolves near '' @ (x # s) @ ''.''
      | _ \<Rightarrow> if sc_disassembly c \<noteq> [] then sc_address c @ '' has disassembly context but no symbol.''
             else ''No symbol context is available for '' @ sc_address c @ ''.'')"

definition string_value :: "mi_value option \<Rightarrow> string option" where
  "string_value v = (case v of Some (MIStr (c # s)) \<Rightarrow> Some (c # s) | _ \<Rightarrow> None)"

definition int_value :: "mi_value option \<Rightarrow> int option" where
  "int_value v = (case v of Some (MIStr s) \<Rightarrow> py_int0 s | _ \<Rightarrow> None)"

definition parse_instruction :: "mi_value \<Rightarrow> disassembly_instruction option" where
  "parse_instruction item =
     (case item of
        MIDict d \<Rightarrow>
          (case string_value (dict_get d ''address'') of
             None \<Rightarrow> None
           | Some address \<Rightarrow>
               (case string_value (dict_get d ''inst'') of
                  None \<Rightarrow> None
                | Some instruction \<Rightarrow> Some
                   \<lparr>di_address = address, di_function = string_value (dict_get d ''func-name''),
                    di_offset = int_value (dict_get d ''offset''), di_instruction = instruction\<rparr>))
      | _ \<Rightarrow> None)"

definition parse_disassembly :: "mi_value option \<Rightarrow> disassembly_instruction list" where
  "parse_disassembly v = (case v of Some (MIList items) \<Rightarrow> List.map_filter parse_instruction items | _ \<Rightarrow> [])"

definition format_source :: "mi_value dict \<Rightarrow> string option" where
  "format_source frame =
     (case (case string_value (dict_get frame ''fullname'') of
              Some f \<Rightarrow> Some f | None \<Rightarrow> string_value (dict_get frame ''file'')) of
        None \<Rightarrow> None
      | Some file_name \<Rightarrow>
          (case string_value (dict_get frame ''line'') of
             None \<Rightarrow> Some file_name
           | Some line \<Rightarrow> Some (file_name @ '':'' @ line)))"

definition symbol_confidence :: "string option \<Rightarrow> string option \<Rightarrow> disassembly_instruction list \<Rightarrow> rat" where
  "symbol_confidence symbol source disassembly =
     (if truthy symbol \<and> truthy source \<and> disassembly \<noteq> [] then 9 / 10
      else if truthy symbol \<and> disassembly \<noteq> [] then 3 / 4
      else if truthy symbol \<or> truthy source then 3 / 5
      else if disassembly \<noteq> [] then 2 / 5
      else 0)"

definition symbol_context_from_mi ::
  "string \<Rightarrow> mi_value option \<Rightarrow> mi_value option \<Rightarrow> symbol_context" where
  "symbol_context_from_mi address frame asm_insns =
     (let frame_data = (case frame of Some (MIDict d) \<Rightarrow> d | _ \<Rightarrow> []);
          symbol = string_value (dict_get frame_data ''func'');
          source = format_source frame_data;
          disassembly = parse_disassembly asm_insns
      in \<lparr>sc_address = address, sc_symbol = symbol, sc_source = source,
          sc_disassembly = disassembly,
          sc_confidence = symbol_confidence symbol source disassembly\<rparr>)"

section \<open>Properties of the context\<close>

lemma string_value_truthy: "string_value v = Some s \<Longrightarrow> s \<noteq> []"
  by (auto simp: string_value_def split: option.splits mi_value.splits list.splits)

lemma truthy_string_value [simp]: "truthy (string_value v) \<longleftrightarrow> string_value v \<noteq> None"
  using string_value_truthy by (auto simp: truthy_def split: option.split)

lemma format_source_truthy: "truthy (format_source d) \<longleftrightarrow> format_source d \<noteq> None"
  using string_value_truthy
  by (auto simp: truthy_def format_source_def split: option.split)

lemma format_source_file:
  "format_source d \<noteq> None \<longleftrightarrow>
     string_value (dict_get d ''fullname'') \<noteq> None \<or> string_value (dict_get d ''file'') \<noteq> None"
  by (auto simp: format_source_def split: option.split)

text \<open>
  The constraint \<open>0 <= confidence <= 1\<close> of the model always holds, so building the context
  never raises, and more evidence never lowers the confidence.
\<close>

lemma symbol_confidence_range:
  "0 \<le> symbol_confidence s r d \<and> symbol_confidence s r d \<le> 9 / 10"
  by (simp add: symbol_confidence_def)

lemma symbol_confidence_mono:
  assumes "truthy s \<longrightarrow> truthy s'" and "truthy r \<longrightarrow> truthy r'" and "d \<noteq> [] \<longrightarrow> d' \<noteq> []"
  shows "symbol_confidence s r d \<le> symbol_confidence s' r' d'"
  using assms by (auto simp: symbol_confidence_def)

lemma symbol_confidence_zero:
  "symbol_confidence s r d = 0 \<longleftrightarrow> \<not> truthy s \<and> \<not> truthy r \<and> d = []"
  by (auto simp: symbol_confidence_def)

text \<open>Every instruction of the context comes from an item of the reply, in order.\<close>

lemma parse_disassembly_length:
  "length (parse_disassembly v) \<le> (case v of Some (MIList items) \<Rightarrow> length items | _ \<Rightarrow> 0)"
  by (auto simp: parse_disassembly_def List.map_filter_def split: option.splits mi_value.splits)

lemma parse_disassembly_complete:
  assumes "\<forall>i \<in> set items. parse_instruction i \<noteq> None"
  shows "length (parse_disassembly (Some (MIList items))) = length items"
  using assms by (induction items) (auto simp: parse_disassembly_def List.map_filter_simps)

lemma parse_instruction_fields:
  assumes "parse_instruction item = Some i"
  shows "di_address i \<noteq> [] \<and> di_instruction i \<noteq> []
    \<and> (\<exists>d. item = MIDict d \<and> dict_get d ''address'' = Some (MIStr (di_address i))
           \<and> dict_get d ''inst'' = Some (MIStr (di_instruction i)))"
  using assms
  by (auto simp: parse_instruction_def string_value_def
      split: mi_value.splits option.splits list.splits)

end
