(* ===== verification/Result_Data.thy ===== *)
theory Result_Data
  imports Schemas
begin

text \<open>
  The data models of the tool results and the result envelope (\<open>mcp_server/schemas.py\<close>).
  \<open>tool_data\<close> gathers the payloads, \<open>data_fields\<close> is \<open>model_dump(mode="json",
  exclude_none=True)\<close> of each, and \<open>tool_result\<close> is the envelope with the check of its
  validator. A confidence, a float in the code, is the rational of its decimal literal.
\<close>

record connect_target_data =
  ctd_session_id :: string
  ctd_backend :: backend_kind
  ctd_architecture :: "string option"
  ctd_profile :: string
  ctd_state :: target_state

record halt_data =
  hd_stop_reason :: "string option"
  hd_pc :: "string option"

record resume_data =
  rd_interrupted :: bool

record step_instruction_data =
  sid_pc :: "string option"

record reset_target_data =
  rtd_mode :: reset_mode
  rtd_state :: target_state

record read_memory_data =
  rmd_address :: string
  rmd_length :: int
  rmd_width :: int
  rmd_data_hex :: string

record write_memory_data =
  wmd_address :: string
  wmd_bytes_written :: int
  wmd_verified_old_value :: bool

record breakpoint_data =
  bd_breakpoint_id :: string
  bd_location :: breakpoint_location
  bd_type :: breakpoint_type
  bd_temporary :: bool

record clear_breakpoint_data =
  cbd_breakpoint_id :: string
  cbd_removed :: bool

record debug_snapshot_data =
  dsd_snapshot_id :: string
  dsd_state :: target_state
  dsd_summary :: string

record fault_analysis_data =
  fad_fault_type :: string
  fad_confidence :: rat
  fad_evidence :: "string list"
  fad_hypotheses :: "string list"
  fad_recommended_next_actions :: "string list"
  fad_decoded_registers :: "json dict"

record peripheral_register_data =
  prd_name :: string
  prd_address :: string
  prd_value :: string
  prd_fields :: "int dict"

record inspect_peripheral_data =
  ipd_device :: string
  ipd_peripheral :: string
  ipd_registers :: "peripheral_register_data list"

record snapshot_diff_data =
  sdd_register_diffs :: "(string option \<times> string option) dict"
  sdd_summary :: string

record explain_current_state_data =
  ecd_summary :: string
  ecd_evidence :: "string list"

record suggested_debug_action =
  sa_title :: string
  sa_rationale :: string
  sa_tool_name :: "string option"
  sa_risk :: string
  sa_required_permission :: permission_level

datatype tool_data =
    NoData
  | ConnectTargetData connect_target_data
  | HaltData halt_data
  | ResumeData resume_data
  | StepInstructionData step_instruction_data
  | ResetTargetData reset_target_data
  | ReadRegistersData "string dict"
  | ReadMemoryData read_memory_data
  | WriteMemoryData write_memory_data
  | BreakpointData breakpoint_data
  | ClearBreakpointData clear_breakpoint_data
  | DebugSnapshotData debug_snapshot_data
  | FaultAnalysisData fault_analysis_data
  | InspectPeripheralData inspect_peripheral_data
  | SnapshotDiffData snapshot_diff_data
  | ExplainCurrentStateData explain_current_state_data
  | SuggestNextDebugStepsData "suggested_debug_action list"

definition json_strings :: "string list \<Rightarrow> json" where
  "json_strings ss = JArr (map JStr ss)"

definition opt_json :: "string option \<Rightarrow> json" where
  "opt_json s = (case s of None \<Rightarrow> JNull | Some t \<Rightarrow> JStr t)"

definition location_json :: "breakpoint_location \<Rightarrow> json" where
  "location_json l = JObj [(''kind'', JStr (location_kind_value (loc_kind l))), (''value'', JStr (loc_value l))]"

definition register_json :: "peripheral_register_data \<Rightarrow> json" where
  "register_json r = JObj
     [(''name'', JStr (prd_name r)), (''address'', JStr (prd_address r)), (''value'', JStr (prd_value r)),
      (''fields'', JObj (map (\<lambda>(k, v). (k, JInt v)) (prd_fields r)))]"

definition action_json :: "suggested_debug_action \<Rightarrow> json" where
  "action_json a = JObj
     ([(''title'', JStr (sa_title a)), (''rationale'', JStr (sa_rationale a))]
      @ opt_field ''tool_name'' JStr (sa_tool_name a)
      @ [(''risk'', JStr (sa_risk a)),
         (''required_permission'', JStr (permission_value (sa_required_permission a)))])"

primrec data_fields :: "tool_data \<Rightarrow> json dict" where
  "data_fields NoData = []"
| "data_fields (ConnectTargetData d) =
     [(''session_id'', JStr (ctd_session_id d)), (''backend'', JStr (backend_value (ctd_backend d)))]
     @ opt_field ''architecture'' JStr (ctd_architecture d)
     @ [(''profile'', JStr (ctd_profile d)), (''state'', JStr (state_value (ctd_state d)))]"
| "data_fields (HaltData d) =
     opt_field ''stop_reason'' JStr (hd_stop_reason d) @ opt_field ''pc'' JStr (hd_pc d)"
| "data_fields (ResumeData d) = [(''interrupted'', JBool (rd_interrupted d))]"
| "data_fields (StepInstructionData d) =
     opt_field ''pc'' JStr (sid_pc d) @ [(''changed_registers'', JObj [])]"
| "data_fields (ResetTargetData d) =
     [(''mode'', JStr (reset_value (rtd_mode d))), (''state'', JStr (state_value (rtd_state d)))]"
| "data_fields (ReadRegistersData d) = [(''registers'', JObj (map (\<lambda>(k, v). (k, JStr v)) d))]"
| "data_fields (ReadMemoryData d) =
     [(''address'', JStr (rmd_address d)), (''length'', JInt (rmd_length d)),
      (''width'', JInt (rmd_width d)), (''data_hex'', JStr (rmd_data_hex d))]"
| "data_fields (WriteMemoryData d) =
     [(''address'', JStr (wmd_address d)), (''bytes_written'', JInt (wmd_bytes_written d)),
      (''verified_old_value'', JBool (wmd_verified_old_value d))]"
| "data_fields (BreakpointData d) =
     [(''breakpoint_id'', JStr (bd_breakpoint_id d)), (''location'', location_json (bd_location d)),
      (''type'', JStr (breakpoint_type_value (bd_type d))), (''temporary'', JBool (bd_temporary d))]"
| "data_fields (ClearBreakpointData d) =
     [(''breakpoint_id'', JStr (cbd_breakpoint_id d)), (''removed'', JBool (cbd_removed d))]"
| "data_fields (DebugSnapshotData d) =
     [(''snapshot_id'', JStr (dsd_snapshot_id d)), (''state'', JStr (state_value (dsd_state d))),
      (''summary'', JStr (dsd_summary d))]"
| "data_fields (FaultAnalysisData d) =
     [(''fault_type'', JStr (fad_fault_type d)), (''confidence'', JFloat (fad_confidence d)),
      (''evidence'', json_strings (fad_evidence d)), (''hypotheses'', json_strings (fad_hypotheses d)),
      (''recommended_next_actions'', json_strings (fad_recommended_next_actions d)),
      (''decoded_registers'', JObj (fad_decoded_registers d))]"
| "data_fields (InspectPeripheralData d) =
     [(''device'', JStr (ipd_device d)), (''peripheral'', JStr (ipd_peripheral d)),
      (''registers'', JArr (map register_json (ipd_registers d)))]"
| "data_fields (SnapshotDiffData d) =
     [(''register_diffs'', JObj (map (\<lambda>(k, b, a). (k, JArr [opt_json b, opt_json a])) (sdd_register_diffs d))),
      (''memory_diffs'', JArr []), (''summary'', JStr (sdd_summary d))]"
| "data_fields (ExplainCurrentStateData d) =
     [(''summary'', JStr (ecd_summary d)), (''evidence'', json_strings (ecd_evidence d)),
      (''warnings'', JArr [])]"
| "data_fields (SuggestNextDebugStepsData actions) = [(''actions'', JArr (map action_json actions))]"

section \<open>The envelope\<close>

record tool_result =
  res_ok :: bool
  res_session_id :: "string option"
  res_target_state :: target_state
  res_data :: tool_data
  res_warnings :: "string list"
  res_audit_id :: "string option"
  res_error :: "debug_error option"

text \<open>\<open>validate_result_shape\<close>\<close>

definition valid_shape :: "tool_result \<Rightarrow> bool" where
  "valid_shape r \<longleftrightarrow> (if res_ok r then res_error r = None else res_error r \<noteq> None)"

definition mk_tool_result :: "tool_result \<Rightarrow> tool_result res" where
  "mk_tool_result r =
     (if res_ok r \<and> res_error r \<noteq> None
      then Inl (Exc ValidationError ''successful tool results must not include error'')
      else if \<not> res_ok r \<and> res_error r = None
      then Inl (Exc ValidationError ''failed tool results must include error'')
      else Inr r)"

lemma mk_tool_result_iff: "mk_tool_result r = Inr r' \<longleftrightarrow> r' = r \<and> valid_shape r"
  by (auto simp: mk_tool_result_def valid_shape_def)

text \<open>\<open>DebugError.model_dump(mode="json", exclude_none=True)\<close>\<close>

primrec error_code_value :: "error_code \<Rightarrow> string" where
  "error_code_value CONFIRMATION_REQUIRED = ''CONFIRMATION_REQUIRED''"
| "error_code_value INVALID_CONFIRMATION_TOKEN = ''INVALID_CONFIRMATION_TOKEN''"
| "error_code_value PERMISSION_DENIED = ''PERMISSION_DENIED''"
| "error_code_value RESOURCE_LIMIT_EXCEEDED = ''RESOURCE_LIMIT_EXCEEDED''"
| "error_code_value SESSION_FACTORY_UNAVAILABLE = ''SESSION_FACTORY_UNAVAILABLE''"
| "error_code_value SESSION_NOT_FOUND = ''SESSION_NOT_FOUND''"
| "error_code_value SNAPSHOT_NOT_FOUND = ''SNAPSHOT_NOT_FOUND''"
| "error_code_value SNAPSHOT_REQUIRED = ''SNAPSHOT_REQUIRED''"
| "error_code_value TOOL_EXECUTION_FAILED = ''TOOL_EXECUTION_FAILED''"
| "error_code_value UNSUPPORTED_BACKEND = ''UNSUPPORTED_BACKEND''"
| "error_code_value VALIDATION_FAILED = ''VALIDATION_FAILED''"

definition error_fields :: "debug_error \<Rightarrow> json dict" where
  "error_fields e =
     [(''code'', JStr (error_code_value (code e))), (''message'', JStr (message e)),
      (''category'', JStr (category_value (category e))), (''retryable'', JBool (retryable e)),
      (''details'', JObj (details e))]
     @ opt_field ''required_permission'' (\<lambda>p. JStr (permission_value p)) (required_permission e)
     @ opt_field ''confirmation_token'' JStr (confirmation_token e)"

lemma dict_ok_data_fields: "dict_ok (data_fields d)"
  by (cases d) (simp_all add: dict_ok_def opt_field_def split: option.split)

end
