(* ===== verification/Debug_Session.thy ===== *)
theory Debug_Session
  imports Backends Debug_State Symbols Result_Data
begin

text \<open>
  One debug session (\<open>debug/session.py\<close>): the controller of its GDB process, its backend
  adapter and its state machine, and the operations a tool can ask for, with what they read out
  of GDB's replies. Every operation keeps the controller's and the state machine's invariants
  on every exit, and \<open>session_extends P\<close> bounds what it may send to GDB.
\<close>

record debug_session =
  controller_of :: controller
  backend_of :: backend
  session_id :: string
  machine :: state_machine
  connection :: "backend_connection option"

definition state_of :: "debug_session \<Rightarrow> target_state" where
  "state_of s = sm_state (machine s)"

definition new_session :: "controller \<Rightarrow> backend \<Rightarrow> string \<Rightarrow> debug_session" where
  "new_session c b sid =
     \<lparr>controller_of = c, backend_of = b, session_id = sid,
      machine = new_state_machine DISCONNECTED, connection = None\<rparr>"

definition on_controller :: "(controller, 'a) prog \<Rightarrow> (debug_session, 'a) prog" where
  "on_controller = zoom controller_of (\<lambda>c s. s\<lparr>controller_of := c\<rparr>)"

definition on_machine :: "(state_machine, 'a) prog \<Rightarrow> (debug_session, 'a) prog" where
  "on_machine = zoom machine (\<lambda>m s. s\<lparr>machine := m\<rparr>)"

abbreviation gdb :: "mi_command \<Rightarrow> int \<Rightarrow> (debug_session, mi_command_result) prog" where
  "gdb cmd timeout_ms \<equiv> on_controller (execute cmd timeout_ms)"

abbreviation goto_state :: "target_state \<Rightarrow> string \<Rightarrow> (debug_session, state_transition) prog" where
  "goto_state to why \<equiv> on_machine (transition to why)"

section \<open>Reading GDB's replies\<close>

text \<open>The loop of \<open>_parse_register_values\<close>, one entry at a time.\<close>

definition register_entry :: "mi_value \<Rightarrow> (string \<times> string) option" where
  "register_entry item =
     (case item of
        MIDict d \<Rightarrow>
          (let (number, value) =
             (case dict_get d ''value'' of
                Some (MIDict data) \<Rightarrow> (dict_get data ''number'', dict_get data ''value'')
              | v \<Rightarrow> (dict_get d ''number'', v))
           in (case (number, value) of (Some (MIStr n), Some (MIStr v)) \<Rightarrow> Some (n, v) | _ \<Rightarrow> None))
      | _ \<Rightarrow> None)"

definition parse_register_values :: "mi_record \<Rightarrow> string dict" where
  "parse_register_values r =
     (case dict_get (results r) ''register-values'' of
        Some (MIList items) \<Rightarrow> dict_of (List.map_filter register_entry items)
      | _ \<Rightarrow> [])"

definition block_contents :: "mi_value dict \<Rightarrow> mi_value option" where
  "block_contents first =
     (case dict_get first ''memory'' of
        Some (MIDict block) \<Rightarrow> dict_get block ''contents''
      | _ \<Rightarrow> dict_get first ''contents'')"

definition top_contents :: "mi_record \<Rightarrow> string" where
  "top_contents r = (case dict_get (results r) ''contents'' of Some (MIStr s) \<Rightarrow> s | _ \<Rightarrow> [])"

definition parse_memory_contents :: "mi_record \<Rightarrow> string" where
  "parse_memory_contents r =
     (case dict_get (results r) ''memory'' of
        Some (MIList (MIDict first # rest)) \<Rightarrow>
          (case block_contents first of Some (MIStr s) \<Rightarrow> s | _ \<Rightarrow> top_contents r)
      | _ \<Rightarrow> top_contents r)"

definition parse_breakpoint_id :: "mi_record \<Rightarrow> string" where
  "parse_breakpoint_id r =
     (case dict_get (results r) ''bkpt'' of
        Some (MIDict d) \<Rightarrow> (case dict_get d ''number'' of Some (MIStr s) \<Rightarrow> s | _ \<Rightarrow> ''unknown'')
      | _ \<Rightarrow> ''unknown'')"

fun first_stop_reason :: "mi_record list \<Rightarrow> string option" where
  "first_stop_reason [] = None"
| "first_stop_reason (r # rs) =
     (case dict_get (results r) ''reason'' of Some (MIStr s) \<Rightarrow> Some s | _ \<Rightarrow> first_stop_reason rs)"

fun first_frame_addr :: "mi_record list \<Rightarrow> string option" where
  "first_frame_addr [] = None"
| "first_frame_addr (r # rs) =
     (case dict_get (results r) ''frame'' of
        Some (MIDict d) \<Rightarrow>
          (case dict_get d ''addr'' of Some (MIStr s) \<Rightarrow> Some s | _ \<Rightarrow> first_frame_addr rs)
      | _ \<Rightarrow> first_frame_addr rs)"

section \<open>The operations\<close>

definition connect :: "connect_target_request \<Rightarrow> (debug_session, backend_connection) prog" where
  "connect request =
     (case ct_endpoint request of
        None \<Rightarrow> throw (Exc DebugSessionError ''connect_target requires an endpoint for this backend'')
      | Some endpoint \<Rightarrow>
          andthen (goto_state CONNECTING ''connect requested'') (\<lambda>_.
          andthen (gets backend_of) (\<lambda>b.
          andthen (on_controller (backend_connect b endpoint (ct_profile request) (ct_timeout_ms request)))
            (\<lambda>conn.
          andthen (modify (\<lambda>s. s\<lparr>connection := Some conn\<rparr>)) (\<lambda>_.
          andthen (goto_state (bc_state conn) ''backend connected'') (\<lambda>_.
          ret conn))))))"

definition disconnect :: "int \<Rightarrow> (debug_session, unit) prog" where
  "disconnect timeout_ms =
     finally_do (andthen (gdb gdb_exit timeout_ms) (\<lambda>_. ret ()))
       (andthen (on_controller close_controller) (\<lambda>_.
        andthen (goto_state DISCONNECTED ''disconnect requested'') (\<lambda>_. ret ())))"

definition halt :: "int \<Rightarrow> (debug_session, halt_data) prog" where
  "halt timeout_ms =
     andthen (gdb exec_interrupt timeout_ms) (\<lambda>result.
     andthen (goto_state HALTED ''target interrupted'') (\<lambda>_.
     ret \<lparr>hd_stop_reason = first_stop_reason (async_records result),
          hd_pc = first_frame_addr (async_records result)\<rparr>))"

text \<open>The two branches of \<open>resume\<close> after \<open>-exec-continue\<close> timed out.\<close>

definition after_timeout :: "bool \<Rightarrow> (debug_session, target_state) prog" where
  "after_timeout auto_interrupt =
     (if auto_interrupt
      then catch (andthen (halt 2000) (\<lambda>_. gets state_of))
             (\<lambda>e. andthen (goto_state DEGRADED (''interrupt failed: '' @ exc_msg e)) (\<lambda>_. gets state_of))
      else andthen (goto_state UNKNOWN ''resume timed out'') (\<lambda>_. gets state_of))"

definition resume :: "int \<Rightarrow> bool \<Rightarrow> (debug_session, target_state) prog" where
  "resume max_run_ms auto_interrupt =
     try_else (gdb exec_continue max_run_ms)
       (\<lambda>e. if exc_of e = MITimeoutError then after_timeout auto_interrupt else throw e)
       (\<lambda>_. andthen (goto_state RUNNING ''target resumed'') (\<lambda>_. gets state_of))"

definition step_instruction :: "int \<Rightarrow> (debug_session, step_instruction_data) prog" where
  "step_instruction timeout_ms =
     andthen (gdb exec_step_instruction timeout_ms) (\<lambda>result.
     andthen (goto_state HALTED ''instruction stepped'') (\<lambda>_.
     ret \<lparr>sid_pc = first_frame_addr (async_records result)\<rparr>))"

text \<open>The group is accepted and not used: both branches of the code return all registers.\<close>

definition read_registers :: "register_group \<Rightarrow> (debug_session, string dict) prog" where
  "read_registers grp =
     andthen (gdb (data_list_register_values ''x'') 3000) (\<lambda>result.
     andthen (gets connection) (\<lambda>conn.
     ret (normalize_registers (parse_register_values (result_record result))
            (case conn of None \<Rightarrow> ''cortex-m'' | Some cn \<Rightarrow> bc_profile cn))))"

definition read_memory :: "string \<Rightarrow> int \<Rightarrow> int \<Rightarrow> int \<Rightarrow> (debug_session, read_memory_data) prog" where
  "read_memory address len width timeout_ms =
     andthen (gdb (data_read_memory_bytes address len) timeout_ms) (\<lambda>result.
     ret \<lparr>rmd_address = address, rmd_length = len, rmd_width = width,
          rmd_data_hex = parse_memory_contents (result_record result)\<rparr>)"

definition check_old_value :: "string \<Rightarrow> string option \<Rightarrow> int \<Rightarrow> (debug_session, unit) prog" where
  "check_old_value address expected timeout_ms =
     (case expected of
        None \<Rightarrow> ret ()
      | Some old \<Rightarrow>
          andthen (lift_res (bytes_fromhex old)) (\<lambda>bs.
          andthen (read_memory address (int (length bs)) 1 timeout_ms) (\<lambda>current.
          if lower (rmd_data_hex current) \<noteq> lower old
          then throw (Exc DebugSessionError ''expected_old_hex did not match current memory'')
          else ret ())))"

definition write_memory ::
  "string \<Rightarrow> string \<Rightarrow> string option \<Rightarrow> int \<Rightarrow> (debug_session, write_memory_data) prog" where
  "write_memory address data_hex expected timeout_ms =
     andthen (check_old_value address expected timeout_ms) (\<lambda>_.
     andthen (gdb (data_write_memory_bytes address data_hex) timeout_ms) (\<lambda>_.
     andthen (lift_res (bytes_fromhex data_hex)) (\<lambda>bs.
     ret \<lparr>wmd_address = address, wmd_bytes_written = int (length bs),
          wmd_verified_old_value = (expected \<noteq> None)\<rparr>)))"

definition set_breakpoint ::
  "breakpoint_location \<Rightarrow> breakpoint_type \<Rightarrow> bool \<Rightarrow> int \<Rightarrow> (debug_session, breakpoint_data) prog" where
  "set_breakpoint location btype temporary timeout_ms =
     andthen (gdb (break_insert (loc_value location) btype temporary) timeout_ms) (\<lambda>result.
     ret \<lparr>bd_breakpoint_id = parse_breakpoint_id (result_record result), bd_location = location,
          bd_type = btype, bd_temporary = temporary\<rparr>)"

definition clear_breakpoint :: "string \<Rightarrow> int \<Rightarrow> (debug_session, clear_breakpoint_data) prog" where
  "clear_breakpoint breakpoint_id timeout_ms =
     andthen (gdb (break_delete breakpoint_id) timeout_ms) (\<lambda>_.
     ret \<lparr>cbd_breakpoint_id = breakpoint_id, cbd_removed = True\<rparr>)"

definition reset_with ::
  "(reset_mode \<Rightarrow> int \<Rightarrow> (controller, target_state) prog) option \<Rightarrow> reset_mode \<Rightarrow> int
   \<Rightarrow> (debug_session, target_state) prog" where
  "reset_with resetter mode timeout_ms =
     (case resetter of
        Some reset \<Rightarrow>
          andthen (on_controller (reset mode timeout_ms)) (\<lambda>st.
          andthen (goto_state st (''backend reset '' @ reset_value mode @ '' requested'')) (\<lambda>_.
          gets state_of))
      | None \<Rightarrow>
          andthen (if mode = RESET_HALT then goto_state HALTED ''reset halt requested''
                   else goto_state RUNNING ''reset run requested'') (\<lambda>_.
          gets state_of))"

definition reset_target :: "reset_mode \<Rightarrow> int \<Rightarrow> (debug_session, target_state) prog" where
  "reset_target mode timeout_ms s =
     reset_with (backend_resetter (backend_of s)) mode timeout_ms s"

definition symbol_context :: "string \<Rightarrow> int \<Rightarrow> int \<Rightarrow> (debug_session, symbol_context) prog" where
  "symbol_context address instruction_count timeout_ms =
     andthen
       (catch (andthen (gdb stack_info_frame timeout_ms) (\<lambda>r. ret (dict_get (results (result_record r)) ''frame'')))
              (\<lambda>_. ret None)) (\<lambda>frame.
     andthen
       (if 0 < instruction_count
        then catch (andthen (gdb (data_disassemble address instruction_count) timeout_ms)
                     (\<lambda>r. ret (dict_get (results (result_record r)) ''asm_insns'')))
               (\<lambda>_. ret None)
        else ret None) (\<lambda>asm_insns.
     ret (symbol_context_from_mi address frame asm_insns)))"

section \<open>Invariants of every operation\<close>

definition session_ok :: "debug_session \<Rightarrow> bool" where
  "session_ok s \<longleftrightarrow> controller_ok (controller_of s) \<and> linked DISCONNECTED (machine s)"

lemma new_session_ok: "controller_ok c \<Longrightarrow> session_ok (new_session c b sid)"
  by (simp add: session_ok_def new_session_def linked_new)

lemma keeps_on_controller [keeps_intros]:
  "keeps controller_ok m \<Longrightarrow> keeps session_ok (on_controller m)"
  unfolding on_controller_def by (erule keeps_zoom) (simp_all add: session_ok_def)

lemma keeps_on_machine [keeps_intros]:
  "keeps (linked DISCONNECTED) m \<Longrightarrow> keeps session_ok (on_machine m)"
  unfolding on_machine_def by (erule keeps_zoom) (simp_all add: session_ok_def)

lemma keeps_set_connection [keeps_intros]:
  "keeps session_ok (modify (\<lambda>s. s\<lparr>connection := c\<rparr>))"
  by (rule keeps_modify) (simp add: session_ok_def)

text \<open>
  \<open>session_extends P\<close>: the session has sent only commands that satisfy \<open>P\<close>, its history has
  only grown, and it is still the same session on the same adapter.
\<close>

definition session_extends :: "(mi_command \<Rightarrow> bool) \<Rightarrow> debug_session \<Rightarrow> debug_session \<Rightarrow> bool" where
  "session_extends P s t \<longleftrightarrow>
     extends P (controller_of s) (controller_of t) \<and> history_extends (machine s) (machine t)
     \<and> backend_of t = backend_of s \<and> session_id t = session_id s"

interpretation session_order: effect_order "session_extends P" for P
proof
  fix s t u :: debug_session
  show "session_extends P s s"
    by (simp add: session_extends_def written.R_refl history.R_refl)
  show "session_extends P s u" if "session_extends P s t" "session_extends P t u"
    using that written.R_trans history.R_trans by (auto simp: session_extends_def)
qed

lemma ensures_on_controller:
  "ensures (extends P) m \<Longrightarrow> ensures (session_extends P) (on_controller m)"
  unfolding on_controller_def
  by (erule ensures_zoom) (simp add: session_extends_def history.R_refl)

lemma ensures_on_machine:
  "ensures history_extends m \<Longrightarrow> ensures (session_extends P) (on_machine m)"
  unfolding on_machine_def
  by (erule ensures_zoom) (simp add: session_extends_def written.R_refl)

lemma ensures_set_connection:
  "ensures (session_extends P) (modify (\<lambda>s. s\<lparr>connection := c\<rparr>))"
  by (rule session_order.ensures_modify)
    (simp add: session_extends_def written.R_refl history.R_refl)

lemma ensures_gdb: "P cmd \<Longrightarrow> ensures (session_extends P) (gdb cmd t)"
  by (intro ensures_on_controller ensures_execute)

lemmas session_ensures =
  session_order.ensures_intros ensures_gdb ensures_on_controller ensures_on_machine
  ensures_transition ensures_set_connection ensures_close ensures_openocd_reset
  adapter.connect_writes

lemma session_extends_mono:
  "session_extends P s t \<Longrightarrow> (\<And>cmd. P cmd \<Longrightarrow> Q cmd) \<Longrightarrow> session_extends Q s t"
  unfolding session_extends_def using extends_mono by blast

text \<open>One invariant rule and one effect rule per operation.\<close>

lemma keeps_connect [keeps_intros]: "keeps session_ok (connect req)"
  unfolding connect_def by (intro keeps_intros adapter.connect_keeps_controller)

lemma keeps_disconnect [keeps_intros]: "keeps session_ok (disconnect t)"
  unfolding disconnect_def by (intro keeps_intros)

lemma keeps_halt [keeps_intros]: "keeps session_ok (halt t)"
  unfolding halt_def by (intro keeps_intros)

lemma keeps_after_timeout: "keeps session_ok (after_timeout b)"
  unfolding after_timeout_def by (intro keeps_intros)

lemma keeps_resume [keeps_intros]: "keeps session_ok (resume t b)"
  unfolding resume_def by (intro keeps_intros keeps_after_timeout)

lemma keeps_step [keeps_intros]: "keeps session_ok (step_instruction t)"
  unfolding step_instruction_def by (intro keeps_intros)

lemma keeps_read_registers [keeps_intros]: "keeps session_ok (read_registers g)"
  unfolding read_registers_def by (intro keeps_intros)

lemma keeps_read_memory [keeps_intros]: "keeps session_ok (read_memory a l w t)"
  unfolding read_memory_def by (intro keeps_intros)

lemma keeps_write_memory [keeps_intros]: "keeps session_ok (write_memory a d e t)"
  unfolding write_memory_def check_old_value_def by (intro keeps_intros)

lemma keeps_set_breakpoint [keeps_intros]: "keeps session_ok (set_breakpoint l b tmp t)"
  unfolding set_breakpoint_def by (intro keeps_intros)

lemma keeps_clear_breakpoint [keeps_intros]: "keeps session_ok (clear_breakpoint i t)"
  unfolding clear_breakpoint_def by (intro keeps_intros)

lemma keeps_reset_with: "r = None \<or> r = Some openocd_reset \<Longrightarrow> keeps session_ok (reset_with r m t)"
  unfolding reset_with_def by (auto intro!: keeps_intros keeps_openocd_reset)

lemma resetter_cases: "backend_resetter b = None \<or> backend_resetter b = Some openocd_reset"
  by (cases b) simp_all

lemma keeps_reset_target [keeps_intros]: "keeps session_ok (reset_target m t)"
proof (rule keepsI)
  fix s assume "session_ok s"
  then show "session_ok (snd (reset_target m t s))"
    unfolding reset_target_def by (rule keepsD [OF keeps_reset_with [OF resetter_cases]])
qed

lemma keeps_symbol_context [keeps_intros]: "keeps session_ok (symbol_context a n t)"
  unfolding symbol_context_def by (intro keeps_intros)

section \<open>What an operation may send\<close>

lemma ensures_connect:
  "(\<And>e. P (target_select e True)) \<Longrightarrow> ensures (session_extends P) (connect req)"
  unfolding connect_def by (intro session_ensures)

lemma ensures_disconnect: "P gdb_exit \<Longrightarrow> ensures (session_extends P) (disconnect t)"
  unfolding disconnect_def by (intro session_ensures)

lemma ensures_halt: "P exec_interrupt \<Longrightarrow> ensures (session_extends P) (halt t)"
  unfolding halt_def by (intro session_ensures)

lemma ensures_after_timeout: "P exec_interrupt \<Longrightarrow> ensures (session_extends P) (after_timeout b)"
  unfolding after_timeout_def by (intro session_ensures ensures_halt)

lemma ensures_resume:
  "P exec_continue \<Longrightarrow> P exec_interrupt \<Longrightarrow> ensures (session_extends P) (resume t b)"
  unfolding resume_def by (intro session_ensures ensures_after_timeout)

lemma ensures_step: "P exec_step_instruction \<Longrightarrow> ensures (session_extends P) (step_instruction t)"
  unfolding step_instruction_def by (intro session_ensures)

lemma ensures_read_registers:
  "P (data_list_register_values ''x'') \<Longrightarrow> ensures (session_extends P) (read_registers g)"
  unfolding read_registers_def by (intro session_ensures)

lemma ensures_read_memory:
  "P (data_read_memory_bytes a l) \<Longrightarrow> ensures (session_extends P) (read_memory a l w t)"
  unfolding read_memory_def by (intro session_ensures)

lemma ensures_check_old_value:
  "(\<And>l. P (data_read_memory_bytes a l)) \<Longrightarrow> ensures (session_extends P) (check_old_value a e t)"
  unfolding check_old_value_def by (intro session_ensures ensures_read_memory)

lemma ensures_write_memory:
  assumes "\<And>l. P (data_read_memory_bytes a l)" and "P (data_write_memory_bytes a d)"
  shows "ensures (session_extends P) (write_memory a d e t)"
  unfolding write_memory_def by (intro session_ensures ensures_check_old_value assms)

lemma ensures_set_breakpoint:
  "P (break_insert (loc_value l) b tmp) \<Longrightarrow> ensures (session_extends P) (set_breakpoint l b tmp t)"
  unfolding set_breakpoint_def by (intro session_ensures)

lemma ensures_clear_breakpoint:
  "P (break_delete i) \<Longrightarrow> ensures (session_extends P) (clear_breakpoint i t)"
  unfolding clear_breakpoint_def by (intro session_ensures)

lemma ensures_reset_with:
  assumes "P (reset_command m)" and "r = None \<or> r = Some openocd_reset"
  shows "ensures (session_extends P) (reset_with r m t)"
  using assms(2)
proof
  assume r: "r = None"
  show ?thesis unfolding reset_with_def r option.case by (intro session_ensures)
next
  assume r: "r = Some openocd_reset"
  show ?thesis unfolding reset_with_def r option.case by (intro session_ensures assms(1))
qed

lemma ensures_reset_target: "P (reset_command m) \<Longrightarrow> ensures (session_extends P) (reset_target m t)"
  using ensuresD [OF ensures_reset_with [OF _ resetter_cases]]
  by (intro ensuresI) (simp add: reset_target_def)

lemma ensures_symbol_context:
  assumes "P stack_info_frame" and "P (data_disassemble a n)"
  shows "ensures (session_extends P) (symbol_context a n t)"
  unfolding symbol_context_def by (intro session_ensures assms)

text \<open>Commands that only read, and commands that stay on the console allowlist.\<close>

definition reading :: "mi_command \<Rightarrow> bool" where
  "reading c \<longleftrightarrow> cmd_name c \<in> {DATA_LIST_REGISTER_VALUES, DATA_READ_MEMORY_BYTES,
     STACK_INFO_FRAME, DATA_DISASSEMBLE}"

definition allowlisted :: "mi_command \<Rightarrow> bool" where
  "allowlisted c \<longleftrightarrow> (cmd_name c = INTERPRETER_EXEC \<longrightarrow>
     (\<exists>x \<in> set allowlisted_console_commands. cmd_args c = [''console'', x]))"

lemma reading_commands [simp]:
  "reading (data_list_register_values f)" "reading (data_read_memory_bytes a l)"
  "reading stack_info_frame" "reading (data_disassemble a n)"
  by (simp_all add: reading_def builder_defs)

lemma allowlisted_commands [simp]:
  "allowlisted (target_select e x)" "allowlisted gdb_exit" "allowlisted exec_interrupt"
  "allowlisted exec_continue" "allowlisted exec_step_instruction"
  "allowlisted (data_list_register_values f)" "allowlisted (data_read_memory_bytes a l)"
  "allowlisted (data_write_memory_bytes a d)" "allowlisted stack_info_frame"
  "allowlisted (data_disassemble a n)" "allowlisted (break_insert loc b tmp)"
  "allowlisted (break_delete i)" "allowlisted (reset_command m)"
  by (simp_all add: allowlisted_def builder_defs reset_command_def allowlisted_console_commands_def)

lemmas session_effects =
  ensures_connect ensures_disconnect ensures_halt ensures_resume ensures_step
  ensures_read_registers ensures_read_memory ensures_write_memory ensures_set_breakpoint
  ensures_clear_breakpoint ensures_reset_target ensures_symbol_context

section \<open>Outcomes\<close>

lemma on_controllerD:
  assumes "on_controller m s = (r, s')"
  obtains c where "m (controller_of s) = (r, c)" and "s' = s\<lparr>controller_of := c\<rparr>"
  using assms by (auto simp: on_controller_def zoom_def split: prod.splits)

lemma goto_stateD:
  assumes "goto_state to why s = (r, s')"
  obtains (refused) e where "r = Inl e" "exc_of e = StateTransitionError" "s' = s"
      "\<not> allowed (state_of s) to"
    | (moved) tr where "r = Inr tr" "allowed (state_of s) to" "state_of s' = to"
      "controller_of s' = controller_of s" "connection s' = connection s"
proof -
  obtain m where m: "transition to why (machine s) = (r, m)" "s' = s\<lparr>machine := m\<rparr>"
    using assms by (auto simp: on_machine_def zoom_def split: prod.splits)
  from m(1) show thesis
  proof (cases rule: transition_cases)
    case (refused e)
    then show thesis using that(1) [of e] m by (simp add: state_of_def)
  next
    case (moved tr)
    then show thesis using that(2) [of tr] m by (simp add: state_of_def)
  qed
qed

lemma state_of_on_controller: "on_controller m s = (r, s') \<Longrightarrow> state_of s' = state_of s"
  by (auto elim: on_controllerD simp: state_of_def)

lemma goto_state_Inr: "goto_state to why s = (Inr tr, s') \<Longrightarrow> state_of s' = to"
  by (auto elim: goto_stateD)

lemma goto_state_allowed: "allowed (state_of s) to \<Longrightarrow> \<exists>tr s'. goto_state to why s = (Inr tr, s')"
  using goto_stateD [of to why s] by (metis prod.exhaust_sel)

text \<open>A disconnect closes the transport and leaves the session disconnected, whatever GDB did.\<close>

lemma close_effect:
  "on_controller close_controller s = (Inr (), s\<lparr>controller_of :=
     (controller_of s)\<lparr>transport_of := (transport_of (controller_of s))\<lparr>closed := True\<rparr>\<rparr>\<rparr>)"
  by (simp add: on_controller_def zoom_def close_controller_effect)

lemma disconnect_outcome:
  assumes "disconnect t s = (r, s')"
  shows "closed (transport_of (controller_of s')) \<and> state_of s' = DISCONNECTED"
proof -
  obtain x s1 where 1: "andthen (gdb gdb_exit t) (\<lambda>_. ret ()) s = (x, s1)" by fastforce
  obtain s2 where 2: "on_controller close_controller s1 = (Inr (), s2)"
      and closed: "closed (transport_of (controller_of s2))"
    by (simp add: close_effect)
  obtain tr s3 where 3: "goto_state DISCONNECTED ''disconnect requested'' s2 = (Inr tr, s3)"
    using goto_state_allowed allowed_disconnect by blast
  have "s' = s3" using assms 1 2 3 by (simp add: disconnect_def finally_do_def andthen_def)
  moreover have "controller_of s3 = controller_of s2" "state_of s3 = DISCONNECTED"
    using 3 by (auto elim: goto_stateD)
  ultimately show ?thesis using closed by simp
qed

lemma halt_success:
  assumes "halt t s = (Inr x, s')"
  shows "state_of s' = HALTED"
  using assms unfolding halt_def by (auto elim!: andthen_InrD dest: goto_state_Inr)

text \<open>
  The outcomes of a resume. With \<open>auto_interrupt\<close> the session is never left \<open>UNKNOWN\<close>: a
  target that did not stop in time is halted, or the session is degraded.
\<close>

lemma after_timeout_success:
  assumes "after_timeout b s = (Inr st, s')"
  shows "state_of s' = st \<and> (if b then st = HALTED \<or> st = DEGRADED else st = UNKNOWN)"
proof (cases b)
  case True
  obtain r s1 where h: "halt 2000 s = (r, s1)" by fastforce
  show ?thesis
  proof (cases r)
    case (Inl e)
    then have "andthen (goto_state DEGRADED (''interrupt failed: '' @ exc_msg e)) (\<lambda>_. gets state_of) s1
        = (Inr st, s')"
      using assms True h by (simp add: after_timeout_def catch_def andthen_def)
    then show ?thesis using True by (auto elim!: andthen_InrD dest: goto_state_Inr)
  next
    case (Inr x)
    then show ?thesis
      using assms True h halt_success [of 2000 s x s1]
      by (simp add: after_timeout_def catch_def andthen_def)
  qed
next
  case False
  then show ?thesis
    using assms by (auto simp: after_timeout_def elim!: andthen_InrD dest: goto_state_Inr)
qed

lemma resume_success:
  assumes "resume t b s = (Inr st, s')"
  shows "state_of s' = st \<and> (st = RUNNING \<or> (if b then st = HALTED \<or> st = DEGRADED else st = UNKNOWN))"
proof -
  obtain r s1 where g: "gdb exec_continue t s = (r, s1)" by fastforce
  show ?thesis
  proof (cases r)
    case (Inl e)
    then show ?thesis using assms g after_timeout_success [of b s1 st s']
      by (auto simp: resume_def try_else_def split: if_splits)
  next
    case (Inr x)
    then show ?thesis using assms g
      by (auto simp: resume_def try_else_def elim!: andthen_InrD dest: goto_state_Inr)
  qed
qed

text \<open>
  The whole of it: which answers of GDB lead to which state. A halt or a resume that raises leaves the
  state as it was.
\<close>

lemma gdb_state: "gdb cmd t s = (r, s') \<Longrightarrow> state_of s' = state_of s"
  by (auto simp: on_controller_def zoom_def state_of_def split: prod.splits)

lemma goto_state_Inl: "goto_state to why s = (Inl e, s') \<Longrightarrow> s' = s"
  by (auto simp: on_machine_def zoom_def transition_def Let_def split: prod.splits if_splits)

lemma halt_failure:
  assumes "halt t s = (Inl e, s')"
  shows "state_of s' = state_of s"
  using assms unfolding halt_def
  by (auto elim!: andthen_InlD dest: gdb_state goto_state_Inl)

lemma after_timeout_outcome:
  "case after_timeout b s of
     (Inl e, s') \<Rightarrow> state_of s' = state_of s
   | (Inr st, s') \<Rightarrow> state_of s' = st
       \<and> st = (if \<not> b then UNKNOWN else if isl (fst (halt 2000 s)) then DEGRADED else HALTED)"
proof (cases b)
  case True
  obtain r s1 where h: "halt 2000 s = (r, s1)" by fastforce
  show ?thesis
  proof (cases r)
    case (Inl e)
    then have "state_of s1 = state_of s" using h halt_failure by blast
    then show ?thesis using Inl True h
      by (cases "goto_state DEGRADED (''interrupt failed: '' @ exc_msg e) s1")
        (auto simp: after_timeout_def catch_def andthen_def split: sum.split dest: goto_state_Inl goto_state_Inr)
  next
    case (Inr x)
    then show ?thesis using True h halt_success [of 2000 s x s1]
      by (simp add: after_timeout_def catch_def andthen_def)
  qed
next
  case False
  then show ?thesis
    by (cases "goto_state UNKNOWN ''resume timed out'' s")
      (auto simp: after_timeout_def andthen_def split: sum.split dest: goto_state_Inl goto_state_Inr)
qed

lemma resume_outcome:
  "case resume n b s of
     (Inl e, s') \<Rightarrow> state_of s' = state_of s
   | (Inr st, s') \<Rightarrow> state_of s' = st
       \<and> (case gdb exec_continue n s of
            (Inr x, s1) \<Rightarrow> st = RUNNING
          | (Inl e, s1) \<Rightarrow> exc_of e = MITimeoutError
              \<and> st = (if \<not> b then UNKNOWN else if isl (fst (halt 2000 s1)) then DEGRADED else HALTED))"
proof -
  obtain r s1 where g: "gdb exec_continue n s = (r, s1)" by fastforce
  have s1: "state_of s1 = state_of s" using g by (rule gdb_state)
  show ?thesis
  proof (cases r)
    case (Inl e)
    then show ?thesis using g s1 after_timeout_outcome [where b = b and s = s1]
      by (auto simp: resume_def try_else_def throw_def split: prod.splits sum.splits)
  next
    case (Inr x)
    then show ?thesis using g s1
      by (cases "goto_state RUNNING ''target resumed'' s1")
        (auto simp: resume_def try_else_def andthen_def split: sum.split dest: goto_state_Inl goto_state_Inr)
  qed
qed

text \<open>
  A target that answered \<open>^running\<close> is reported running: nothing interrupts it afterwards,
  however long it runs.
\<close>

lemma resume_running:
  assumes "execute exec_continue t (controller_of s) = (Inr res, c)" and "allowed (state_of s) RUNNING"
  shows "\<exists>s'. resume t b s = (Inr RUNNING, s') \<and> controller_of s' = c"
proof -
  have g: "gdb exec_continue t s = (Inr res, s\<lparr>controller_of := c\<rparr>)"
    using assms(1) by (simp add: on_controller_def zoom_def)
  have "allowed (state_of (s\<lparr>controller_of := c\<rparr>)) RUNNING"
    using assms(2) by (simp add: state_of_def)
  then obtain tr s' where n: "goto_state RUNNING ''target resumed'' (s\<lparr>controller_of := c\<rparr>) = (Inr tr, s')"
    using goto_state_allowed by blast
  then have "state_of s' = RUNNING" "controller_of s' = c" by (auto elim: goto_stateD)
  with g n show ?thesis by (simp add: resume_def try_else_def andthen_def)
qed

text \<open>Compare-before-write: when the check fails nothing but reads was sent.\<close>

lemma write_memory_refused:
  assumes "check_old_value a (Some old) t s = (Inl e, s')"
  shows "write_memory a d (Some old) t s = (Inl e, s') \<and> session_extends reading s s'"
proof -
  have "session_extends reading s (snd (check_old_value a (Some old) t s))"
    by (intro ensuresD [of "session_extends reading"] ensures_check_old_value) simp
  then show ?thesis using assms by (simp add: write_memory_def andthen_def)
qed

lemma write_memory_success:
  assumes "write_memory a d (Some old) t s = (Inr x, s')"
  obtains bs res c res' where "bytes_fromhex old = Inr bs"
    and "execute (data_read_memory_bytes a (int (length bs))) t (controller_of s) = (Inr res, c)"
    and "lower (parse_memory_contents (result_record res)) = lower old"
    and "execute (data_write_memory_bytes a d) t c = (Inr res', controller_of s')"
    and "wmd_verified_old_value x"
proof -
  obtain u s1 where 1: "check_old_value a (Some old) t s = (Inr u, s1)"
      and 2: "andthen (gdb (data_write_memory_bytes a d) t) (\<lambda>_.
        andthen (lift_res (bytes_fromhex d)) (\<lambda>bs. ret \<lparr>wmd_address = a,
          wmd_bytes_written = int (length bs), wmd_verified_old_value = (Some old \<noteq> None)\<rparr>)) s1 = (Inr x, s')"
    using assms unfolding write_memory_def by (rule andthen_InrD) (rule that)
  obtain bs where bs: "bytes_fromhex old = Inr bs"
    using 1 by (cases "bytes_fromhex old") (simp_all add: check_old_value_def andthen_def)
  obtain res c where r: "execute (data_read_memory_bytes a (int (length bs))) t (controller_of s) = (Inr res, c)"
      and eq: "lower (parse_memory_contents (result_record res)) = lower old"
      and s1: "s1 = s\<lparr>controller_of := c\<rparr>"
    using 1 bs by (auto simp: check_old_value_def read_memory_def andthen_def elim!: on_controllerD
        split: prod.splits sum.splits if_splits)
  obtain res' s2 where w: "gdb (data_write_memory_bytes a d) t s1 = (Inr res', s2)"
      and s2: "s2 = s'" "wmd_verified_old_value x"
    using 2 by (auto simp: andthen_def split: prod.splits sum.splits)
  have "execute (data_write_memory_bytes a d) t c = (Inr res', controller_of s')"
    using w s1 s2(1) by (auto elim!: on_controllerD)
  then show thesis using that bs r eq s2(2) by blast
qed

text \<open>On an adapter without a resetter the state changes and GDB is not told.\<close>

lemma reset_without_resetter:
  assumes "backend_resetter (backend_of s) = None"
    and "allowed (state_of s) (if m = RESET_HALT then HALTED else RUNNING)"
  shows "\<exists>s'. reset_target m t s = (Inr (if m = RESET_HALT then HALTED else RUNNING), s')
    \<and> controller_of s' = controller_of s"
proof -
  define to where "to = (if m = RESET_HALT then HALTED else RUNNING)"
  define why where "why = (if m = RESET_HALT then ''reset halt requested'' else ''reset run requested'')"
  obtain tr s' where g: "goto_state to why s = (Inr tr, s')"
    using goto_state_allowed assms(2) unfolding to_def by blast
  then have "state_of s' = to" "controller_of s' = controller_of s" by (auto elim: goto_stateD)
  moreover have "reset_target m t s = andthen (goto_state to why) (\<lambda>_. gets state_of) s"
    using assms(1) by (simp add: reset_target_def reset_with_def to_def why_def)
  ultimately show ?thesis using g by (simp add: andthen_def to_def)
qed

text \<open>Connecting: success leaves the target's state unknown; failure leaves \<open>CONNECTING\<close>.\<close>

lemma connect_success:
  assumes "connect req s = (Inr conn, s')"
  shows "state_of s' = UNKNOWN \<and> connection s' = Some conn \<and> ct_endpoint req = Some (bc_endpoint conn)
    \<and> bc_backend conn = backend_kind_of (backend_of s) \<and> bc_profile conn = ct_profile req"
proof (cases "ct_endpoint req")
  case (Some e)
  obtain tr s1 s2 tr' where 1: "goto_state CONNECTING ''connect requested'' s = (Inr tr, s1)"
      and 2: "on_controller (backend_connect (backend_of s1) e (ct_profile req) (ct_timeout_ms req)) s1
        = (Inr conn, s2)"
      and 3: "goto_state (bc_state conn) ''backend connected'' (s2\<lparr>connection := Some conn\<rparr>) = (Inr tr', s')"
    using assms Some by (auto simp: connect_def andthen_def split: prod.splits sum.splits)
  have "backend_of s1 = backend_of s"
    using 1 by (auto simp: on_machine_def zoom_def split: prod.splits)
  then have "bc_backend conn = backend_kind_of (backend_of s) \<and> bc_endpoint conn = e
      \<and> bc_profile conn = ct_profile req \<and> bc_state conn = UNKNOWN"
    using 2 adapter.connect_ok by (auto elim!: on_controllerD)
  moreover have "state_of s' = bc_state conn" "connection s' = Some conn"
    using 3 by (auto elim!: goto_stateD)
  ultimately show ?thesis using Some by simp
qed (use assms in \<open>simp add: connect_def\<close>)

lemma connect_failure:
  assumes "connect req s = (Inl e, s')" and "ct_endpoint req \<noteq> None" and "allowed (state_of s) CONNECTING"
  shows "state_of s' = CONNECTING \<and> connection s' = connection s"
proof -
  obtain ep where ep: "ct_endpoint req = Some ep" using assms(2) by auto
  obtain tr s1 where 1: "goto_state CONNECTING ''connect requested'' s = (Inr tr, s1)"
    using goto_state_allowed [OF assms(3)] by blast
  then have s1: "state_of s1 = CONNECTING" "connection s1 = connection s" by (auto elim: goto_stateD)
  obtain r s2 where 2: "on_controller (backend_connect (backend_of s1) ep (ct_profile req) (ct_timeout_ms req)) s1
      = (r, s2)" by fastforce
  have s2: "state_of s2 = CONNECTING" "connection s2 = connection s"
    using 2 s1 by (auto elim!: on_controllerD simp: state_of_def)
  show ?thesis
  proof (cases r)
    case (Inl x)
    then show ?thesis using assms(1) ep 1 2 s2 by (simp add: connect_def andthen_def)
  next
    case (Inr conn)
    then have "bc_state conn = UNKNOWN" using 2 adapter.connect_ok by (auto elim!: on_controllerD)
    moreover have "allowed (state_of (s2\<lparr>connection := Some conn\<rparr>)) UNKNOWN"
      using s2 by (simp add: state_of_def allowed_def)
    then obtain tr' s3 where "goto_state UNKNOWN ''backend connected'' (s2\<lparr>connection := Some conn\<rparr>) = (Inr tr', s3)"
      using goto_state_allowed by blast
    ultimately show ?thesis using assms(1) ep 1 2 Inr by (simp add: connect_def andthen_def)
  qed
qed

section \<open>Replies of GDB\<close>

text \<open>The documented shapes of GDB's replies, and what the session reads out of them.\<close>

definition gdb_registers :: "(string \<times> string) list \<Rightarrow> mi_value" where
  "gdb_registers regs =
     MIList (map (\<lambda>(n, v). MIDict [(''number'', MIStr n), (''value'', MIStr v)]) regs)"

definition gdb_memory :: "string \<Rightarrow> string \<Rightarrow> string \<Rightarrow> mi_value" where
  "gdb_memory start stop contents =
     MIList [MIDict [(''begin'', MIStr start), (''offset'', MIStr ''0x00000000''),
                     (''end'', MIStr stop), (''contents'', MIStr contents)]]"

lemma map_filter_all:
  "(\<And>x. x \<in> set xs \<Longrightarrow> f (g x) = Some x) \<Longrightarrow> List.map_filter f (map g xs) = xs"
  by (induction xs) (simp_all add: List.map_filter_simps)

lemma parse_register_values_reply:
  "dict_get (results r) ''register-values'' = Some (gdb_registers regs) \<Longrightarrow>
   parse_register_values r = dict_of regs"
  by (simp add: parse_register_values_def gdb_registers_def map_filter_all register_entry_def
      split: prod.split)

lemma parse_memory_contents_reply:
  "dict_get (results r) ''memory'' = Some (gdb_memory start stop contents) \<Longrightarrow>
   parse_memory_contents r = contents"
  by (simp add: parse_memory_contents_def gdb_memory_def block_contents_def)

lemma parse_memory_contents_missing:
  "dict_get (results r) ''memory'' = None \<Longrightarrow> dict_get (results r) ''contents'' = None \<Longrightarrow>
   parse_memory_contents r = []"
  by (simp add: parse_memory_contents_def top_contents_def)

lemma wf_gdb_memory: "wf_results [(''memory'', gdb_memory start stop contents)]"
  by (simp add: wf_results_def gdb_memory_def dict_ok_def is_identifier_def identifier_start_def
      identifier_part_def char_class_defs)

text \<open>
  Reading memory, from the request to the bytes: GDB prints its reply to the token, possibly
  after other output, and the session returns the contents that GDB printed.
\<close>

lemma read_memory_answered:
  assumes "controller_of s = c" and "queued_commands c < max_queued_commands c"
    and "0 \<le> queued_commands c" and "write_faults (transport_of c) = []"
    and "inbox (transport_of c) = map Line ls @ Line (print_mi_record (Some (next_token c)) (CHR ''^'')
          ''done'' [(''memory'', gdb_memory start stop contents)] @ eol) # es"
    and "\<forall>l \<in> set ls. passes (next_token c) l"
    and "length (nat_str (next_token c)) \<le> 4300" and "list_all is_eol eol"
  shows "\<exists>s'. read_memory a len w t s =
    (Inr \<lparr>rmd_address = a, rmd_length = len, rmd_width = w, rmd_data_hex = contents\<rparr>, s')"
proof -
  have cls: "is_identifier ''done''" "''done'' \<noteq> ''error''"
    by (simp_all add: is_identifier_def identifier_start_def identifier_part_def char_class_defs)
  obtain d as ss raw where "execute (data_read_memory_bytes a len) t c = (Inr \<lparr>result_record =
      \<lparr>rec_kind = RESULT, record_class = ''done'', results = [(''memory'', gdb_memory start stop contents)],
        raw = raw, token = Some (next_token c)\<rparr>, async_records = as, stream_records = ss\<rparr>, d)"
    using execute_answered [OF assms(2-6) cls wf_gdb_memory assms(7,8)] by blast
  then show ?thesis
    using assms(1) parse_memory_contents_reply
    by (simp add: read_memory_def on_controller_def zoom_def andthen_def)
qed

end
