(* ===== verification/Session_Manager.thy ===== *)
theory Session_Manager
  imports Debug_Session
begin

text \<open>
  The session manager (\<open>sessions/manager.py\<close>): a dict of the active sessions by id. The
  invariant is that every session is stored under its own id and satisfies its own invariant.
\<close>

type_synonym session_manager = "debug_session dict"

definition add_session :: "debug_session \<Rightarrow> session_manager \<Rightarrow> session_manager" where
  "add_session s m = dict_set (session_id s) s m"

text \<open>\<open>SessionNotFoundError\<close> is a \<open>KeyError\<close>: its text is the \<open>repr\<close> of the id.\<close>

definition get_session :: "string \<Rightarrow> session_manager \<Rightarrow> debug_session res" where
  "get_session sid m =
     (case dict_get m sid of None \<Rightarrow> Inl (Exc SessionNotFoundError (py_repr sid)) | Some s \<Rightarrow> Inr s)"

definition remove_session :: "string \<Rightarrow> (session_manager, debug_session) prog" where
  "remove_session sid m =
     (case dict_get m sid of
        None \<Rightarrow> (Inl (Exc SessionNotFoundError (py_repr sid)), m)
      | Some s \<Rightarrow> (Inr s, dict_del sid m))"

definition list_ids :: "session_manager \<Rightarrow> string list" where
  "list_ids m = sorted_keys m"

definition manager_ok :: "session_manager \<Rightarrow> bool" where
  "manager_ok m \<longleftrightarrow> dict_ok m \<and> (\<forall>(sid, s) \<in> set m. session_id s = sid \<and> session_ok s)"

lemma manager_ok_Nil [simp]: "manager_ok []"
  by (simp add: manager_ok_def)

lemma manager_okD:
  assumes "manager_ok m" and "dict_get m sid = Some s"
  shows "session_id s = sid \<and> session_ok s"
  using assms map_of_SomeD [OF assms(2)] by (auto simp: manager_ok_def)

lemma manager_ok_set:
  assumes "manager_ok m" and "session_id s = sid" and "session_ok s"
  shows "manager_ok (dict_set sid s m)"
  using assms set_dict_set [of sid s m] by (auto simp: manager_ok_def)

lemma manager_ok_add: "manager_ok m \<Longrightarrow> session_ok s \<Longrightarrow> manager_ok (add_session s m)"
  by (simp add: add_session_def manager_ok_set)

lemma manager_ok_del: "manager_ok m \<Longrightarrow> manager_ok (dict_del sid m)"
  by (auto simp: manager_ok_def dict_del_def dict_ok_def distinct_map_filter)

lemma keeps_remove [keeps_intros]: "keeps manager_ok (remove_session sid)"
  by (rule keepsI) (simp add: remove_session_def manager_ok_del split: option.split)

lemma get_add_session: "get_session (session_id s) (add_session s m) = Inr s"
  by (simp add: get_session_def add_session_def)

lemma get_removed: "remove_session sid m = (Inr s, m') \<Longrightarrow> \<exists>e. get_session sid m' = Inl e"
  by (auto simp: remove_session_def get_session_def split: option.splits)

lemma list_ids_get: "sid \<in> set (list_ids m) \<longleftrightarrow> (\<exists>s. get_session sid m = Inr s)"
proof -
  have "sid \<in> set (list_ids m) \<longleftrightarrow> dict_get m sid \<noteq> None"
    by (simp add: list_ids_def map_of_eq_None_iff)
  then show ?thesis by (simp add: get_session_def split: option.split)
qed

lemma length_list_ids [simp]: "length (list_ids m) = length m"
  by (simp add: list_ids_def)

end
