(* ===== verification/Safety_Policy.thy ===== *)
theory Safety_Policy
  imports Schemas
begin

text \<open>
  The safety policy (\<open>safety/policy.py\<close>) and the resource limits (\<open>safety/limits.py\<close>).
  \<open>evaluate\<close> is the policy engine, with one definition per method. \<open>permits\<close> is the contract
  in one formula, and \<open>evaluate_allows\<close> proves that the engine implements it; monotonicity,
  the interlock and the read-only guarantees follow from it.
\<close>

datatype debug_operation =
    OP_CONNECT_TARGET | OP_DISCONNECT_TARGET | OP_HALT | OP_RESUME | OP_STEP_INSTRUCTION
  | OP_RESET_TARGET | OP_READ_REGISTERS | OP_READ_MEMORY | OP_WRITE_MEMORY | OP_SET_BREAKPOINT
  | OP_CLEAR_BREAKPOINT | OP_DEBUG_SNAPSHOT | OP_ANALYZE_FAULT | OP_COMPARE_SNAPSHOTS
  | OP_EXPLAIN_CURRENT_STATE | OP_INSPECT_PERIPHERAL | OP_SUGGEST_NEXT_DEBUG_STEPS

primrec operation_value :: "debug_operation \<Rightarrow> string" where
  "operation_value OP_CONNECT_TARGET = ''connect_target''"
| "operation_value OP_DISCONNECT_TARGET = ''disconnect_target''"
| "operation_value OP_HALT = ''halt''"
| "operation_value OP_RESUME = ''resume''"
| "operation_value OP_STEP_INSTRUCTION = ''step_instruction''"
| "operation_value OP_RESET_TARGET = ''reset_target''"
| "operation_value OP_READ_REGISTERS = ''read_registers''"
| "operation_value OP_READ_MEMORY = ''read_memory''"
| "operation_value OP_WRITE_MEMORY = ''write_memory''"
| "operation_value OP_SET_BREAKPOINT = ''set_breakpoint''"
| "operation_value OP_CLEAR_BREAKPOINT = ''clear_breakpoint''"
| "operation_value OP_DEBUG_SNAPSHOT = ''debug_snapshot''"
| "operation_value OP_ANALYZE_FAULT = ''analyze_fault''"
| "operation_value OP_COMPARE_SNAPSHOTS = ''compare_snapshots''"
| "operation_value OP_EXPLAIN_CURRENT_STATE = ''explain_current_state''"
| "operation_value OP_INSPECT_PERIPHERAL = ''inspect_peripheral''"
| "operation_value OP_SUGGEST_NEXT_DEBUG_STEPS = ''suggest_next_debug_steps''"

datatype target_class =
  EMULATOR | DEVELOPMENT_HARDWARE | LAB_HARDWARE | PRODUCTION_HARDWARE | UNKNOWN_CLASS

primrec target_class_value :: "target_class \<Rightarrow> string" where
  "target_class_value EMULATOR = ''emulator''"
| "target_class_value DEVELOPMENT_HARDWARE = ''development-hardware''"
| "target_class_value LAB_HARDWARE = ''lab-hardware''"
| "target_class_value PRODUCTION_HARDWARE = ''production-hardware''"
| "target_class_value UNKNOWN_CLASS = ''unknown''"

datatype decision_kind = ALLOW | DENY | REQUIRE_CONFIRMATION

primrec decision_value :: "decision_kind \<Rightarrow> string" where
  "decision_value ALLOW = ''allow''"
| "decision_value DENY = ''deny''"
| "decision_value REQUIRE_CONFIRMATION = ''require-confirmation''"

definition read_only_operations :: "debug_operation set" where
  "read_only_operations =
     {OP_READ_REGISTERS, OP_READ_MEMORY, OP_ANALYZE_FAULT, OP_COMPARE_SNAPSHOTS,
      OP_DEBUG_SNAPSHOT, OP_EXPLAIN_CURRENT_STATE, OP_INSPECT_PERIPHERAL,
      OP_SUGGEST_NEXT_DEBUG_STEPS}"

definition target_changing_operations :: "debug_operation set" where
  "target_changing_operations =
     {OP_CONNECT_TARGET, OP_DISCONNECT_TARGET, OP_HALT, OP_RESUME, OP_STEP_INSTRUCTION,
      OP_RESET_TARGET, OP_SET_BREAKPOINT, OP_CLEAR_BREAKPOINT}"

definition hardware_interlock_classes :: "target_class set" where
  "hardware_interlock_classes = {LAB_HARDWARE, PRODUCTION_HARDWARE}"

definition production_confirmation_operations :: "debug_operation set" where
  "production_confirmation_operations =
     {OP_DISCONNECT_TARGET, OP_HALT, OP_RESUME, OP_STEP_INSTRUCTION, OP_RESET_TARGET, OP_WRITE_MEMORY}"

text \<open>\<open>risk\<close> is a field of the request that the engine never reads; it is left out.\<close>

record policy_request =
  pr_permission_mode :: permission_level
  pr_operation :: debug_operation
  pr_target_class :: target_class
  pr_production_target :: bool
  pr_memory_write_enabled :: bool
  pr_confirmation_token :: "string option"
  pr_hardware_operation_allowlist :: "debug_operation list"

record policy_decision =
  pd_kind :: decision_kind
  pd_operation :: debug_operation
  pd_required_permission :: permission_level
  pd_reason :: string
  pd_confirmation_required :: bool
  pd_warnings :: "string list"

definition pd_allowed :: "policy_decision \<Rightarrow> bool" where
  "pd_allowed d \<longleftrightarrow> pd_kind d = ALLOW"

text \<open>The reasons are non-empty, so the constructor does not refuse them (\<open>reason_nonempty\<close>).\<close>

definition to_error :: "policy_decision \<Rightarrow> debug_error option" where
  "to_error d =
     (if pd_kind d = ALLOW then None
      else Some (make_error
        (if pd_confirmation_required d then CONFIRMATION_REQUIRED else PERMISSION_DENIED)
        (pd_reason d) CAT_PERMISSION (pd_confirmation_required d) (Some (pd_required_permission d))
        [(''operation'', JStr (operation_value (pd_operation d))),
         (''decision'', JStr (decision_value (pd_kind d)))]
        None))"

text \<open>\<open>not request.confirmation_token\<close>: absent or empty.\<close>

definition has_token :: "policy_request \<Rightarrow> bool" where
  "has_token r \<longleftrightarrow> (case pr_confirmation_token r of None \<Rightarrow> False | Some t \<Rightarrow> t \<noteq> [])"

definition hardware_warnings :: "policy_request \<Rightarrow> string list" where
  "hardware_warnings r =
     (if pr_target_class r \<in> hardware_interlock_classes
      then [target_class_value (pr_target_class r) @ '' hardware interlock allowed the operation.'']
      else [])"

definition evaluate_hardware_interlock :: "policy_request \<Rightarrow> policy_decision option" where
  "evaluate_hardware_interlock r =
     (if pr_target_class r \<notin> hardware_interlock_classes then None
      else if pr_operation r \<in> set (pr_hardware_operation_allowlist r) then None
      else Some
        \<lparr>pd_kind = DENY, pd_operation = pr_operation r, pd_required_permission = FULL_CONTROL,
         pd_reason = target_class_value (pr_target_class r) @
           '' operation requires explicit local hardware_operation_allowlist opt-in.'',
         pd_confirmation_required = False,
         pd_warnings = [target_class_value (pr_target_class r) @
           '' hardware interlock blocked the operation.'']\<rparr>)"

definition evaluate_target_changing :: "policy_request \<Rightarrow> policy_decision" where
  "evaluate_target_changing r =
     (case evaluate_hardware_interlock r of
        Some d \<Rightarrow> d
      | None \<Rightarrow>
          if (pr_production_target r \<or> pr_target_class r = PRODUCTION_HARDWARE)
             \<and> pr_permission_mode r \<noteq> FULL_CONTROL
          then \<lparr>pd_kind = REQUIRE_CONFIRMATION, pd_operation = pr_operation r,
                pd_required_permission = FULL_CONTROL,
                pd_reason = ''Production target operation requires full-control permission.'',
                pd_confirmation_required = True,
                pd_warnings = [''Production hardware guardrail is active.'']\<rparr>
          else if (pr_production_target r \<or> pr_target_class r = PRODUCTION_HARDWARE)
             \<and> pr_operation r \<in> production_confirmation_operations \<and> \<not> has_token r
          then \<lparr>pd_kind = REQUIRE_CONFIRMATION, pd_operation = pr_operation r,
                pd_required_permission = FULL_CONTROL,
                pd_reason = ''Production hardware operation requires an explicit confirmation token.'',
                pd_confirmation_required = True,
                pd_warnings = [''Production hardware guardrail is active.'']\<rparr>
          else if pr_permission_mode r = READONLY
          then \<lparr>pd_kind = REQUIRE_CONFIRMATION, pd_operation = pr_operation r,
                pd_required_permission = CONFIRM_REQUIRED,
                pd_reason = ''Target-changing operation requires confirmation.'',
                pd_confirmation_required = True, pd_warnings = []\<rparr>
          else if pr_permission_mode r = CONFIRM_REQUIRED
          then (if has_token r
                then \<lparr>pd_kind = ALLOW, pd_operation = pr_operation r,
                      pd_required_permission = CONFIRM_REQUIRED,
                      pd_reason = ''Confirmation token accepted for target-changing operation.'',
                      pd_confirmation_required = False, pd_warnings = []\<rparr>
                else \<lparr>pd_kind = REQUIRE_CONFIRMATION, pd_operation = pr_operation r,
                      pd_required_permission = CONFIRM_REQUIRED,
                      pd_reason = ''Target-changing operation requires an explicit confirmation token.'',
                      pd_confirmation_required = True, pd_warnings = []\<rparr>)
          else \<lparr>pd_kind = ALLOW, pd_operation = pr_operation r,
                pd_required_permission = FULL_CONTROL,
                pd_reason = ''Full-control mode allows this target-changing operation.'',
                pd_confirmation_required = False, pd_warnings = hardware_warnings r\<rparr>)"

definition evaluate_memory_write :: "policy_request \<Rightarrow> policy_decision" where
  "evaluate_memory_write r =
     (case evaluate_hardware_interlock r of
        Some d \<Rightarrow> d
      | None \<Rightarrow>
          if \<not> pr_memory_write_enabled r
          then \<lparr>pd_kind = DENY, pd_operation = pr_operation r, pd_required_permission = FULL_CONTROL,
                pd_reason = ''Memory writes are disabled by default.'',
                pd_confirmation_required = False, pd_warnings = []\<rparr>
          else if pr_permission_mode r \<noteq> FULL_CONTROL
          then \<lparr>pd_kind = REQUIRE_CONFIRMATION, pd_operation = pr_operation r,
                pd_required_permission = FULL_CONTROL,
                pd_reason = ''Memory writes require full-control permission.'',
                pd_confirmation_required = True, pd_warnings = []\<rparr>
          else if pr_target_class r = PRODUCTION_HARDWARE
          then \<lparr>pd_kind = DENY, pd_operation = pr_operation r, pd_required_permission = FULL_CONTROL,
                pd_reason = ''Production memory writes are denied by default.'',
                pd_confirmation_required = False, pd_warnings = []\<rparr>
          else if \<not> has_token r
          then \<lparr>pd_kind = REQUIRE_CONFIRMATION, pd_operation = pr_operation r,
                pd_required_permission = FULL_CONTROL,
                pd_reason = ''Memory writes require an explicit confirmation token.'',
                pd_confirmation_required = True, pd_warnings = []\<rparr>
          else \<lparr>pd_kind = ALLOW, pd_operation = pr_operation r, pd_required_permission = FULL_CONTROL,
                pd_reason = ''Memory write is enabled and full-control permission is active.'',
                pd_confirmation_required = False,
                pd_warnings = hardware_warnings r @
                  [''Memory write policy must still validate address ranges before execution.'']\<rparr>)"

definition evaluate :: "policy_request \<Rightarrow> policy_decision" where
  "evaluate r =
     (if pr_operation r = OP_WRITE_MEMORY then evaluate_memory_write r
      else if pr_operation r \<in> read_only_operations
      then \<lparr>pd_kind = ALLOW, pd_operation = pr_operation r, pd_required_permission = READONLY,
            pd_reason = ''Read-only operation is allowed.'',
            pd_confirmation_required = False, pd_warnings = []\<rparr>
      else if pr_operation r \<in> target_changing_operations then evaluate_target_changing r
      else \<lparr>pd_kind = DENY, pd_operation = pr_operation r, pd_required_permission = FULL_CONTROL,
            pd_reason = ''Unsupported operation: '' @ operation_value (pr_operation r) @ ''.'',
            pd_confirmation_required = False, pd_warnings = []\<rparr>)"

section \<open>What is allowed\<close>

text \<open>The three classes cover every operation, so the last branch is never taken.\<close>

lemma operation_classes:
  "op = OP_WRITE_MEMORY \<or> op \<in> read_only_operations \<or> op \<in> target_changing_operations"
  by (cases op) (simp_all add: read_only_operations_def target_changing_operations_def)

lemma operation_classes_disjoint:
  "read_only_operations \<inter> target_changing_operations = {}"
  "OP_WRITE_MEMORY \<notin> read_only_operations" "OP_WRITE_MEMORY \<notin> target_changing_operations"
  by (simp_all add: read_only_operations_def target_changing_operations_def)

definition interlocked :: "policy_request \<Rightarrow> bool" where
  "interlocked r \<longleftrightarrow> pr_target_class r \<in> hardware_interlock_classes
     \<and> pr_operation r \<notin> set (pr_hardware_operation_allowlist r)"

definition production :: "policy_request \<Rightarrow> bool" where
  "production r \<longleftrightarrow> pr_production_target r \<or> pr_target_class r = PRODUCTION_HARDWARE"

text \<open>
  The abstract specification: reads are free; everything else passes the interlock; a memory
  write needs the switch, full control, a token and a target that is not production hardware; a
  change needs full control, or confirmation mode and a token off production, and on
  production full control, with a token for the operations that stop or restart the target.
\<close>

definition permits :: "policy_request \<Rightarrow> bool" where
  "permits r \<longleftrightarrow>
     pr_operation r \<in> read_only_operations
     \<or> (\<not> interlocked r \<and>
        (if pr_operation r = OP_WRITE_MEMORY
         then pr_memory_write_enabled r \<and> pr_permission_mode r = FULL_CONTROL \<and> has_token r
              \<and> pr_target_class r \<noteq> PRODUCTION_HARDWARE
         else if production r
         then pr_permission_mode r = FULL_CONTROL
              \<and> (pr_operation r \<in> production_confirmation_operations \<longrightarrow> has_token r)
         else pr_permission_mode r = FULL_CONTROL
              \<or> (pr_permission_mode r = CONFIRM_REQUIRED \<and> has_token r)))"

lemma interlock_None: "evaluate_hardware_interlock r = None \<longleftrightarrow> \<not> interlocked r"
  by (auto simp: evaluate_hardware_interlock_def interlocked_def)

lemma interlock_Some:
  "evaluate_hardware_interlock r = Some d \<Longrightarrow> interlocked r \<and> pd_kind d = DENY
     \<and> \<not> pd_confirmation_required d \<and> pd_operation d = pr_operation r \<and> pd_reason d \<noteq> []"
  by (auto simp: evaluate_hardware_interlock_def interlocked_def split: if_splits)

lemma permission_cases: "p \<noteq> FULL_CONTROL \<Longrightarrow> p \<noteq> CONFIRM_REQUIRED \<Longrightarrow> p = READONLY"
  by (cases p) simp_all

lemma target_changing_allows:
  "pd_allowed (evaluate_target_changing r) \<longleftrightarrow> \<not> interlocked r \<and>
     (if production r
      then pr_permission_mode r = FULL_CONTROL
           \<and> (pr_operation r \<in> production_confirmation_operations \<longrightarrow> has_token r)
      else pr_permission_mode r = FULL_CONTROL
           \<or> (pr_permission_mode r = CONFIRM_REQUIRED \<and> has_token r))"
proof (cases "evaluate_hardware_interlock r")
  case None
  moreover have "\<not> interlocked r" using None by (simp add: interlock_None)
  ultimately show ?thesis
    by (cases "pr_permission_mode r")
      (simp_all add: evaluate_target_changing_def pd_allowed_def production_def)
next
  case (Some d)
  with interlock_Some [OF Some] show ?thesis by (simp add: evaluate_target_changing_def pd_allowed_def)
qed

lemma memory_write_allows:
  "pd_allowed (evaluate_memory_write r) \<longleftrightarrow> \<not> interlocked r \<and> pr_memory_write_enabled r
     \<and> pr_permission_mode r = FULL_CONTROL \<and> has_token r \<and> pr_target_class r \<noteq> PRODUCTION_HARDWARE"
proof (cases "evaluate_hardware_interlock r")
  case None
  moreover have "\<not> interlocked r" using None by (simp add: interlock_None)
  ultimately show ?thesis by (auto simp: evaluate_memory_write_def pd_allowed_def)
next
  case (Some d)
  with interlock_Some [OF Some] show ?thesis by (simp add: evaluate_memory_write_def pd_allowed_def)
qed

lemma evaluate_allows: "pd_allowed (evaluate r) \<longleftrightarrow> permits r"
proof (cases "pr_operation r \<in> read_only_operations")
  case True
  then show ?thesis using operation_classes_disjoint by (auto simp: evaluate_def permits_def pd_allowed_def)
next
  case False
  then show ?thesis
    using operation_classes [of "pr_operation r"] target_changing_allows [of r] memory_write_allows [of r]
    by (auto simp: evaluate_def permits_def)
qed

text \<open>More permission never allows less.\<close>

lemma permits_mono:
  assumes "permits r" and "pr_permission_mode r \<le> p"
  shows "permits (r\<lparr>pr_permission_mode := p\<rparr>)"
proof -
  have "pr_permission_mode r = FULL_CONTROL \<Longrightarrow> p = FULL_CONTROL"
    using assms(2) by simp
  moreover have "pr_permission_mode r = CONFIRM_REQUIRED \<Longrightarrow> p = FULL_CONTROL \<or> p = CONFIRM_REQUIRED"
    using assms(2) by (cases p) (simp_all add: less_eq_permission_level_def)
  ultimately show ?thesis
    using assms(1) by (auto simp: permits_def interlocked_def production_def has_token_def split: if_splits)
qed

lemma permits_readonly: "permits r \<Longrightarrow> pr_permission_mode r = READONLY \<Longrightarrow> pr_operation r \<in> read_only_operations"
  by (auto simp: permits_def split: if_splits)

section \<open>Refusals\<close>

lemma reason_nonempty: "pd_reason (evaluate r) \<noteq> []"
proof (cases "evaluate_hardware_interlock r")
  case None
  then show ?thesis
    by (simp add: evaluate_def evaluate_memory_write_def evaluate_target_changing_def)
next
  case (Some d)
  with interlock_Some [OF Some] show ?thesis
    by (simp add: evaluate_def evaluate_memory_write_def evaluate_target_changing_def)
qed

text \<open>A confirmation is asked for exactly by the decisions of that kind.\<close>

lemma confirmation_kind:
  "pd_confirmation_required (evaluate r) \<longleftrightarrow> pd_kind (evaluate r) = REQUIRE_CONFIRMATION"
proof (cases "evaluate_hardware_interlock r")
  case None
  then show ?thesis
    by (simp add: evaluate_def evaluate_memory_write_def evaluate_target_changing_def)
next
  case (Some d)
  with interlock_Some [OF Some] show ?thesis
    by (simp add: evaluate_def evaluate_memory_write_def evaluate_target_changing_def)
qed

lemma evaluate_operation [simp]: "pd_operation (evaluate r) = pr_operation r"
proof (cases "evaluate_hardware_interlock r")
  case None
  then show ?thesis
    by (simp add: evaluate_def evaluate_memory_write_def evaluate_target_changing_def)
next
  case (Some d)
  with interlock_Some [OF Some] show ?thesis
    by (simp add: evaluate_def evaluate_memory_write_def evaluate_target_changing_def)
qed

text \<open>
  A confirmation that can be given is honoured: when the engine asks for one and the request's
  mode is at least the permission it names, a token makes it allow the same request.
\<close>

lemma memory_write_confirmation:
  assumes "pd_confirmation_required (evaluate_memory_write r)"
  shows "\<not> interlocked r \<and> pr_memory_write_enabled r
    \<and> pd_required_permission (evaluate_memory_write r) = FULL_CONTROL"
proof (cases "evaluate_hardware_interlock r")
  case None
  then have "\<not> interlocked r" by (simp add: interlock_None)
  with None assms show ?thesis by (simp add: evaluate_memory_write_def split: if_splits)
qed (use assms interlock_Some in \<open>auto simp: evaluate_memory_write_def\<close>)

lemma target_changing_confirmation:
  assumes "pd_confirmation_required (evaluate_target_changing r)"
  shows "\<not> interlocked r \<and>
    pd_required_permission (evaluate_target_changing r) = (if production r then FULL_CONTROL else CONFIRM_REQUIRED)"
proof (cases "evaluate_hardware_interlock r")
  case None
  then have "\<not> interlocked r" by (simp add: interlock_None)
  with None assms show ?thesis
    by (cases "production r"; cases "pr_permission_mode r")
      (simp_all add: evaluate_target_changing_def production_def split: if_splits)
qed (use assms interlock_Some in \<open>auto simp: evaluate_target_changing_def\<close>)

lemma confirmation_suffices:
  assumes "pd_confirmation_required (evaluate r)" and "tok \<noteq> []"
    and "pd_required_permission (evaluate r) \<le> pr_permission_mode r"
    and "\<not> (pr_operation r = OP_WRITE_MEMORY \<and> pr_target_class r = PRODUCTION_HARDWARE)"
  shows "permits (r\<lparr>pr_confirmation_token := Some tok\<rparr>)"
proof (cases "pr_operation r = OP_WRITE_MEMORY")
  case True
  then show ?thesis
    using assms memory_write_confirmation [of r]
    by (simp add: evaluate_def permits_def interlocked_def has_token_def)
next
  case False
  then have e: "evaluate r = evaluate_target_changing r"
    using assms(1) operation_classes [of "pr_operation r"] by (auto simp: evaluate_def split: if_splits)
  then have c: "\<not> interlocked r" "pd_required_permission (evaluate r) =
      (if production r then FULL_CONTROL else CONFIRM_REQUIRED)"
    using target_changing_confirmation [of r] assms(1) by auto
  have "CONFIRM_REQUIRED \<le> m \<Longrightarrow> m = CONFIRM_REQUIRED \<or> m = FULL_CONTROL" for m
    by (cases m) (simp_all add: less_eq_permission_level_def)
  then show ?thesis
    using c assms(2,3) False
    by (cases "production r") (auto simp: permits_def interlocked_def production_def has_token_def)
qed

lemma to_error_None: "to_error d = None \<longleftrightarrow> pd_allowed d"
  by (simp add: to_error_def pd_allowed_def)

lemma to_error_evaluate:
  "to_error (evaluate r) = Some e \<Longrightarrow> message e \<noteq> [] \<and> confirmation_token e = None
     \<and> code e = (if pd_confirmation_required (evaluate r) then CONFIRMATION_REQUIRED else PERMISSION_DENIED)"
  using reason_nonempty [of r] by (auto simp: to_error_def make_error_def split: if_splits)

section \<open>Resource limits\<close>

record resource_limits =
  max_sessions :: int
  max_memory_read_bytes :: int
  max_memory_write_bytes :: int
  max_snapshot_stack_bytes :: int
  max_concurrent_tool_calls :: int
  max_session_operations :: int
  max_mi_command_queue :: int

definition default_limits :: resource_limits where
  "default_limits =
     \<lparr>max_sessions = 4, max_memory_read_bytes = 4096, max_memory_write_bytes = 256,
      max_snapshot_stack_bytes = 4096, max_concurrent_tool_calls = 8, max_session_operations = 1,
      max_mi_command_queue = 32\<rparr>"

definition limit_error :: "string \<Rightarrow> string \<Rightarrow> int \<Rightarrow> debug_error" where
  "limit_error msg field limit =
     make_error RESOURCE_LIMIT_EXCEEDED msg CAT_VALIDATION False None [(field, JInt limit)] None"

definition check_session_count :: "resource_limits \<Rightarrow> int \<Rightarrow> debug_error option" where
  "check_session_count l active =
     (if max_sessions l \<le> active
      then Some (limit_error (''active session limit reached ('' @ int_str (max_sessions l) @ '')'')
                   ''max_sessions'' (max_sessions l))
      else None)"

definition check_memory_read :: "resource_limits \<Rightarrow> int \<Rightarrow> debug_error option" where
  "check_memory_read l n =
     (if max_memory_read_bytes l < n
      then Some (limit_error (''memory read length '' @ int_str n @ '' exceeds limit '' @
                   int_str (max_memory_read_bytes l)) ''max_memory_read_bytes'' (max_memory_read_bytes l))
      else None)"

definition check_memory_write :: "resource_limits \<Rightarrow> int \<Rightarrow> debug_error option" where
  "check_memory_write l n =
     (if max_memory_write_bytes l < n
      then Some (limit_error (''memory write length '' @ int_str n @ '' exceeds limit '' @
                   int_str (max_memory_write_bytes l)) ''max_memory_write_bytes'' (max_memory_write_bytes l))
      else None)"

definition check_snapshot_stack :: "resource_limits \<Rightarrow> int \<Rightarrow> debug_error option" where
  "check_snapshot_stack l n =
     (if max_snapshot_stack_bytes l < n
      then Some (limit_error (''snapshot stack bytes '' @ int_str n @ '' exceeds limit '' @
                   int_str (max_snapshot_stack_bytes l))
                   ''max_snapshot_stack_bytes'' (max_snapshot_stack_bytes l))
      else None)"

definition check_tool_concurrency :: "resource_limits \<Rightarrow> int \<Rightarrow> debug_error option" where
  "check_tool_concurrency l active =
     (if max_concurrent_tool_calls l \<le> active
      then Some (limit_error (''concurrent tool call limit reached ('' @
                   int_str (max_concurrent_tool_calls l) @ '')'')
                   ''max_concurrent_tool_calls'' (max_concurrent_tool_calls l))
      else None)"

definition check_session_operations :: "resource_limits \<Rightarrow> int \<Rightarrow> debug_error option" where
  "check_session_operations l active =
     (if max_session_operations l \<le> active
      then Some (limit_error (''active session operation limit reached ('' @
                   int_str (max_session_operations l) @ '')'')
                   ''max_session_operations'' (max_session_operations l))
      else None)"

lemmas limit_checks =
  check_session_count_def check_memory_read_def check_memory_write_def check_snapshot_stack_def
  check_tool_concurrency_def check_session_operations_def

lemma limit_checks_None [simp]:
  "check_session_count l a = None \<longleftrightarrow> a < max_sessions l"
  "check_memory_read l n = None \<longleftrightarrow> n \<le> max_memory_read_bytes l"
  "check_memory_write l n = None \<longleftrightarrow> n \<le> max_memory_write_bytes l"
  "check_snapshot_stack l n = None \<longleftrightarrow> n \<le> max_snapshot_stack_bytes l"
  "check_tool_concurrency l a = None \<longleftrightarrow> a < max_concurrent_tool_calls l"
  "check_session_operations l a = None \<longleftrightarrow> a < max_session_operations l"
  by (auto simp: limit_checks)

end
