(* ===== verification/Confirmation.thy ===== *)
theory Confirmation
  imports Safety_Policy
begin

text \<open>
  One-time confirmation tokens (\<open>safety/confirmation.py\<close>). A token is bound to an operation,
  a fingerprint of the request and an expiry. The fresh token (\<open>secrets.token_urlsafe\<close>), the
  clock reading and the digest (SHA-256) are arguments; times are rationals. The lemmas: a
  token is consumed by every verification, a verification succeeds exactly for the operation
  and request it was issued for and until it expires, and the fingerprinted text determines the
  request.
\<close>

record confirmation_record =
  cr_operation :: debug_operation
  cr_fingerprint :: string
  cr_expires_at :: rat

record token_store =
  ts_ttl_seconds :: int
  ts_records :: "confirmation_record dict"

definition new_token_store :: "int \<Rightarrow> token_store" where
  "new_token_store ttl = \<lparr>ts_ttl_seconds = ttl, ts_records = []\<rparr>"

text \<open>The canonical JSON text; it always exists (\<open>canonical_text_total\<close>).\<close>

definition fingerprint_request :: "(string \<Rightarrow> string) \<Rightarrow> tool_request \<Rightarrow> string" where
  "fingerprint_request digest r =
     (case json_canonical (request_json r) of Some encoded \<Rightarrow> digest encoded | None \<Rightarrow> [])"

definition issue ::
  "(string \<Rightarrow> string) \<Rightarrow> string \<Rightarrow> rat \<Rightarrow> debug_operation \<Rightarrow> tool_request \<Rightarrow> (token_store, string) prog" where
  "issue digest fresh now op request st =
     (Inr fresh,
      st\<lparr>ts_records := dict_set fresh
           \<lparr>cr_operation = op, cr_fingerprint = fingerprint_request digest request,
            cr_expires_at = now + of_int (ts_ttl_seconds st)\<rparr> (ts_records st)\<rparr>)"

definition verify ::
  "(string \<Rightarrow> string) \<Rightarrow> string \<Rightarrow> rat \<Rightarrow> debug_operation \<Rightarrow> tool_request \<Rightarrow> (token_store, unit) prog" where
  "verify digest tok now op request st =
     (let st' = st\<lparr>ts_records := dict_del tok (ts_records st)\<rparr>
      in (case dict_get (ts_records st) tok of
            None \<Rightarrow> (Inl (Exc ConfirmationError ''confirmation token was not found or was already used''), st')
          | Some rec \<Rightarrow>
              if cr_expires_at rec < now
              then (Inl (Exc ConfirmationError ''confirmation token expired''), st')
              else if cr_operation rec \<noteq> op
              then (Inl (Exc ConfirmationError ''confirmation token operation mismatch''), st')
              else if cr_fingerprint rec \<noteq> fingerprint_request digest request
              then (Inl (Exc ConfirmationError ''confirmation token request mismatch''), st')
              else (Inr (), st')))"

section \<open>One-time use\<close>

text \<open>Every verification consumes the token and touches no other.\<close>

lemma verify_consumes:
  "snd (verify d tok now op r st) = st\<lparr>ts_records := dict_del tok (ts_records st)\<rparr>"
  by (simp add: verify_def Let_def split: option.split)

lemma verify_ok_iff:
  "fst (verify d tok now op r st) = Inr () \<longleftrightarrow>
     (\<exists>rec. dict_get (ts_records st) tok = Some rec \<and> now \<le> cr_expires_at rec
        \<and> cr_operation rec = op \<and> cr_fingerprint rec = fingerprint_request d r)"
  by (auto simp: verify_def Let_def split: option.split)

lemma verify_error: "fst (verify d tok now op r st) = Inl e \<Longrightarrow>
    exc_of e = ConfirmationError \<and> take 18 (exc_msg e) = ''confirmation token''"
  by (auto simp: verify_def Let_def split: option.splits if_splits)

lemma verify_missing:
  "dict_get (ts_records st) tok = None \<Longrightarrow> \<exists>e. fst (verify d tok now op r st) = Inl e"
  by (simp add: verify_def Let_def)

text \<open>
  A use of the store between two points in time: other tokens are issued, tokens are verified.
  A token that is gone stays gone unless the generator repeats itself.
\<close>

inductive store_step :: "(string \<Rightarrow> string) \<Rightarrow> string set \<Rightarrow> token_store \<Rightarrow> token_store \<Rightarrow> bool"
  for d :: "string \<Rightarrow> string" and fresh :: "string set" where
  issued: "tok \<in> fresh \<Longrightarrow> store_step d fresh st (snd (issue d tok now op r st))"
| verified: "store_step d fresh st (snd (verify d tok now op r st))"

lemma store_step_gone:
  assumes "store_step d fresh st st'" and "tok \<notin> fresh" and "dict_get (ts_records st) tok = None"
  shows "dict_get (ts_records st') tok = None"
  using assms by cases (auto simp: issue_def verify_consumes)

lemma store_steps_gone:
  assumes "(store_step d fresh)\<^sup>*\<^sup>* st st'" and "tok \<notin> fresh" and "dict_get (ts_records st) tok = None"
  shows "dict_get (ts_records st') tok = None"
  using assms(1,3) by (induction rule: rtranclp_induct) (use assms(2) store_step_gone in blast)+

lemma store_step_ttl: "store_step d fresh st st' \<Longrightarrow> ts_ttl_seconds st' = ts_ttl_seconds st"
  by (erule store_step.cases) (simp_all add: issue_def verify_consumes)

text \<open>Until it is used, an issued token keeps its record.\<close>

inductive other_step :: "(string \<Rightarrow> string) \<Rightarrow> string \<Rightarrow> token_store \<Rightarrow> token_store \<Rightarrow> bool"
  for d :: "string \<Rightarrow> string" and tok :: string where
  other_issued: "tok' \<noteq> tok \<Longrightarrow> other_step d tok st (snd (issue d tok' now op r st))"
| other_verified: "tok' \<noteq> tok \<Longrightarrow> other_step d tok st (snd (verify d tok' now op r st))"

lemma other_steps_keep:
  "(other_step d tok)\<^sup>*\<^sup>* st st' \<Longrightarrow> dict_get (ts_records st') tok = dict_get (ts_records st) tok"
  by (induction rule: rtranclp_induct) (auto elim!: other_step.cases simp: issue_def verify_consumes)

lemma issue_then_verify:
  assumes "issue d tok now op r st = (Inr tok', st1)" and "(other_step d tok)\<^sup>*\<^sup>* st1 st2"
  shows "fst (verify d tok now' op' r' st2) = Inr () \<longleftrightarrow>
    now' \<le> now + of_int (ts_ttl_seconds st) \<and> op' = op
    \<and> fingerprint_request d r' = fingerprint_request d r"
  using assms(1) other_steps_keep [OF assms(2)] by (auto simp: verify_ok_iff issue_def)

section \<open>The fingerprinted text determines the request\<close>

primrec no_float :: "json \<Rightarrow> bool" where
  "no_float JNull = True"
| "no_float (JBool b) = True"
| "no_float (JInt i) = True"
| "no_float (JFloat q) = False"
| "no_float (JStr s) = True"
| "no_float (JArr xs) = list_all id (map no_float xs)"
| "no_float (JObj kvs) = list_all snd (map (map_prod id no_float) kvs)"

lemma sequence_total: "(\<forall>x \<in> set xs. x \<noteq> None) \<Longrightarrow> \<exists>ts. sequence xs = Some ts"
  by (auto simp: sequence_def)

lemma json_canonical_total: "no_float j \<Longrightarrow> \<exists>t. json_dumps (sort_json j) = Some t"
proof (induction j)
  case (JArr xs)
  then have "\<forall>y \<in> set (map json_dumps (map sort_json xs)). y \<noteq> None"
    by (fastforce simp: list_all_iff)
  then show ?case using sequence_total by fastforce
next
  case (JObj kvs)
  have "json_dumps (sort_json (snd kv)) \<noteq> None" if "kv \<in> set kvs" for kv
    using JObj that by (cases kv) (fastforce simp: list_all_iff)
  then have "\<forall>y \<in> set (map json_member (map (map_prod id json_dumps)
      (sort_key fst (map (map_prod id sort_json) kvs)))). y \<noteq> None"
    by (fastforce simp: json_member_def)
  then show ?case using sequence_total by fastforce
qed simp_all

lemma no_float_obj: "no_float (JObj kvs) \<longleftrightarrow> (\<forall>kv \<in> set kvs. no_float (snd kv))"
  by (auto simp: list_all_iff)

lemma opt_field_all:
  "(\<forall>kv \<in> set (opt_field k f x). Q kv) \<longleftrightarrow> (\<forall>v. x = Some v \<longrightarrow> Q (k, f v))"
  by (cases x) (simp_all add: opt_field_def)

lemma no_float_request: "no_float (request_json r)"
  by (cases r)
    (simp_all add: request_json_def no_float_obj opt_field_all ball_Un list_all_iff del: no_float.simps(7))

lemma canonical_text_total: "\<exists>t. json_canonical (request_json r) = Some t"
  unfolding json_canonical_def by (rule json_canonical_total) (rule no_float_request)

lemma dict_ok_request_fields: "dict_ok (request_fields r)"
  by (cases r) (simp_all add: dict_ok_def opt_field_def split: option.split)

lemma map_of_sort_key:
  assumes "distinct (map fst kvs)"
  shows "map_of (sort_key fst kvs) = map_of kvs"
proof -
  have "distinct (map fst (sort_key fst kvs))"
    using assms by (simp add: distinct_map)
  then show ?thesis using assms by (intro map_of_inject_set [THEN iffD2]) simp_all
qed

lemma canonical_fields:
  assumes "json_canonical (request_json r) = json_canonical (request_json r')"
  shows "map_option sort_json (dict_get (request_fields r) k)
    = map_option sort_json (dict_get (request_fields r') k)"
proof -
  obtain t where "json_canonical (request_json r) = Some t" using canonical_text_total by blast
  then have "sort_json (request_json r) = sort_json (request_json r')"
    using assms json_dumps_inj by (metis json_canonical_def)
  then have eq: "sort_key fst (map (map_prod id sort_json) (request_fields r))
      = sort_key fst (map (map_prod id sort_json) (request_fields r'))"
    by (simp add: request_json_def)
  have m: "map_of (sort_key fst (map (map_prod id sort_json) (request_fields q))) k
      = map_option sort_json (dict_get (request_fields q) k)" for q
  proof -
    have "distinct (map fst (map (map_prod id sort_json) (request_fields q)))"
      using dict_ok_request_fields [of q] by (simp add: dict_ok_def comp_def)
    then have "map_of (sort_key fst (map (map_prod id sort_json) (request_fields q)))
        = map_of (map (map_prod id sort_json) (request_fields q))"
      by (rule map_of_sort_key)
    moreover have "map_of (map (map_prod id sort_json) (request_fields q)) k
        = map_option sort_json (dict_get (request_fields q) k)"
      using map_of_map [of sort_json "request_fields q"] by (simp add: map_prod_def id_def)
    ultimately show ?thesis by simp
  qed
  show ?thesis using eq m [of r] m [of r'] by simp
qed

text \<open>The requests of one tool.\<close>

primrec tool_index :: "tool_request \<Rightarrow> nat" where
  "tool_index (ConnectTarget r) = 0" | "tool_index (DisconnectTarget r) = 1"
| "tool_index (Halt r) = 2" | "tool_index (Resume r) = 3"
| "tool_index (StepInstruction r) = 4" | "tool_index (ResetTarget r) = 5"
| "tool_index (ReadRegisters r) = 6" | "tool_index (ReadMemory r) = 7"
| "tool_index (WriteMemory r) = 8" | "tool_index (SetBreakpoint r) = 9"
| "tool_index (ClearBreakpoint r) = 10" | "tool_index (DebugSnapshot r) = 11"
| "tool_index (AnalyzeFault r) = 12" | "tool_index (InspectPeripheral r) = 13"
| "tool_index (CompareSnapshots r) = 14" | "tool_index (ExplainCurrentState r) = 15"
| "tool_index (SuggestNextDebugSteps r) = 16"

lemma get_opt_field:
  "dict_get (opt_field k f x @ d) k' =
     (if k' = k then (case x of None \<Rightarrow> dict_get d k' | Some v \<Rightarrow> Some (f v)) else dict_get d k')"
  "dict_get (opt_field k f x) k' = (if k' = k then (case x of None \<Rightarrow> None | Some v \<Rightarrow> Some (f v)) else None)"
  by (simp_all add: opt_field_def split: option.split)

lemma map_sort_JStr: "map (sort_json \<circ> JStr) xs = map (sort_json \<circ> JStr) ys \<longleftrightarrow> xs = ys"
  by (rule inj_map_eq_map) (simp add: inj_def)

lemma sort_location:
  "sort_json (JObj [(''kind'', JStr a), (''value'', JStr b)]) = JObj [(''kind'', JStr a), (''value'', JStr b)]"
  by (simp add: insort_key_def)

lemmas inj_simps = get_opt_field enum_values_inj sort_location map_sort_JStr

text \<open>Two requests of one tool with the same fields are the same request.\<close>

lemma fields_inj:
  assumes "tool_index r = tool_index r'"
    and c: "\<And>k. map_option sort_json (dict_get (request_fields r) k)
      = map_option sort_json (dict_get (request_fields r') k)"
  shows "r = r'"
proof -
  show ?thesis
  proof (cases r)
    case (ConnectTarget a)
    then obtain b where b: "r' = ConnectTarget b" using assms(1) by (cases r') simp_all
    show ?thesis
      using assms(1) c [of "''timeout_ms''"] c [of "''backend''"] c [of "''gdb_path''"]
      c [of "''elf_path''"] c [of "''endpoint''"] c [of "''profile''"]
      unfolding ConnectTarget b
      by (cases a; cases b) (auto simp: inj_simps simp del: map_of_append split: option.splits)
  next
    case (DisconnectTarget a)
    then obtain b where b: "r' = DisconnectTarget b" using assms(1) by (cases r') simp_all
    show ?thesis
      using assms(1) c [of "''timeout_ms''"] c [of "''session_id''"] c [of "''kill_backend''"]
      unfolding DisconnectTarget b
      by (cases a; cases b) (simp add: inj_simps del: map_of_append split: option.splits)
  next
    case (Halt a)
    then obtain b where b: "r' = Halt b" using assms(1) by (cases r') simp_all
    show ?thesis
      using assms(1) c [of "''timeout_ms''"] c [of "''session_id''"]
      unfolding Halt b
      by (cases a; cases b) (simp add: inj_simps del: map_of_append split: option.splits)
  next
    case (Resume a)
    then obtain b where b: "r' = Resume b" using assms(1) by (cases r') simp_all
    show ?thesis
      using assms(1) c [of "''session_id''"] c [of "''max_run_ms''"] c [of "''auto_interrupt''"]
      unfolding Resume b
      by (cases a; cases b) (simp add: inj_simps del: map_of_append split: option.splits)
  next
    case (StepInstruction a)
    then obtain b where b: "r' = StepInstruction b" using assms(1) by (cases r') simp_all
    show ?thesis
      using assms(1) c [of "''timeout_ms''"] c [of "''session_id''"] c [of "''count''"]
      unfolding StepInstruction b
      by (cases a; cases b) (simp add: inj_simps del: map_of_append split: option.splits)
  next
    case (ResetTarget a)
    then obtain b where b: "r' = ResetTarget b" using assms(1) by (cases r') simp_all
    show ?thesis
      using assms(1) c [of "''timeout_ms''"] c [of "''session_id''"] c [of "''mode''"]
      unfolding ResetTarget b
      by (cases a; cases b) (simp add: inj_simps del: map_of_append split: option.splits)
  next
    case (ReadRegisters a)
    then obtain b where b: "r' = ReadRegisters b" using assms(1) by (cases r') simp_all
    show ?thesis
      using assms(1) c [of "''session_id''"] c [of "''group''"]
      unfolding ReadRegisters b
      by (cases a; cases b) (simp add: inj_simps del: map_of_append split: option.splits)
  next
    case (ReadMemory a)
    then obtain b where b: "r' = ReadMemory b" using assms(1) by (cases r') simp_all
    show ?thesis
      using assms(1) c [of "''timeout_ms''"] c [of "''session_id''"] c [of "''address''"]
      c [of "''length''"] c [of "''width''"]
      unfolding ReadMemory b
      by (cases a; cases b) (simp add: inj_simps del: map_of_append split: option.splits)
  next
    case (WriteMemory a)
    then obtain b where b: "r' = WriteMemory b" using assms(1) by (cases r') simp_all
    show ?thesis
      using assms(1) c [of "''timeout_ms''"] c [of "''session_id''"] c [of "''address''"]
      c [of "''data_hex''"] c [of "''expected_old_hex''"]
      unfolding WriteMemory b
      by (cases a; cases b) (auto simp: inj_simps simp del: map_of_append split: option.splits)
  next
    case (SetBreakpoint a)
    then obtain b where b: "r' = SetBreakpoint b" using assms(1) by (cases r') simp_all
    show ?thesis
      using assms(1) c [of "''timeout_ms''"] c [of "''session_id''"] c [of "''location''"]
      c [of "''type''"] c [of "''temporary''"]
      unfolding SetBreakpoint b
      by (cases a; cases b) (simp add: inj_simps del: map_of_append split: option.splits)
  next
    case (ClearBreakpoint a)
    then obtain b where b: "r' = ClearBreakpoint b" using assms(1) by (cases r') simp_all
    show ?thesis
      using assms(1) c [of "''timeout_ms''"] c [of "''session_id''"] c [of "''breakpoint_id''"]
      unfolding ClearBreakpoint b
      by (cases a; cases b) (simp add: inj_simps del: map_of_append split: option.splits)
  next
    case (DebugSnapshot a)
    then obtain b where b: "r' = DebugSnapshot b" using assms(1) by (cases r') simp_all
    show ?thesis
      using assms(1) c [of "''session_id''"] c [of "''halt_policy''"]
      c [of "''include_core_registers''"] c [of "''include_fault_registers''"]
      c [of "''include_stack''"] c [of "''stack_bytes''"] c [of "''include_symbol_context''"]
      c [of "''disassembly_instructions''"]
      unfolding DebugSnapshot b
      by (cases a; cases b) (simp add: inj_simps del: map_of_append split: option.splits)
  next
    case (AnalyzeFault a)
    then obtain b where b: "r' = AnalyzeFault b" using assms(1) by (cases r') simp_all
    show ?thesis
      using assms(1) c [of "''session_id''"] c [of "''snapshot_id''"]
      unfolding AnalyzeFault b
      by (cases a; cases b) (auto simp: inj_simps simp del: map_of_append split: option.splits)
  next
    case (InspectPeripheral a)
    then obtain b where b: "r' = InspectPeripheral b" using assms(1) by (cases r') simp_all
    show ?thesis
      using assms(1) c [of "''session_id''"] c [of "''svd_path''"] c [of "''peripheral''"]
      c [of "''registers''"] c [of "''timeout_ms''"]
      unfolding InspectPeripheral b
      by (cases a; cases b) (auto simp: inj_simps simp del: map_of_append split: option.splits)
  next
    case (CompareSnapshots a)
    then obtain b where b: "r' = CompareSnapshots b" using assms(1) by (cases r') simp_all
    show ?thesis
      using assms(1) c [of "''before_snapshot_id''"] c [of "''after_snapshot_id''"]
      c [of "''include_memory_diffs''"]
      unfolding CompareSnapshots b
      by (cases a; cases b) (simp add: inj_simps del: map_of_append split: option.splits)
  next
    case (ExplainCurrentState a)
    then obtain b where b: "r' = ExplainCurrentState b" using assms(1) by (cases r') simp_all
    show ?thesis
      using assms(1) c [of "''session_id''"] c [of "''snapshot_id''"] c [of "''detail_level''"]
      unfolding ExplainCurrentState b
      by (cases a; cases b) (auto simp: inj_simps simp del: map_of_append split: option.splits)
  next
    case (SuggestNextDebugSteps a)
    then obtain b where b: "r' = SuggestNextDebugSteps b" using assms(1) by (cases r') simp_all
    show ?thesis
      using assms(1) c [of "''session_id''"] c [of "''snapshot_id''"] c [of "''goal''"]
      unfolding SuggestNextDebugSteps b
      by (cases a; cases b) (auto simp: inj_simps simp del: map_of_append split: option.splits)
  qed
qed

text \<open>So are those with the same canonical text.\<close>

lemma canonical_inj:
  assumes "tool_index r = tool_index r'" and "json_canonical (request_json r) = json_canonical (request_json r')"
  shows "r = r'"
  using assms(1) canonical_fields [OF assms(2)] by (rule fields_inj)

lemma fingerprint_inj:
  assumes "tool_index r = tool_index r'"
    and "\<And>t u. json_canonical (request_json r) = Some t \<Longrightarrow> json_canonical (request_json r') = Some u
      \<Longrightarrow> d t = d u \<Longrightarrow> t = u"
    and "fingerprint_request d r = fingerprint_request d r'"
  shows "r = r'"
proof -
  obtain t where t: "json_canonical (request_json r) = Some t" using canonical_text_total by blast
  obtain u where u: "json_canonical (request_json r') = Some u" using canonical_text_total by blast
  have "t = u" using assms(2) [OF t u] assms(3) t u by (simp add: fingerprint_request_def)
  then show ?thesis using canonical_inj [OF assms(1)] t u by simp
qed

end
