(* ===== verification/Privacy.thy ===== *)
theory Privacy
  imports Json
begin

text \<open>
  Redaction for logs (\<open>privacy.py\<close>), on the JSON form of a model. \<open>redact_json v key\<close> is
  \<open>redact_value(key, v)\<close>. The main lemma is non-interference: two values that differ only in
  what the rules call secret are redacted to the same value. Paths are POSIX paths.
\<close>

definition sensitive_key_fragments :: "string list" where
  "sensitive_key_fragments = [''path'', ''token'', ''secret'', ''password'', ''key'']"

definition hex_dump_keys :: "string list" where
  "hex_dump_keys = [''data_hex'', ''stack_data_hex'', ''contents'']"

definition sensitive :: "string \<Rightarrow> bool" where
  "sensitive key \<longleftrightarrow> list_ex (\<lambda>fragment. contains (lower key) fragment) sensitive_key_fragments"

definition path_key :: "string \<Rightarrow> bool" where
  "path_key key \<longleftrightarrow> contains (lower key) ''path''"

text \<open>\<open>PurePath(value).name\<close>: the last component, empty components and dots left out.\<close>

definition path_name :: "string \<Rightarrow> string" where
  "path_name s =
     (case rev (filter (\<lambda>c. c \<noteq> [] \<and> c \<noteq> ''.'') (split_on (CHR ''/'') s)) of [] \<Rightarrow> [] | c # cs \<Rightarrow> c)"

definition redact_text :: "string \<Rightarrow> string \<Rightarrow> string" where
  "redact_text key s =
     (if sensitive key
      then (if path_key key then ''<redacted-path:'' @ path_name s @ ''>'' else ''<redacted>'')
      else if lower key \<in> set hex_dump_keys \<and> 32 < length s
      then take 32 s @ ''...<redacted '' @ nat_str (length s - 32) @ '' chars>''
      else s)"

primrec redact_json :: "json \<Rightarrow> string \<Rightarrow> json" where
  "redact_json JNull key = JNull"
| "redact_json (JBool b) key = (if sensitive key then JStr ''<redacted>'' else JBool b)"
| "redact_json (JInt i) key = (if sensitive key then JStr ''<redacted>'' else JInt i)"
| "redact_json (JFloat q) key = (if sensitive key then JStr ''<redacted>'' else JFloat q)"
| "redact_json (JStr s) key = JStr (redact_text key s)"
| "redact_json (JArr xs) key =
     (if sensitive key then JStr ''<redacted>'' else JArr (map (\<lambda>f. f key) (map redact_json xs)))"
| "redact_json (JObj kvs) key =
     (if sensitive key then JStr ''<redacted>''
      else JObj (map (\<lambda>kf. (fst kf, snd kf (fst kf))) (map (map_prod id redact_json) kvs)))"

definition redact_mapping :: "json dict \<Rightarrow> json dict" where
  "redact_mapping d = map (\<lambda>kv. (fst kv, redact_json (snd kv) (fst kv))) d"

lemma redact_JObj: "\<not> sensitive key \<Longrightarrow> redact_json (JObj d) key = JObj (redact_mapping d)"
  by (simp add: redact_mapping_def comp_def)

lemma redact_keys [simp]: "map fst (redact_mapping d) = map fst d"
  by (simp add: redact_mapping_def comp_def)

lemma redact_get: "dict_get (redact_mapping d) k = map_option (\<lambda>v. redact_json v k) (dict_get d k)"
  by (induction d) (auto simp: redact_mapping_def)

text \<open>What is left of a sensitive entry: nothing, a fixed mark, or a last path component.\<close>

lemma redact_sensitive:
  "sensitive key \<Longrightarrow> redact_json v key =
     (case v of JNull \<Rightarrow> JNull
      | JStr s \<Rightarrow> JStr (if path_key key then ''<redacted-path:'' @ path_name s @ ''>'' else ''<redacted>'')
      | _ \<Rightarrow> JStr ''<redacted>'')"
  by (cases v) (simp_all add: redact_text_def)

lemma path_name_no_slash: "CHR ''/'' \<notin> set (path_name s)"
proof (cases "rev (filter (\<lambda>c. c \<noteq> [] \<and> c \<noteq> ''.'') (split_on (CHR ''/'') s))")
  case (Cons c cs)
  then have "c \<in> set (filter (\<lambda>c. c \<noteq> [] \<and> c \<noteq> ''.'') (split_on (CHR ''/'') s))"
    by (metis list.set_intros(1) set_rev)
  then show ?thesis using Cons split_on_no_sep by (auto simp: path_name_def)
qed (simp add: path_name_def)

text \<open>
  \<open>same_public key v w\<close>: \<open>v\<close> and \<open>w\<close> under \<open>key\<close> agree on everything that is not secret.
  Secret is any present value under a sensitive key (the directory of a path, where the key
  names a path), and what follows the first 32 characters of a long hex dump.
\<close>

inductive same_public :: "string \<Rightarrow> json \<Rightarrow> json \<Rightarrow> bool" where
  same: "same_public key v v"
| secret: "sensitive key \<Longrightarrow> v \<noteq> JNull \<Longrightarrow> w \<noteq> JNull \<Longrightarrow>
    (path_key key \<Longrightarrow> (\<nexists>s. v = JStr s) \<and> (\<nexists>s. w = JStr s)) \<Longrightarrow> same_public key v w"
| path: "sensitive key \<Longrightarrow> path_name s = path_name t \<Longrightarrow> same_public key (JStr s) (JStr t)"
| dump: "lower key \<in> set hex_dump_keys \<Longrightarrow> take 32 s = take 32 t \<Longrightarrow> length s = length t \<Longrightarrow>
    32 < length s \<Longrightarrow> same_public key (JStr s) (JStr t)"
| array: "list_all2 (same_public key) xs ys \<Longrightarrow> same_public key (JArr xs) (JArr ys)"
| object: "list_all2 (\<lambda>a b. fst a = fst b \<and> same_public (fst a) (snd a) (snd b)) d e \<Longrightarrow>
    same_public key (JObj d) (JObj e)"

inductive_cases same_public_objE: "same_public key (JObj d) (JObj e)"

lemma hex_dump_not_sensitive: "lower key \<in> set hex_dump_keys \<Longrightarrow> \<not> sensitive key"
  by (auto simp: hex_dump_keys_def sensitive_def sensitive_key_fragments_def startswith_def)

lemma redact_same_public: "same_public key v w \<Longrightarrow> redact_json v key = redact_json w key"
proof (induction rule: same_public.induct)
  case (secret key v w)
  then show ?case by (cases v; cases w; cases "path_key key") (simp_all add: redact_text_def)
next
  case (path key s t)
  then show ?case by (simp add: redact_text_def)
next
  case (dump key s t)
  with hex_dump_not_sensitive [OF dump(1)] show ?case by (simp add: redact_text_def)
next
  case (array key xs ys)
  then have "map (\<lambda>x. redact_json x key) xs = map (\<lambda>x. redact_json x key) ys"
    by (induction rule: list_all2_induct) auto
  then show ?case by (simp add: comp_def)
next
  case (object d e key)
  then have "redact_mapping d = redact_mapping e"
    unfolding redact_mapping_def by (induction rule: list_all2_induct) auto
  then show ?case
    by (cases "sensitive key") (simp, simp only: redact_JObj not_False_eq_True)
qed simp

lemma redact_mapping_same_public:
  assumes "list_all2 (\<lambda>a b. fst a = fst b \<and> same_public (fst a) (snd a) (snd b)) d e"
  shows "redact_mapping d = redact_mapping e"
  using assms unfolding redact_mapping_def
  by (induction rule: list_all2_induct) (auto simp: redact_same_public)

text \<open>A redacted hex dump has a bounded length.\<close>

lemma redact_dump_prefix:
  assumes "\<not> sensitive key" and "lower key \<in> set hex_dump_keys" and "32 < length s"
  shows "redact_text key s = take 32 s @ ''...<redacted '' @ nat_str (length s - 32) @ '' chars>''"
  using assms by (simp add: redact_text_def)

end
