(* ===== verification/Audit_Log.thy ===== *)
theory Audit_Log
  imports Result_Data
begin

text \<open>
  The audit log (\<open>audit/logger.py\<close>): the event, and the two append-only writers at the level
  of the file's text and of the table's rows. The JSON codec of the event model (pydantic) is a
  parameter \<open>encode\<close>/\<open>decode\<close>; \<open>codec_ok\<close> states what the writers rely on. File and
  database errors other than the uniqueness constraint are not modelled, nor is the time stamp.
\<close>

datatype audit_outcome = SUCCESS | ERROR

record audit_event =
  ae_audit_id :: string
  ae_correlation_id :: string
  ae_session_id :: "string option"
  ae_tool_name :: string
  ae_permission_mode :: permission_level
  ae_state_before :: target_state
  ae_state_after :: target_state
  ae_outcome :: audit_outcome
  ae_request_summary :: "json dict"
  ae_result_summary :: "json dict"
  ae_warnings :: "string list"
  ae_error :: "debug_error option"

section \<open>The JSONL file\<close>

definition jsonl_append :: "('e \<Rightarrow> string) \<Rightarrow> 'e \<Rightarrow> string \<Rightarrow> string" where
  "jsonl_append encode event file = file @ encode event @ [LF]"

text \<open>Reading in text mode: carriage returns end lines too.\<close>

fun universal_newlines :: "string \<Rightarrow> string" where
  "universal_newlines [] = []"
| "universal_newlines (c # s) =
     (if c = CR then (case s of [] \<Rightarrow> [LF] | d # t \<Rightarrow>
                        if d = LF then universal_newlines s else LF # universal_newlines s)
      else c # universal_newlines s)"

text \<open>\<open>str.strip\<close> on the Latin-1 white space.\<close>

definition jsonl_lines :: "string \<Rightarrow> string list" where
  "jsonl_lines file =
     filter (\<lambda>l. l \<noteq> []) (map (strip_chars is_space) (split_on LF (universal_newlines file)))"

fun decode_all :: "(string \<Rightarrow> 'e res) \<Rightarrow> string list \<Rightarrow> 'e list res" where
  "decode_all decode [] = Inr []"
| "decode_all decode (l # ls) =
     (case decode l of
        Inl e \<Rightarrow> Inl e
      | Inr x \<Rightarrow> (case decode_all decode ls of Inl e \<Rightarrow> Inl e | Inr xs \<Rightarrow> Inr (x # xs)))"

definition jsonl_read :: "(string \<Rightarrow> 'e res) \<Rightarrow> string \<Rightarrow> 'e list res" where
  "jsonl_read decode file = decode_all decode (jsonl_lines file)"

text \<open>The codec: JSON text of an object has no line break and no outer white space.\<close>

definition codec_ok :: "('e \<Rightarrow> string) \<Rightarrow> (string \<Rightarrow> 'e res) \<Rightarrow> 'e \<Rightarrow> bool" where
  "codec_ok encode decode e \<longleftrightarrow>
     decode (encode e) = Inr e \<and> LF \<notin> set (encode e) \<and> CR \<notin> set (encode e)
     \<and> encode e \<noteq> [] \<and> \<not> is_space (hd (encode e)) \<and> \<not> is_space (last (encode e))"

lemma universal_newlines_id: "CR \<notin> set s \<Longrightarrow> universal_newlines (s @ t) = s @ universal_newlines t"
  by (induction s) auto

lemma strip_none:
  assumes "s \<noteq> []" and "\<not> p (hd s)" and "\<not> p (last s)"
  shows "strip_chars p s = s"
proof -
  have "dropWhile p s = s" using assms(1,2) by (cases s) auto
  then show ?thesis using assms by (simp add: strip_chars_def rstrip_none)
qed

text \<open>The text of a log, and what reading it gives.\<close>

definition jsonl_file :: "('e \<Rightarrow> string) \<Rightarrow> 'e list \<Rightarrow> string" where
  "jsonl_file encode events = foldl (\<lambda>file e. jsonl_append encode e file) [] events"

lemma jsonl_file_snoc: "jsonl_file encode (es @ [e]) = jsonl_append encode e (jsonl_file encode es)"
  by (simp add: jsonl_file_def)

lemma jsonl_file_concat: "jsonl_file encode es = concat (map (\<lambda>e. encode e @ [LF]) es)"
  by (induction es rule: rev_induct) (simp_all add: jsonl_file_def jsonl_append_def)

lemma jsonl_lines_Cons:
  assumes "codec_ok encode decode e"
  shows "jsonl_lines (encode e @ LF # file) = encode e # jsonl_lines file"
proof -
  note c = assms [unfolded codec_ok_def]
  have "universal_newlines (encode e @ LF # file) = encode e @ LF # universal_newlines file"
    using c by (simp add: universal_newlines_id)
  moreover have "split_on LF (encode e @ LF # universal_newlines file)
      = encode e # split_on LF (universal_newlines file)"
    using c by (simp add: split_on_sep split_on_none)
  moreover have "strip_chars is_space (encode e) = encode e"
    using c by (intro strip_none) auto
  ultimately show ?thesis using c by (simp add: jsonl_lines_def)
qed

lemma jsonl_read_file:
  assumes "\<forall>e \<in> set es. codec_ok encode decode e"
  shows "jsonl_read decode (jsonl_file encode es) = Inr es"
  using assms
proof (induction es)
  case Nil
  show ?case by (simp add: jsonl_read_def jsonl_file_def jsonl_lines_def strip_chars_def rstrip_chars_def)
next
  case (Cons e es)
  then show ?case
    using jsonl_lines_Cons [of encode decode e]
    by (simp add: jsonl_read_def jsonl_file_concat codec_ok_def)
qed

section \<open>The SQLite table\<close>

text \<open>A row: \<open>id\<close> (autoincrement), \<open>audit_id\<close> (unique) and the payload.\<close>

record audit_row =
  row_id :: nat
  row_audit_id :: string
  row_payload :: string

record audit_table =
  rows :: "audit_row list"
  next_row :: nat

definition new_table :: audit_table where
  "new_table = \<lparr>rows = [], next_row = 1\<rparr>"

definition sqlite_append :: "(audit_event \<Rightarrow> string) \<Rightarrow> audit_event \<Rightarrow> (audit_table, unit) prog" where
  "sqlite_append encode event tbl =
     (if ae_audit_id event \<in> row_audit_id ` set (rows tbl)
      then (Inl (Exc IntegrityError ''UNIQUE constraint failed: audit_events.audit_id''), tbl)
      else (Inr (), tbl\<lparr>rows := rows tbl @ [\<lparr>row_id = next_row tbl, row_audit_id = ae_audit_id event,
                                             row_payload = encode event\<rparr>],
                       next_row := next_row tbl + 1\<rparr>))"

definition sqlite_read :: "(string \<Rightarrow> audit_event res) \<Rightarrow> audit_table \<Rightarrow> audit_event list res" where
  "sqlite_read decode tbl = decode_all decode (map row_payload (sort_key row_id (rows tbl)))"

definition table_ok :: "audit_table \<Rightarrow> bool" where
  "table_ok tbl \<longleftrightarrow> sorted (map row_id (rows tbl)) \<and> (\<forall>r \<in> set (rows tbl). row_id r < next_row tbl)
     \<and> distinct (map row_audit_id (rows tbl))"

lemma new_table_ok: "table_ok new_table"
  by (simp add: table_ok_def new_table_def)

lemma keeps_table_ok [keeps_intros]: "keeps table_ok (sqlite_append encode e)"
  by (rule keepsI) (auto simp: sqlite_append_def table_ok_def sorted_append less_imp_le)

lemma table_ok_order: "table_ok tbl \<Longrightarrow> sort_key row_id (rows tbl) = rows tbl"
  by (simp add: table_ok_def sorted_sort_id sort_key_id_if_sorted)

lemma decode_all_append:
  "decode_all decode (xs @ ys) =
     (case decode_all decode xs of Inl e \<Rightarrow> Inl e
      | Inr as \<Rightarrow> (case decode_all decode ys of Inl e \<Rightarrow> Inl e | Inr bs \<Rightarrow> Inr (as @ bs)))"
  by (induction xs) (auto split: sum.split)

text \<open>An event that is accepted is read back after the ones before it.\<close>

lemma sqlite_read_append:
  assumes "table_ok tbl" and "decode (encode e) = Inr e" and "sqlite_append encode e tbl = (Inr (), tbl')"
    and "sqlite_read decode tbl = Inr es"
  shows "sqlite_read decode tbl' = Inr (es @ [e])"
proof -
  have ok': "table_ok tbl'" using keeps_run [OF keeps_table_ok assms(3,1)] .
  have rows': "rows tbl' = rows tbl @ [\<lparr>row_id = next_row tbl, row_audit_id = ae_audit_id e, row_payload = encode e\<rparr>]"
    using assms(3) by (auto simp: sqlite_append_def split: if_splits)
  have "sqlite_read decode tbl' = decode_all decode (map row_payload (rows tbl'))"
    using table_ok_order [OF ok'] by (simp add: sqlite_read_def)
  moreover have "decode_all decode (map row_payload (rows tbl)) = Inr es"
    using table_ok_order [OF assms(1)] assms(4) by (simp add: sqlite_read_def)
  ultimately show ?thesis
    using assms(2) rows' by (simp add: decode_all_append)
qed

lemma sqlite_append_fresh:
  "ae_audit_id e \<notin> row_audit_id ` set (rows tbl) \<Longrightarrow> fst (sqlite_append encode e tbl) = Inr ()"
  by (simp add: sqlite_append_def)

end
