(* ===== verification/Snapshots.thy ===== *)
theory Snapshots
  imports Debug_Session
begin

text \<open>
  Snapshots of a target (\<open>snapshots/*.py\<close>). \<open>capture\<close> takes the operations of its target as
  arguments, as the code takes any \<open>SnapshotTarget\<close>; the protocol is the locale
  \<open>snapshot_target\<close>, interpreted on debug sessions. The lemmas: a capture only reads, keeps the
  session's invariant, writes a fault register as the little-endian value of the bytes GDB
  returned, and holds exactly the sections that were asked for (\<open>captured\<close>).
\<close>

record debug_snapshot =
  snap_id :: string
  snap_session_id :: string
  snap_state :: target_state
  snap_core_registers :: "string dict"
  snap_fault_registers :: "string dict"
  snap_stack_address :: "string option"
  snap_stack_data_hex :: "string option"
  snap_symbol_context :: "symbol_context option"
  snap_summary :: string

definition fault_register_addresses :: "(string \<times> string) list" where
  "fault_register_addresses =
     [(''cfsr'', ''0xE000ED28''), (''hfsr'', ''0xE000ED2C''), (''dfsr'', ''0xE000ED30''),
      (''mmfar'', ''0xE000ED34''), (''bfar'', ''0xE000ED38'')]"

definition little_endian_hex :: "string \<Rightarrow> string res" where
  "little_endian_hex data_hex =
     (case bytes_fromhex data_hex of Inl e \<Rightarrow> Inl e | Inr bs \<Rightarrow> Inr (hex08 (from_bytes_le bs)))"

text \<open>\<open>a or b\<close> on optional strings\<close>

definition py_or :: "string option \<Rightarrow> string option \<Rightarrow> string option" where
  "py_or a b = (if truthy a then a else b)"

definition select_stack_pointer :: "string dict \<Rightarrow> string option" where
  "select_stack_pointer regs =
     py_or (dict_get regs ''sp'') (py_or (dict_get regs ''13'') (dict_get regs ''msp''))"

definition program_counter :: "string dict \<Rightarrow> string option" where
  "program_counter regs = py_or (dict_get regs ''pc'') (dict_get regs ''15'')"

definition build_summary :: "string dict \<Rightarrow> string dict \<Rightarrow> symbol_context option \<Rightarrow> string" where
  "build_summary core faults context =
     (let pc = program_counter core;
          cfsr = dict_get faults ''cfsr'';
          symbol = (case context of None \<Rightarrow> None | Some c \<Rightarrow> sc_symbol c);
          location = (if truthy symbol then '' ('' @ the symbol @ '')'' else [])
      in if truthy pc \<and> truthy cfsr
         then ''Target snapshot captured at PC '' @ the pc @ location @ '' with CFSR '' @ the cfsr @ ''.''
         else if truthy pc then ''Target snapshot captured at PC '' @ the pc @ location @ ''.''
         else ''Target snapshot captured.'')"

type_synonym 't memory_reader = "string \<Rightarrow> int \<Rightarrow> int \<Rightarrow> int \<Rightarrow> ('t, read_memory_data) prog"

definition read_fault_registers :: "'t memory_reader \<Rightarrow> ('t, string dict) prog" where
  "read_fault_registers rm =
     for_each fault_register_addresses (\<lambda>(name, address) acc.
       andthen (rm address 4 1 3000) (\<lambda>memory.
       andthen (lift_res (little_endian_hex (rmd_data_hex memory))) (\<lambda>v.
       ret (dict_set name v acc)))) []"

definition read_stack ::
  "'t memory_reader \<Rightarrow> debug_snapshot_request \<Rightarrow> string dict
   \<Rightarrow> ('t, string option \<times> string option) prog" where
  "read_stack rm request core =
     (if ds_include_stack request \<and> 0 < ds_stack_bytes request
      then (case select_stack_pointer core of
              None \<Rightarrow> ret (None, None)
            | Some address \<Rightarrow>
                andthen (rm address (ds_stack_bytes request) 1 3000) (\<lambda>memory.
                ret (Some address, Some (rmd_data_hex memory))))
      else ret (None, None))"

text \<open>\<open>SnapshotService.capture\<close>; \<open>fresh\<close> is the new id, \<open>resolver\<close> the optional \<open>symbol_context\<close>.\<close>

definition capture ::
  "(register_group \<Rightarrow> ('t, string dict) prog) \<Rightarrow> 't memory_reader
   \<Rightarrow> (string \<Rightarrow> int \<Rightarrow> int \<Rightarrow> ('t, symbol_context) prog) option \<Rightarrow> ('t \<Rightarrow> target_state)
   \<Rightarrow> string \<Rightarrow> string \<Rightarrow> debug_snapshot_request \<Rightarrow> ('t, debug_snapshot) prog" where
  "capture rr rm resolver state fresh sid request =
     andthen (if ds_include_core_registers request
              then andthen (rr GROUP_CORE) (\<lambda>regs. ret (normalize_registers regs ''cortex-m''))
              else ret []) (\<lambda>core.
     andthen (if ds_include_fault_registers request then read_fault_registers rm else ret []) (\<lambda>faults.
     andthen (read_stack rm request core) (\<lambda>stack.
     andthen (case (ds_include_symbol_context request, program_counter core, resolver) of
                (True, Some pc, Some resolve) \<Rightarrow>
                  andthen (resolve pc (ds_disassembly_instructions request) 3000) (\<lambda>c. ret (Some c))
              | _ \<Rightarrow> ret None) (\<lambda>context.
     andthen (gets state) (\<lambda>st.
     ret \<lparr>snap_id = fresh, snap_session_id = sid, snap_state = st, snap_core_registers = core,
          snap_fault_registers = faults, snap_stack_address = fst stack,
          snap_stack_data_hex = snd stack, snap_symbol_context = context,
          snap_summary = build_summary core faults context\<rparr>)))))"

definition capture_session ::
  "string \<Rightarrow> string \<Rightarrow> debug_snapshot_request \<Rightarrow> (debug_session, debug_snapshot) prog" where
  "capture_session = capture read_registers read_memory (Some symbol_context) state_of"

section \<open>The protocol of a snapshot target\<close>

text \<open>
  What the service relies on: each operation moves the target along a preorder \<open>R\<close> and keeps
  an invariant \<open>I\<close>, and none of them changes the target's state.
\<close>

locale snapshot_target = effect_order R
  for R :: "'t \<Rightarrow> 't \<Rightarrow> bool" +
  fixes I :: "'t \<Rightarrow> bool"
    and rr :: "register_group \<Rightarrow> ('t, string dict) prog"
    and rm :: "'t memory_reader"
    and resolver :: "(string \<Rightarrow> int \<Rightarrow> int \<Rightarrow> ('t, symbol_context) prog) option"
    and state :: "'t \<Rightarrow> target_state"
  assumes rr_R: "ensures R (rr g)" and rr_I: "keeps I (rr g)"
    and rm_R: "ensures R (rm a l w t)" and rm_I: "keeps I (rm a l w t)"
    and resolver_R: "resolver = Some r \<Longrightarrow> ensures R (r p n t)"
    and resolver_I: "resolver = Some r \<Longrightarrow> keeps I (r p n t)"
    and R_state: "R s u \<Longrightarrow> state u = state s"
begin

lemma read_fault_registers_R: "ensures R (read_fault_registers rm)"
  unfolding read_fault_registers_def
  by (rule ensures_for_each) (auto intro!: ensures_andthen rm_R ensures_basic)

lemma read_fault_registers_I: "keeps I (read_fault_registers rm)"
  unfolding read_fault_registers_def
  by (rule keeps_for_each) (auto intro!: keeps_andthen rm_I keeps_basic)

lemma read_stack_R: "ensures R (read_stack rm request core)"
  unfolding read_stack_def by (intro ensures_intros rm_R)

lemma read_stack_I: "keeps I (read_stack rm request core)"
  unfolding read_stack_def by (intro keeps_intros rm_I)

lemma capture_R: "ensures R (capture rr rm resolver state fresh sid request)"
  unfolding capture_def
  by (intro ensures_andthen ensures_if rr_R read_fault_registers_R read_stack_R ensures_basic)
    (auto intro!: ensures_andthen resolver_R ensures_basic split: bool.split option.split)

lemma capture_I: "keeps I (capture rr rm resolver state fresh sid request)"
  unfolding capture_def
  by (intro keeps_andthen keeps_if rr_I read_fault_registers_I read_stack_I keeps_basic)
    (auto intro!: keeps_andthen resolver_I keeps_basic split: bool.split option.split)

lemma capture_state:
  assumes "capture rr rm resolver state fresh sid request s = (r, t)"
  shows "state t = state s"
  using R_state ensures_run [OF capture_R assms] by simp

lemma capture_snapshot:
  assumes "capture rr rm resolver state fresh sid request s = (Inr snap, t)"
  shows "snap_id snap = fresh \<and> snap_session_id snap = sid \<and> snap_state snap = state s
    \<and> snap_summary snap = build_summary (snap_core_registers snap) (snap_fault_registers snap)
        (snap_symbol_context snap)
    \<and> (\<not> ds_include_core_registers request \<longrightarrow> snap_core_registers snap = [])
    \<and> (\<not> ds_include_fault_registers request \<longrightarrow> snap_fault_registers snap = [])"
proof -
  have "snap_state snap = state t"
    using assms by (auto simp: capture_def elim!: andthen_InrD)
  moreover have "state t = state s" using assms by (rule capture_state)
  ultimately show ?thesis using assms by (auto simp: capture_def elim!: andthen_InrD)
qed

end

text \<open>The effects of a read on a session: only reading commands, and the same state.\<close>

definition reads_only :: "debug_session \<Rightarrow> debug_session \<Rightarrow> bool" where
  "reads_only s t \<longleftrightarrow> session_extends reading s t \<and> machine t = machine s"

interpretation reads: effect_order reads_only
proof
  fix s t u
  show "reads_only s s" by (simp add: reads_only_def session_order.R_refl)
  show "reads_only s u" if "reads_only s t" "reads_only t u"
    using that session_order.R_trans by (auto simp: reads_only_def)
qed

lemma reads_gdb:
  assumes "reading cmd"
  shows "ensures reads_only (gdb cmd t)"
proof (rule ensuresI)
  fix s
  have "session_extends reading s (snd (gdb cmd t s))"
    using assms by (intro ensuresD [of "session_extends reading"] ensures_gdb)
  then show "reads_only s (snd (gdb cmd t s))"
    by (auto simp: reads_only_def on_controller_def zoom_def split: prod.split)
qed

lemma reads_read_registers: "ensures reads_only (read_registers g)"
  unfolding read_registers_def by (intro reads.ensures_intros reads_gdb) simp

lemma reads_read_memory: "ensures reads_only (read_memory a l w t)"
  unfolding read_memory_def by (intro reads.ensures_intros reads_gdb) simp

lemma reads_symbol_context: "ensures reads_only (symbol_context a n t)"
  unfolding symbol_context_def by (intro reads.ensures_intros reads_gdb) simp_all

interpretation session_target:
  snapshot_target reads_only session_ok read_registers read_memory "Some symbol_context" state_of
proof
  fix s t
  show "state_of t = state_of s" if "reads_only s t"
    using that by (simp add: reads_only_def state_of_def)
qed (auto intro: reads_read_registers reads_read_memory reads_symbol_context
    keeps_read_registers keeps_read_memory keeps_symbol_context)

lemma keeps_capture [keeps_intros]: "keeps session_ok (capture_session fresh sid request)"
  unfolding capture_session_def by (rule session_target.capture_I)

lemma reads_capture: "ensures reads_only (capture_session fresh sid request)"
  unfolding capture_session_def by (rule session_target.capture_R)

section \<open>What a capture records\<close>

text \<open>
  Independently of \<open>capture\<close>: the sections of a snapshot as reads of the session, one after the other.
  \<open>read_at a n s s' hex\<close>: reading \<open>n\<close> bytes at \<open>a\<close> takes the session from \<open>s\<close> to \<open>s'\<close> and gives \<open>hex\<close>.
\<close>

definition read_at :: "string \<Rightarrow> int \<Rightarrow> debug_session \<Rightarrow> debug_session \<Rightarrow> string \<Rightarrow> bool" where
  "read_at a n s s' hex \<longleftrightarrow> (\<exists>d. read_memory a n 1 3000 s = (Inr d, s') \<and> rmd_data_hex d = hex)"

text \<open>Each named word of memory, as the hexadecimal of its little-endian value.\<close>

primrec words_read :: "(string \<times> string) list \<Rightarrow> debug_session \<Rightarrow> debug_session \<Rightarrow> string dict \<Rightarrow> bool" where
  "words_read [] s s' regs \<longleftrightarrow> s' = s \<and> regs = []"
| "words_read (na # nas) s s' regs \<longleftrightarrow>
     (\<exists>s1 hex bs regs'. read_at (snd na) 4 s s1 hex \<and> bytes_fromhex hex = Inr bs
        \<and> regs = (fst na, hex08 (from_bytes_le bs)) # regs' \<and> words_read nas s1 s' regs')"

definition captured :: "debug_snapshot_request \<Rightarrow> debug_session \<Rightarrow> debug_snapshot \<Rightarrow> debug_session \<Rightarrow> bool" where
  "captured q s snap s' \<longleftrightarrow>
     (\<exists>s1 s2 s3.
        (if ds_include_core_registers q
         then \<exists>regs. read_registers GROUP_CORE s = (Inr regs, s1)
                \<and> snap_core_registers snap = normalize_registers regs ''cortex-m''
         else s1 = s \<and> snap_core_registers snap = [])
        \<and> (if ds_include_fault_registers q
           then words_read [(''cfsr'', ''0xE000ED28''), (''hfsr'', ''0xE000ED2C''), (''dfsr'', ''0xE000ED30''),
                  (''mmfar'', ''0xE000ED34''), (''bfar'', ''0xE000ED38'')] s1 s2 (snap_fault_registers snap)
           else s2 = s1 \<and> snap_fault_registers snap = [])
        \<and> (case if ds_include_stack q \<and> 0 < ds_stack_bytes q
                then select_stack_pointer (snap_core_registers snap) else None of
             Some sp \<Rightarrow> \<exists>hex. read_at sp (ds_stack_bytes q) s2 s3 hex
               \<and> snap_stack_address snap = Some sp \<and> snap_stack_data_hex snap = Some hex
           | None \<Rightarrow> s3 = s2 \<and> snap_stack_address snap = None \<and> snap_stack_data_hex snap = None)
        \<and> (case if ds_include_symbol_context q then program_counter (snap_core_registers snap) else None of
             Some pc \<Rightarrow> \<exists>c. symbol_context pc (ds_disassembly_instructions q) 3000 s3 = (Inr c, s')
               \<and> snap_symbol_context snap = Some c
           | None \<Rightarrow> s' = s3 \<and> snap_symbol_context snap = None))"

lemma words_read_loop:
  assumes each: "\<And>name address acc. each (name, address) acc =
       andthen (read_memory address 4 1 3000) (\<lambda>memory.
       andthen (lift_res (little_endian_hex (rmd_data_hex memory))) (\<lambda>v.
       ret (dict_set name v acc)))"
    and "for_each nas each acc s = (Inr regs, s')" and "distinct (map fst acc @ map fst nas)"
  shows "\<exists>new. regs = acc @ new \<and> words_read nas s s' new"
  using assms(2,3)
proof (induction nas arbitrary: acc s)
  case (Cons na nas)
  obtain name address where na: "na = (name, address)" by fastforce
  obtain acc1 s1 where one: "each na acc s = (Inr acc1, s1)" and rest: "for_each nas each acc1 s1 = (Inr regs, s')"
    using Cons.prems(1) by (auto elim!: andthen_InrD)
  obtain memory v where r: "read_memory address 4 1 3000 s = (Inr memory, s1)"
    and v: "little_endian_hex (rmd_data_hex memory) = Inr v" and acc1: "acc1 = dict_set name v acc"
    using one unfolding na each by (auto elim!: andthen_InrD)
  have fresh: "acc1 = acc @ [(name, v)]"
    using Cons.prems(2) unfolding acc1 by (intro dict_set_fresh) (auto simp: na)
  obtain new where new: "regs = acc1 @ new" "words_read nas s1 s' new"
    using Cons.IH [OF rest] Cons.prems(2) by (auto simp: fresh na)
  obtain bs where "bytes_fromhex (rmd_data_hex memory) = Inr bs" "v = hex08 (from_bytes_le bs)"
    using v by (auto simp: little_endian_hex_def split: sum.splits)
  then have "words_read (na # nas) s s' ((name, v) # new)"
    using r new(2) by (auto simp: na read_at_def)
  then show ?case using new(1) fresh by auto
qed simp

lemma fault_words_read:
  assumes "read_fault_registers read_memory s = (Inr regs, s')"
  shows "words_read fault_register_addresses s s' regs"
proof -
  have "distinct (map fst ([] :: string dict) @ map fst fault_register_addresses)"
    by (simp add: fault_register_addresses_def)
  from words_read_loop [OF _ assms [unfolded read_fault_registers_def] this]
  show ?thesis by simp
qed

lemma captured_sections:
  assumes "capture_session fresh sid q s = (Inr snap, s')"
  shows "captured q s snap s'"
proof -
  obtain core s1 faults s2 stack s3 where
    core: "(if ds_include_core_registers q
       then andthen (read_registers GROUP_CORE) (\<lambda>regs. ret (normalize_registers regs ''cortex-m''))
       else ret []) s = (Inr core, s1)"
    and faults: "(if ds_include_fault_registers q then read_fault_registers read_memory else ret []) s1 = (Inr faults, s2)"
    and stack: "read_stack read_memory q core s2 = (Inr stack, s3)"
    and symbols: "(case (ds_include_symbol_context q, program_counter core, Some symbol_context) of
         (True, Some pc, Some resolve) \<Rightarrow>
           andthen (resolve pc (ds_disassembly_instructions q) 3000) (\<lambda>c. ret (Some c))
       | _ \<Rightarrow> ret None) s3 = (Inr (snap_symbol_context snap), s')"
    and snap: "snap_core_registers snap = core" "snap_fault_registers snap = faults"
      "snap_stack_address snap = fst stack" "snap_stack_data_hex snap = snd stack"
    using assms unfolding capture_session_def capture_def by (auto elim!: andthen_InrD)
  have "if ds_include_core_registers q
      then \<exists>regs. read_registers GROUP_CORE s = (Inr regs, s1) \<and> core = normalize_registers regs ''cortex-m''
      else s1 = s \<and> core = []"
    using core by (auto split: if_splits elim!: andthen_InrD)
  moreover have "if ds_include_fault_registers q then words_read fault_register_addresses s1 s2 faults
      else s2 = s1 \<and> faults = []"
    using faults fault_words_read by (simp split: if_splits)
  moreover have "case if ds_include_stack q \<and> 0 < ds_stack_bytes q then select_stack_pointer core else None of
       Some sp \<Rightarrow> \<exists>hex. read_at sp (ds_stack_bytes q) s2 s3 hex \<and> fst stack = Some sp \<and> snd stack = Some hex
     | None \<Rightarrow> s3 = s2 \<and> fst stack = None \<and> snd stack = None"
    using stack by (auto simp: read_stack_def read_at_def split: option.splits if_splits elim!: andthen_InrD)
  moreover have "case if ds_include_symbol_context q then program_counter core else None of
       Some pc \<Rightarrow> \<exists>c. symbol_context pc (ds_disassembly_instructions q) 3000 s3 = (Inr c, s')
         \<and> snap_symbol_context snap = Some c
     | None \<Rightarrow> s' = s3 \<and> snap_symbol_context snap = None"
    using symbols by (auto split: option.splits bool.splits elim!: andthen_InrD)
  ultimately show ?thesis
    unfolding captured_def snap fault_register_addresses_def by (intro exI conjI)
qed

section \<open>Fault registers\<close>

lemma little_endian_hex_bytes: "little_endian_hex (bytes_hex bs) = Inr (hex08 (from_bytes_le bs))"
  by (simp add: little_endian_hex_def bytes_fromhex_hex)

text \<open>Contents that GDB did not send are the empty string, which is read as zero.\<close>

lemma little_endian_hex_empty: "little_endian_hex [] = Inr ''0x00000000''"
  by code_simp

lemma select_stack_pointer_sp:
  "dict_get regs ''sp'' = Some v \<Longrightarrow> v \<noteq> [] \<Longrightarrow> select_stack_pointer regs = Some v"
  by (simp add: select_stack_pointer_def py_or_def truthy_def)

end
