(* ===== verification/Hex_Text.thy ===== *)
theory Hex_Text
  imports Py_Text
begin

text \<open>
  The prelude, hexadecimal numbers: \<open>f"0x{i:08x}"\<close> (\<open>hex08\<close>) is read back by \<open>int(s, 0)\<close>
  (\<open>py_int0\<close>), which connects the components that print register values with those that parse
  them; and 32-bit words as little-endian bytes.
\<close>

definition hex_digit :: "char \<Rightarrow> bool" where
  "hex_digit c \<longleftrightarrow> (\<exists>n < 16. c = hex_char n)"

lemma hex_digit_char [simp]: "n < 16 \<Longrightarrow> hex_digit (hex_char n)"
  by (auto simp: hex_digit_def)

lemma hex_digit_facts:
  assumes "hex_digit c"
  shows "is_base_digit 16 c" "c \<noteq> CHR ''_''" "\<not> is_int_space c"
proof -
  obtain n where n: "n < 16" "c = hex_char n" using assms by (auto simp: hex_digit_def)
  show "is_base_digit 16 c" using n by (simp add: is_base_digit_def digit_val_hex_char)
  have "cp c = (if n < 10 then 48 + n else 87 + n)"
    using n by (simp add: hex_char_def cp_char_of)
  moreover have "cp (CHR ''_'') = 95" by (simp add: cp_def)
  ultimately show "c \<noteq> CHR ''_''" using n(1) by (auto split: if_splits)
  show "\<not> is_int_space c" using cp_hex_char [OF n(1)] n(2) by (auto simp: is_int_space_def hex_char_def cp_char_of)
qed

lemma hex_nat_digits: "list_all hex_digit (hex_nat n) \<and> hex_nat n \<noteq> []"
proof (induction n rule: hex_nat.induct)
  case (1 n)
  then show ?case by (subst (1 2) hex_nat.simps) simp
qed

lemma digits_val_hex_nat: "digits_val 16 (hex_nat n) = n"
proof (induction n rule: hex_nat.induct)
  case (1 n)
  show ?case
  proof (cases "n < 16")
    case True
    then show ?thesis by (subst hex_nat.simps) (simp add: digits_val_def digit_val_hex_char)
  next
    case False
    then have "digits_val 16 (hex_nat n) = 16 * (n div 16) + n mod 16"
      by (subst hex_nat.simps) (simp add: digits_val_snoc digit_val_hex_char 1)
    then show ?thesis by simp
  qed
qed

lemma digits_val_zeros: "digits_val b (replicate k (CHR ''0'') @ s) = digits_val b s"
proof (induction k)
  case (Suc k)
  have "digit_val (CHR ''0'') = Some 0" by (simp add: digit_val_def cp_def)
  with Suc show ?case by (simp add: digits_val_def)
qed simp

lemma hex_nat_length: "n < 16 ^ k \<Longrightarrow> 0 < k \<Longrightarrow> length (hex_nat n) \<le> k"
proof (induction n arbitrary: k rule: hex_nat.induct)
  case (1 n)
  show ?case
  proof (cases "n < 16")
    case True
    then show ?thesis using "1.prems" by (subst hex_nat.simps) simp
  next
    case False
    with "1.prems" obtain j where j: "k = Suc j" "0 < j"
      by (metis gr0_implies_Suc neq0_conv power_0 power_Suc0_right)
    have "n div 16 < 16 ^ j" using "1.prems"(1) j(1) by (simp add: div_less_iff_less_mult mult.commute)
    with "1.IH" [OF False _ j(2)] False j(1) show ?thesis by (subst hex_nat.simps) simp
  qed
qed

lemma hex_digits_padded: "list_all hex_digit s \<Longrightarrow> list_all hex_digit (zero_pad w s)"
proof -
  have "CHR ''0'' = hex_char 0" by code_simp
  then have "hex_digit (CHR ''0'')" by (metis hex_digit_char zero_less_numeral)
  then show "list_all hex_digit s \<Longrightarrow> list_all hex_digit (zero_pad w s)"
    by (auto simp: zero_pad_def list_all_iff)
qed

lemma no_double_underscore: "CHR ''_'' \<notin> set s \<Longrightarrow> \<not> double_underscore s"
  by (induction s rule: double_underscore.induct) auto

lemma digit_group_hex:
  assumes "list_all hex_digit s" and "s \<noteq> []"
  shows "digit_group 16 (skip_underscore s) = Some (digits_val 16 s)"
proof -
  have no: "CHR ''_'' \<notin> set s"
    using assms(1) hex_digit_facts(2) by (auto simp: list_all_iff)
  then have s: "skip_underscore s = s" "filter (\<lambda>c. c \<noteq> CHR ''_'') s = s"
    using assms(2) by (auto simp: skip_underscore_def filter_id_conv split: list.split)
  have "hd s \<noteq> CHR ''_''" "last s \<noteq> CHR ''_''"
    using no assms(2) by (metis hd_in_set, metis last_in_set)
  moreover have "list_all (is_base_digit 16) s"
    using assms(1) hex_digit_facts(1) by (auto simp: list_all_iff)
  ultimately show ?thesis
    using s assms(2) no_double_underscore [OF no] by (simp add: digit_group_def Let_def)
qed

lemma py_int0_hex08: "0 \<le> i \<Longrightarrow> py_int0 (hex08 i) = Some i"
proof -
  assume i: "0 \<le> i"
  define s where "s = zero_pad 8 (hex_nat (nat i))"
  have s: "list_all hex_digit s" "s \<noteq> []" "digits_val 16 s = nat i"
    using hex_nat_digits [of "nat i"] hex_digits_padded
    by (simp_all add: s_def digits_val_zeros digits_val_hex_nat zero_pad_def)
  have "\<not> is_int_space (last s)"
    using s(1,2) hex_digit_facts(3) by (auto simp: list_all_iff)
  moreover have "\<not> is_int_space (CHR ''0'')" "\<not> is_int_space (CHR ''x'')"
    by (simp_all add: is_int_space_def cp_def)
  ultimately have "strip_chars is_int_space (''0x'' @ s) = ''0x'' @ s"
    using s(2) by (simp add: strip_chars_def rstrip_none)
  moreover have "hex08 i = ''0x'' @ s" using i by (simp add: hex08_def s_def)
  moreover have "unsigned_int0 (''0x'' @ s) = Some (nat i)"
    using digit_group_hex [OF s(1,2)] s(3) by (simp add: unsigned_int0_def)
  ultimately show "py_int0 (hex08 i) = Some i" using i by (simp add: py_int0_def)
qed

lemma hex08_inj: "0 \<le> i \<Longrightarrow> 0 \<le> j \<Longrightarrow> hex08 i = hex08 j \<Longrightarrow> i = j"
  by (metis option.inject py_int0_hex08)

lemma hex08_length: "0 \<le> i \<Longrightarrow> i < 2 ^ 32 \<Longrightarrow> length (hex08 i) = 10"
  using hex_nat_length [of "nat i" 8] by (simp add: hex08_def zero_pad_def nat_less_iff)

section \<open>Words as bytes\<close>

text \<open>The bytes of a 32-bit word in memory, least significant first.\<close>

definition word_bytes :: "32 word \<Rightarrow> byte list" where
  "word_bytes w = [ucast w, ucast (drop_bit 8 w), ucast (drop_bit 16 w), ucast (drop_bit 24 w)]"

lemma length_word_bytes [simp]: "length (word_bytes w) = 4"
  by (simp add: word_bytes_def)

lemma byte_of_word: "uint (ucast (drop_bit n (w :: 32 word)) :: byte) = uint w div 2 ^ n mod 256"
proof -
  have "uint (drop_bit n w) = uint w div 2 ^ n"
    using unsigned_less [of w, where 'a = int]
    by (simp only: unsigned_drop_bit_eq drop_bit_eq_div [where 'a = int])
      (simp add: take_bit_eq_mod mod_pos_pos_trivial)
  then show ?thesis by (simp only: unsigned_ucast_eq take_bit_eq_mod) simp
qed

lemma base_256:
  fixes u :: int
  assumes "0 \<le> u" and "u < 256 * (256 * (256 * 256))"
  shows "u mod 256 + 256 * (u div 2 ^ 8 mod 256 + 256 * (u div 2 ^ 16 mod 256 + 256 * (u div 2 ^ 24 mod 256))) = u"
proof -
  define v x y where "v = u div 256" and "x = v div 256" and "y = x div 256"
  have d8: "u div 2 ^ 8 = v" by (simp add: v_def)
  have "(2::int) ^ 16 = 256 * 256" by simp
  then have d16: "u div 2 ^ 16 = x" by (simp only: v_def x_def zdiv_zmult2_eq)
  have "(2::int) ^ 24 = 256 * 256 * 256" by simp
  then have d24: "u div 2 ^ 24 = y" by (simp only: v_def x_def y_def zdiv_zmult2_eq)
  have "u div (256 * 256 * 256) < 256" "0 \<le> u div (256 * 256 * 256)"
    using assms by (simp_all only: div_less_iff_less_mult pos_imp_zdiv_nonneg_iff) simp_all
  then have y: "y mod 256 = y"
    by (simp only: v_def x_def y_def zdiv_zmult2_eq mod_pos_pos_trivial)
  have "x mod 256 + 256 * y = x" "v mod 256 + 256 * x = v" "u mod 256 + 256 * v = u"
    unfolding v_def x_def y_def by (rule mod_mult_div_eq)+
  then show ?thesis by (simp only: d8 d16 d24 y)
qed

lemma from_bytes_word: "from_bytes_le (word_bytes w) = uint w"
proof -
  have b: "uint (ucast w :: byte) = uint w mod 256"
    by (simp add: unsigned_ucast_eq take_bit_eq_mod)
  have "uint w < 256 * (256 * (256 * 256))"
    by (rule less_le_trans [OF unsigned_less]) simp
  then show ?thesis
    using base_256 [of "uint w"]
    by (simp only: word_bytes_def from_bytes_le.simps unsigned_greater_eq b byte_of_word mult_zero_right add_0_right)
qed

end
