(* ===== verification/Fault_Analyzer.thy ===== *)
theory Fault_Analyzer
  imports Snapshots Hex_Text
begin

text \<open>
  The Cortex-M fault analyzer (\<open>analyzers/cortexm/fault_analyzer.py\<close>): from a snapshot to a
  fault type, evidence, hypotheses and decoded registers. Register values are Python ints
  (unbounded, \<open>int\<close>) with bitwise operations. The lemmas read the fault type off the status flags of
  CFSR and HFSR by their architectural names and positions (\<open>cfsr_flags\<close>), prove the stacked frame of eight little-endian words decoded, and bound
  the confidence.
\<close>

unbundle bit_operations_syntax

definition usage_fault_bits :: "(nat \<times> string) list" where
  "usage_fault_bits =
     [(0, ''UNDEFINSTR''), (1, ''INVSTATE''), (2, ''INVPC''), (3, ''NOCP''), (8, ''UNALIGNED''),
      (9, ''DIVBYZERO'')]"

definition bus_fault_bits :: "(nat \<times> string) list" where
  "bus_fault_bits =
     [(0, ''IBUSERR''), (1, ''PRECISERR''), (2, ''IMPRECISERR''), (3, ''UNSTKERR''),
      (4, ''STKERR''), (5, ''LSPERR''), (7, ''BFARVALID'')]"

definition memmanage_fault_bits :: "(nat \<times> string) list" where
  "memmanage_fault_bits =
     [(0, ''IACCVIOL''), (1, ''DACCVIOL''), (3, ''MUNSTKERR''), (4, ''MSTKERR''), (5, ''MLSPERR''),
      (7, ''MMARVALID'')]"

text \<open>\<open>value & (1 << n)\<close> as a truth value\<close>

definition test_bit :: "int \<Rightarrow> nat \<Rightarrow> bool" where
  "test_bit v n \<longleftrightarrow> v AND push_bit n 1 \<noteq> 0"

definition decode_bit_names :: "int \<Rightarrow> (nat \<times> string) list \<Rightarrow> string list" where
  "decode_bit_names v names = map snd (filter (\<lambda>(n, name). test_bit v n) names)"

definition mem_bits :: "int \<Rightarrow> int" where
  "mem_bits cfsr = cfsr AND 0xFF"

definition bus_bits :: "int \<Rightarrow> int" where
  "bus_bits cfsr = drop_bit 8 cfsr AND 0xFF"

definition usage_bits :: "int \<Rightarrow> int" where
  "usage_bits cfsr = drop_bit 16 cfsr AND 0xFFFF"

definition or_zero :: "int option \<Rightarrow> int" where
  "or_zero v = (case v of None \<Rightarrow> 0 | Some i \<Rightarrow> i)"

definition classify_fault :: "int option \<Rightarrow> int option \<Rightarrow> string \<times> string list" where
  "classify_fault cfsr hfsr =
     (let c = or_zero cfsr; h = or_zero hfsr;
          usage = decode_bit_names (usage_bits c) usage_fault_bits;
          bus = decode_bit_names (bus_bits c) bus_fault_bits;
          mem = decode_bit_names (mem_bits c) memmanage_fault_bits
      in if usage \<noteq> []
         then (''UsageFault: '' @ join '', '' usage, map (\<lambda>n. ''CFSR.UFSR.'' @ n @ '' is set.'') usage)
         else if bus \<noteq> []
         then (''BusFault: '' @ join '', '' bus, map (\<lambda>n. ''CFSR.BFSR.'' @ n @ '' is set.'') bus)
         else if mem \<noteq> []
         then (''MemManageFault: '' @ join '', '' mem, map (\<lambda>n. ''CFSR.MMFSR.'' @ n @ '' is set.'') mem)
         else if test_bit h 30 then (''HardFault: FORCED'', [''HFSR.FORCED is set.''])
         else if test_bit h 1 then (''HardFault: VECTTBL'', [''HFSR.VECTTBL is set.''])
         else (''No Cortex-M fault bits set'', []))"

text \<open>One of the two halves of \<open>_add_fault_address_evidence\<close>: the decoded flag and the evidence.\<close>

definition address_evidence ::
  "string \<Rightarrow> string \<Rightarrow> bool \<Rightarrow> string dict \<Rightarrow> string list \<times> json dict \<Rightarrow> string list \<times> json dict" where
  "address_evidence reg label valid faults st =
     (case st of (evidence, decoded) \<Rightarrow>
        if valid
        then (if truthy (dict_get faults reg)
              then evidence @ [label @ '' is valid at '' @ the (dict_get faults reg) @ ''.''] else evidence,
              dict_set (reg @ ''_valid'') (JBool True) decoded)
        else if dict_get faults reg \<noteq> None
        then (evidence, dict_set (reg @ ''_valid'') (JBool False) decoded)
        else (evidence, decoded))"

definition add_fault_address_evidence ::
  "string dict \<Rightarrow> int option \<Rightarrow> string list \<times> json dict \<Rightarrow> string list \<times> json dict" where
  "add_fault_address_evidence faults cfsr st =
     address_evidence ''bfar'' ''BFAR'' (test_bit (bus_bits (or_zero cfsr)) 7) faults
       (address_evidence ''mmfar'' ''MMFAR'' (test_bit (mem_bits (or_zero cfsr)) 7) faults st)"

definition parse_int :: "string option \<Rightarrow> int option" where
  "parse_int v = (case v of None \<Rightarrow> None | Some s \<Rightarrow> py_int0 s)"

definition is_exc_return :: "int \<Rightarrow> bool" where
  "is_exc_return v \<longleftrightarrow> v AND 0xFF000000 = 0xFF000000"

definition decode_exc_return :: "int \<Rightarrow> json" where
  "decode_exc_return v = JObj
     [(''raw'', JStr (hex08 v)),
      (''stack_pointer'', JStr (if test_bit v 2 then ''psp'' else ''msp'')),
      (''return_mode'', JStr (if test_bit v 3 then ''thread'' else ''handler'')),
      (''frame_type'', JStr (if test_bit v 4 then ''basic'' else ''extended''))]"

fun chunks_of_4 :: "byte list \<Rightarrow> byte list list" where
  "chunks_of_4 (a # b # c # d # r) = [a, b, c, d] # chunks_of_4 r"
| "chunks_of_4 _ = []"

definition frame_names :: "string list" where
  "frame_names = [''r0'', ''r1'', ''r2'', ''r3'', ''r12'', ''lr'', ''pc'', ''xpsr'']"

definition decode_stacked_frame :: "string \<Rightarrow> string dict option" where
  "decode_stacked_frame stack_data_hex =
     (case bytes_fromhex stack_data_hex of
        Inl e \<Rightarrow> None
      | Inr bs \<Rightarrow>
          if length bs < 32 then None
          else Some (zip frame_names (map (\<lambda>c. hex08 (from_bytes_le c)) (chunks_of_4 (take 32 bs)))))"

section \<open>The analysis\<close>

definition hypotheses_for :: "string \<Rightarrow> string list" where
  "hypotheses_for fault_type =
     (if contains fault_type ''INVSTATE''
      then [''Execution branched to an invalid non-Thumb address.'',
            ''A function pointer or return address may be corrupted.'']
      else if contains fault_type ''PRECISERR''
      then [''A precise data bus fault occurred at or near the faulting instruction.'']
      else if contains fault_type ''MemManage''
      then [''The target accessed an invalid or protected memory region.'']
      else if contains fault_type ''HardFault''
      then [''A configurable fault escalated into HardFault.'']
      else [])"

definition base_actions :: "string list" where
  "base_actions =
     [''Resolve the stacked PC to a symbol.'', ''Disassemble around the PC.'',
      ''Inspect LR and the active stack pointer.'']"

definition exc_return_evidence :: "string dict \<Rightarrow> string list \<times> json dict \<Rightarrow> string list \<times> json dict" where
  "exc_return_evidence regs st =
     (case (parse_int (dict_get regs ''lr''), st) of
        (Some lr, evidence, decoded) \<Rightarrow>
          if is_exc_return lr
          then (evidence @ [''LR contains EXC_RETURN '' @ hex08 lr @ ''.''],
                dict_set ''exc_return'' (decode_exc_return lr) decoded)
          else st
      | _ \<Rightarrow> st)"

definition xpsr_evidence :: "string dict \<Rightarrow> string list \<times> json dict \<Rightarrow> string list \<times> json dict" where
  "xpsr_evidence regs st =
     (case (parse_int (dict_get regs ''xpsr''), st) of
        (Some xpsr, evidence, decoded) \<Rightarrow>
          (evidence @ [''xPSR active exception number is '' @ int_str (xpsr AND 0x1FF) @ ''.'']
             @ (if test_bit xpsr 24 then []
                else [''xPSR T bit is clear, indicating invalid Thumb state evidence.'']),
           dict_set ''active_exception'' (JInt (xpsr AND 0x1FF)) decoded)
      | _ \<Rightarrow> st)"

definition symbol_evidence :: "symbol_context option \<Rightarrow> string list \<times> json dict \<Rightarrow> string list \<times> json dict" where
  "symbol_evidence context st =
     (case (context, st) of
        (Some c, evidence, decoded) \<Rightarrow>
          (let decoded' = dict_set ''symbol_context'' (JObj
                 [(''address'', JStr (sc_address c)), (''symbol'', opt_json (sc_symbol c)),
                  (''source'', opt_json (sc_source c)), (''confidence'', JFloat (sc_confidence c))]) decoded
           in (case sc_disassembly c of
                 [] \<Rightarrow> (evidence @ [summarize_symbol_context c], decoded')
               | i # is \<Rightarrow>
                   (evidence @ [summarize_symbol_context c,
                      ''Nearby instruction at '' @ di_address i @ '': '' @ di_instruction i],
                    dict_set ''faulting_instruction'' (JStr (di_instruction i)) decoded')))
      | _ \<Rightarrow> st)"

definition frame_evidence :: "string option \<Rightarrow> string list \<times> json dict \<Rightarrow> string list \<times> json dict" where
  "frame_evidence stack st =
     (case (stack, st) of
        (Some (c # s), evidence, decoded) \<Rightarrow>
          (case decode_stacked_frame (c # s) of
             Some frame \<Rightarrow>
               (evidence @ [''Stacked exception PC is '' @ the (dict_get frame ''pc'') @ '' and LR is '' @
                            the (dict_get frame ''lr'') @ ''.''],
                dict_set ''stacked_frame'' (JObj (map (\<lambda>(k, v). (k, JStr v)) frame)) decoded)
           | None \<Rightarrow> (evidence @ [''Stack bytes were captured but no complete frame was decoded.''], decoded))
      | _ \<Rightarrow> st)"

definition analyze :: "debug_snapshot \<Rightarrow> fault_analysis_data" where
  "analyze snapshot =
     (let regs = normalize_registers (snap_core_registers snapshot) ''cortex-m'';
          faults = normalize_registers (snap_fault_registers snapshot) ''cortex-m'';
          cfsr = parse_int (dict_get faults ''cfsr'');
          hfsr = parse_int (dict_get faults ''hfsr'');
          decoded0 = map (\<lambda>k. (k, opt_json (dict_get regs k))) [''pc'', ''lr'', ''sp'', ''xpsr'']
            @ map (\<lambda>k. (k, opt_json (dict_get faults k))) [''cfsr'', ''hfsr'', ''dfsr'', ''mmfar'', ''bfar''];
          (fault_type, bit_evidence) = classify_fault cfsr hfsr;
          (evidence, decoded) =
            frame_evidence (snap_stack_data_hex snapshot)
              (symbol_evidence (snap_symbol_context snapshot)
                (xpsr_evidence regs
                  (exc_return_evidence regs
                    (add_fault_address_evidence faults cfsr (bit_evidence, decoded0)))));
          hyps = hypotheses_for fault_type
      in \<lparr>fad_fault_type = fault_type,
          fad_confidence = (if or_zero cfsr \<noteq> 0 \<or> or_zero hfsr \<noteq> 0 then 9 / 10 else 7 / 20),
          fad_evidence = (if evidence = []
            then [''No Cortex-M fault status bits were set in the snapshot.''] else evidence),
          fad_hypotheses = (if hyps = []
            then [''No specific fault hypothesis can be made from status bits.''] else hyps),
          fad_recommended_next_actions =
            (if snap_symbol_context snapshot = None then base_actions
             else filter (\<lambda>a. a \<notin> {''Resolve the stacked PC to a symbol.'', ''Disassemble around the PC.''})
                    base_actions),
          fad_decoded_registers = decoded\<rparr>)"

section \<open>Bits\<close>

lemma test_bit_iff [simp]: "test_bit v n \<longleftrightarrow> bit v n"
  by (simp add: test_bit_def push_bit_eq_mult and_exp_eq_0_iff_not_bit)

lemma mask_bits: "bit (0xFF :: int) n \<longleftrightarrow> n < 8" "bit (0xFFFF :: int) n \<longleftrightarrow> n < 16"
  using bit_mask_iff [of 8 n, where 'a = int] bit_mask_iff [of 16 n, where 'a = int]
  by (simp_all add: mask_eq_exp_minus_1)

lemma field_bits:
  "bit (mem_bits c) n \<longleftrightarrow> n < 8 \<and> bit c n"
  "bit (bus_bits c) n \<longleftrightarrow> n < 8 \<and> bit c (8 + n)"
  "bit (usage_bits c) n \<longleftrightarrow> n < 16 \<and> bit c (16 + n)"
  by (auto simp: mem_bits_def bus_bits_def usage_bits_def bit_and_iff bit_drop_bit_eq mask_bits)

text \<open>
  The status flags of the Configurable Fault Status Register by their architectural positions in the
  whole register (ARMv7-M, B3.2.15), and those that are set in a part of it.
\<close>

definition cfsr_flags :: "(nat \<times> string) list" where
  "cfsr_flags =
     [(0, ''IACCVIOL''), (1, ''DACCVIOL''), (3, ''MUNSTKERR''), (4, ''MSTKERR''), (5, ''MLSPERR''),
      (7, ''MMARVALID''),
      (8, ''IBUSERR''), (9, ''PRECISERR''), (10, ''IMPRECISERR''), (11, ''UNSTKERR''), (12, ''STKERR''),
      (13, ''LSPERR''), (15, ''BFARVALID''),
      (16, ''UNDEFINSTR''), (17, ''INVSTATE''), (18, ''INVPC''), (19, ''NOCP''), (24, ''UNALIGNED''),
      (25, ''DIVBYZERO'')]"

definition set_flags :: "nat \<Rightarrow> nat \<Rightarrow> int \<Rightarrow> string list" where
  "set_flags lo hi c = [name. (n, name) \<leftarrow> cfsr_flags, lo \<le> n \<and> n < hi \<and> bit c n]"

lemma decoded_flags:
  "decode_bit_names (usage_bits c) usage_fault_bits = set_flags 16 32 c"
  "decode_bit_names (bus_bits c) bus_fault_bits = set_flags 8 16 c"
  "decode_bit_names (mem_bits c) memmanage_fault_bits = set_flags 0 8 c"
  by (simp_all add: decode_bit_names_def usage_fault_bits_def bus_fault_bits_def memmanage_fault_bits_def
      field_bits set_flags_def cfsr_flags_def)

text \<open>The fault type and its evidence as a decision on the flags, in the order of severity the code fixes.\<close>

lemma classify_flags:
  "classify_fault cfsr hfsr =
     (let c = or_zero cfsr; h = or_zero hfsr;
          usage = set_flags 16 32 c; bus = set_flags 8 16 c; mem = set_flags 0 8 c
      in if usage \<noteq> []
         then (''UsageFault: '' @ join '', '' usage, map (\<lambda>n. ''CFSR.UFSR.'' @ n @ '' is set.'') usage)
         else if bus \<noteq> []
         then (''BusFault: '' @ join '', '' bus, map (\<lambda>n. ''CFSR.BFSR.'' @ n @ '' is set.'') bus)
         else if mem \<noteq> []
         then (''MemManageFault: '' @ join '', '' mem, map (\<lambda>n. ''CFSR.MMFSR.'' @ n @ '' is set.'') mem)
         else if bit h 30 then (''HardFault: FORCED'', [''HFSR.FORCED is set.''])
         else if bit h 1 then (''HardFault: VECTTBL'', [''HFSR.VECTTBL is set.''])
         else (''No Cortex-M fault bits set'', []))"
  by (simp add: classify_fault_def decoded_flags Let_def)

lemma set_flags_empty: "set_flags lo hi c = [] \<longleftrightarrow> (\<forall>(n, name) \<in> set cfsr_flags. lo \<le> n \<and> n < hi \<longrightarrow> \<not> bit c n)"
  by (auto simp: set_flags_def)

lemma classify_none:
  "fst (classify_fault cfsr hfsr) = ''No Cortex-M fault bits set'' \<longleftrightarrow> snd (classify_fault cfsr hfsr) = []"
  by (simp add: classify_fault_def Let_def)

text \<open>An imprecise bus fault is explained as a precise one: the name contains the other.\<close>

lemma imprecise_is_precise: "contains ''IMPRECISERR'' ''PRECISERR''"
  by (simp add: startswith_def)

lemma contains_suffix: "contains s p \<Longrightarrow> contains (q @ s) p"
  by (induction q) auto

lemma imprecise_hypothesis:
  "hypotheses_for ''BusFault: IMPRECISERR'' =
     [''A precise data bus fault occurred at or near the faulting instruction.'']"
  by (simp add: hypotheses_for_def startswith_def)

section \<open>The stacked frame\<close>

lemma chunks_of_words: "chunks_of_4 (concat (map word_bytes ws)) = map word_bytes ws"
  by (induction ws) (simp_all add: word_bytes_def)

lemma length_concat_words: "length (concat (map word_bytes ws)) = 4 * length ws"
  by (induction ws) simp_all

text \<open>Eight words in memory, whatever follows them, are decoded to their values by name.\<close>

lemma decode_stacked_frame_words:
  assumes "length ws = 8"
  shows "decode_stacked_frame (bytes_hex (concat (map word_bytes ws) @ rest)) =
    Some (zip frame_names (map (\<lambda>w. hex08 (uint w)) ws))"
proof -
  have "take 32 (concat (map word_bytes ws) @ rest) = concat (map word_bytes ws)"
    using length_concat_words [of ws] assms by simp
  then show ?thesis
    using length_concat_words [of ws] assms
    by (simp add: decode_stacked_frame_def bytes_fromhex_hex chunks_of_words from_bytes_word comp_def)
qed

lemma chunks_length: "length (chunks_of_4 bs) = length bs div 4"
  by (induction bs rule: chunks_of_4.induct) simp_all

lemma decode_stacked_frame_Some:
  assumes "decode_stacked_frame s = Some frame"
  shows "map fst frame = frame_names \<and> dict_ok frame"
proof -
  obtain bs where bs: "\<not> length bs < 32"
      and f: "frame = zip frame_names (map (\<lambda>c. hex08 (from_bytes_le c)) (chunks_of_4 (take 32 bs)))"
    using assms by (auto simp: decode_stacked_frame_def split: sum.splits if_splits)
  have "map fst frame = frame_names"
    using bs by (simp add: f chunks_length frame_names_def)
  then show ?thesis by (simp add: dict_ok_def frame_names_def)
qed

section \<open>Bounds of the result\<close>

lemma confidence_range:
  "0 \<le> fad_confidence (analyze s) \<and> fad_confidence (analyze s) \<le> 1"
  by (simp add: analyze_def Let_def split: prod.split)

lemma evidence_nonempty: "fad_evidence (analyze s) \<noteq> [] \<and> fad_hypotheses (analyze s) \<noteq> []"
  by (simp add: analyze_def Let_def split: prod.split)

lemma analyze_type:
  "fad_fault_type (analyze s) =
     fst (classify_fault (parse_int (dict_get (normalize_registers (snap_fault_registers s) ''cortex-m'') ''cfsr''))
                         (parse_int (dict_get (normalize_registers (snap_fault_registers s) ''cortex-m'') ''hfsr'')))"
  by (simp add: analyze_def Let_def split: prod.split)

lemma analyze_hypotheses:
  "fad_hypotheses (analyze s) =
     (if hypotheses_for (fad_fault_type (analyze s)) = []
      then [''No specific fault hypothesis can be made from status bits.'']
      else hypotheses_for (fad_fault_type (analyze s)))"
  unfolding analyze_type
  by (simp only: analyze_def Let_def split_beta fault_analysis_data.simps)

end
