(* ===== verification/Svd.thy ===== *)
theory Svd
  imports Result_Data
begin

text \<open>
  CMSIS-SVD devices (\<open>svd.py\<close>) and peripheral diffs (\<open>peripherals.py\<close>). An XML document is
  a tree of elements with the two queries the loader makes, \<open>find\<close> and \<open>findall("./a/b")\<close>;
  reading and parsing the file is outside. The lemmas: a field is decoded to exactly its bits,
  disjoint fields that cover a register determine its value, loaded devices are well formed,
  and a register diff is empty exactly for equal registers.
\<close>

unbundle bit_operations_syntax

section \<open>The device model\<close>

record svd_field =
  fld_name :: string
  bit_offset :: int
  bit_width :: int

record svd_register =
  reg_name :: string
  address_offset :: int
  reg_fields :: "svd_field dict"

record svd_peripheral =
  per_name :: string
  base_address :: int
  registers :: "svd_register dict"

record svd_device =
  dev_name :: string
  peripherals :: "svd_peripheral dict"

definition decode_field :: "svd_field \<Rightarrow> int \<Rightarrow> int" where
  "decode_field f v = drop_bit (nat (bit_offset f)) v AND (push_bit (nat (bit_width f)) 1 - 1)"

definition decode_register :: "svd_register \<Rightarrow> int \<Rightarrow> int dict" where
  "decode_register r v = map (\<lambda>(name, f). (name, decode_field f v)) (reg_fields r)"

definition key_error :: "string \<Rightarrow> py_exc" where
  "key_error k = Exc KeyError (py_repr k)"

definition register_address :: "svd_peripheral \<Rightarrow> string \<Rightarrow> int res" where
  "register_address p name =
     (case dict_get (registers p) name of
        None \<Rightarrow> Inl (key_error name)
      | Some r \<Rightarrow> Inr (base_address p + address_offset r))"

definition device_peripheral :: "svd_device \<Rightarrow> string \<Rightarrow> svd_peripheral res" where
  "device_peripheral d name =
     (case dict_get (peripherals d) name of None \<Rightarrow> Inl (key_error name) | Some p \<Rightarrow> Inr p)"

section \<open>Loading\<close>

datatype element = Element (tag: string) (elem_text: "string option") (children: "element list")

definition find_child :: "element \<Rightarrow> string \<Rightarrow> element option" where
  "find_child node name = List.find (\<lambda>c. tag c = name) (children node)"

definition find_path :: "element \<Rightarrow> string \<Rightarrow> string \<Rightarrow> element list" where
  "find_path node outer inner =
     concat (map (\<lambda>c. filter (\<lambda>d. tag d = inner) (children c))
       (filter (\<lambda>c. tag c = outer) (children node)))"

definition node_text :: "element \<Rightarrow> string \<Rightarrow> string option" where
  "node_text node name =
     (case find_child node name of
        None \<Rightarrow> None
      | Some c \<Rightarrow> map_option (strip_chars is_space) (elem_text c))"

definition required_text :: "element \<Rightarrow> string \<Rightarrow> string res" where
  "required_text node name =
     (case node_text node name of
        None \<Rightarrow> Inl (Exc ValueError (''missing SVD element: '' @ name))
      | Some s \<Rightarrow> Inr s)"

text \<open>\<open>int(value, 0)\<close> of a required element, and a model's lower bound on it.\<close>

definition parse_svd_int :: "string \<Rightarrow> int res" where
  "parse_svd_int s =
     (case py_int0 s of
        None \<Rightarrow> Inl (Exc ValueError (''invalid literal for int() with base 0: '' @ py_repr s))
      | Some i \<Rightarrow> Inr i)"

definition required_int :: "element \<Rightarrow> string \<Rightarrow> int res" where
  "required_int node name =
     (case required_text node name of Inl e \<Rightarrow> Inl e | Inr s \<Rightarrow> parse_svd_int s)"

definition at_least :: "int \<Rightarrow> int \<Rightarrow> 'a \<Rightarrow> 'a res" where
  "at_least lo i x = (if lo \<le> i then Inr x else Inl (Exc ValidationError ''greater_than_equal''))"

text \<open>\<open>for node in nodes: item = parse(node); d[item.name] = item\<close>\<close>

fun load_all :: "(element \<Rightarrow> 'a res) \<Rightarrow> ('a \<Rightarrow> string) \<Rightarrow> element list \<Rightarrow> 'a dict \<Rightarrow> 'a dict res" where
  "load_all parse name [] d = Inr d"
| "load_all parse name (n # ns) d =
     (case parse n of Inl e \<Rightarrow> Inl e | Inr x \<Rightarrow> load_all parse name ns (dict_set (name x) x d))"

definition parse_field :: "element \<Rightarrow> svd_field res" where
  "parse_field node =
     (case required_text node ''name'' of Inl e \<Rightarrow> Inl e | Inr n \<Rightarrow>
     (case required_int node ''bitOffset'' of Inl e \<Rightarrow> Inl e | Inr off \<Rightarrow>
     (case required_int node ''bitWidth'' of Inl e \<Rightarrow> Inl e | Inr w \<Rightarrow>
     (if 0 \<le> off then at_least 1 w \<lparr>fld_name = n, bit_offset = off, bit_width = w\<rparr>
      else Inl (Exc ValidationError ''greater_than_equal'')))))"

definition parse_register :: "element \<Rightarrow> svd_register res" where
  "parse_register node =
     (case required_text node ''name'' of Inl e \<Rightarrow> Inl e | Inr n \<Rightarrow>
     (case load_all parse_field fld_name (find_path node ''fields'' ''field'') [] of Inl e \<Rightarrow> Inl e | Inr fs \<Rightarrow>
     (case required_int node ''addressOffset'' of Inl e \<Rightarrow> Inl e | Inr off \<Rightarrow>
     at_least 0 off \<lparr>reg_name = n, address_offset = off, reg_fields = fs\<rparr>)))"

definition parse_peripheral :: "element \<Rightarrow> svd_peripheral res" where
  "parse_peripheral node =
     (case required_text node ''name'' of Inl e \<Rightarrow> Inl e | Inr n \<Rightarrow>
     (case required_int node ''baseAddress'' of Inl e \<Rightarrow> Inl e | Inr base \<Rightarrow>
     (case load_all parse_register reg_name (find_path node ''registers'' ''register'') [] of
        Inl e \<Rightarrow> Inl e
      | Inr rs \<Rightarrow> at_least 0 base \<lparr>per_name = n, base_address = base, registers = rs\<rparr>)))"

text \<open>\<open>load_svd\<close> on the parsed document; \<open>stem\<close> is the file name without its suffix.\<close>

definition load_svd :: "element \<Rightarrow> string \<Rightarrow> svd_device res" where
  "load_svd doc stem =
     (case load_all parse_peripheral per_name (find_path doc ''peripherals'' ''peripheral'') [] of
        Inl e \<Rightarrow> Inl e
      | Inr ps \<Rightarrow> Inr
          \<lparr>dev_name = (case node_text doc ''name'' of Some (c # s) \<Rightarrow> c # s | _ \<Rightarrow> stem),
           peripherals = ps\<rparr>)"

section \<open>Well-formed devices\<close>

definition field_ok :: "svd_field \<Rightarrow> bool" where
  "field_ok f \<longleftrightarrow> 0 \<le> bit_offset f \<and> 1 \<le> bit_width f"

definition named :: "('a \<Rightarrow> string) \<Rightarrow> ('a \<Rightarrow> bool) \<Rightarrow> 'a dict \<Rightarrow> bool" where
  "named name good d \<longleftrightarrow> dict_ok d \<and> (\<forall>(k, x) \<in> set d. name x = k \<and> good x)"

definition register_ok :: "svd_register \<Rightarrow> bool" where
  "register_ok r \<longleftrightarrow> 0 \<le> address_offset r \<and> named fld_name field_ok (reg_fields r)"

definition peripheral_ok :: "svd_peripheral \<Rightarrow> bool" where
  "peripheral_ok p \<longleftrightarrow> 0 \<le> base_address p \<and> named reg_name register_ok (registers p)"

definition device_ok :: "svd_device \<Rightarrow> bool" where
  "device_ok d \<longleftrightarrow> named per_name peripheral_ok (peripherals d)"

lemma named_set: "named name good d \<Longrightarrow> good x \<Longrightarrow> named name good (dict_set (name x) x d)"
  using set_dict_set [of "name x" x d] by (auto simp: named_def)

lemma load_all_named:
  assumes "load_all parse name ns d = Inr d'" and "named name good d"
    and "\<And>n x. parse n = Inr x \<Longrightarrow> good x"
  shows "named name good d'"
  using assms(1,2)
  by (induction ns arbitrary: d) (auto split: sum.splits intro: named_set assms(3))

lemma named_Nil [simp]: "named name good []"
  by (simp add: named_def)

lemma parse_field_ok: "parse_field n = Inr f \<Longrightarrow> field_ok f"
  by (auto simp: parse_field_def at_least_def field_ok_def split: sum.splits if_splits)

lemma parse_register_ok: "parse_register n = Inr r \<Longrightarrow> register_ok r"
  by (auto simp: parse_register_def at_least_def register_ok_def split: sum.splits if_splits
      intro: load_all_named [where good = field_ok] parse_field_ok)

lemma parse_peripheral_ok: "parse_peripheral n = Inr p \<Longrightarrow> peripheral_ok p"
  by (auto simp: parse_peripheral_def at_least_def peripheral_ok_def split: sum.splits if_splits
      intro: load_all_named [where good = register_ok] parse_register_ok)

lemma load_svd_ok: "load_svd doc stem = Inr d \<Longrightarrow> device_ok d"
  by (auto simp: load_svd_def device_ok_def split: sum.splits
      intro: load_all_named [where good = peripheral_ok] parse_peripheral_ok)

section \<open>Decoding\<close>

lemma decode_field_take_bit:
  "decode_field f v = take_bit (nat (bit_width f)) (drop_bit (nat (bit_offset f)) v)"
  by (simp add: decode_field_def take_bit_eq_mask mask_eq_exp_minus_1 push_bit_eq_mult)

lemma decode_field_bits:
  "bit (decode_field f v) n \<longleftrightarrow> n < nat (bit_width f) \<and> bit v (nat (bit_offset f) + n)"
  by (simp add: decode_field_take_bit bit_take_bit_iff bit_drop_bit_eq)

lemma decode_field_bounds: "0 \<le> decode_field f v \<and> decode_field f v < 2 ^ nat (bit_width f)"
  by (simp add: decode_field_take_bit)

lemma decode_register_get:
  "dict_get (decode_register r v) name = map_option (\<lambda>f. decode_field f v) (dict_get (reg_fields r) name)"
  by (simp add: decode_register_def map_of_map)

text \<open>Fields that cover the bits of a register determine them.\<close>

definition covers :: "svd_register \<Rightarrow> nat \<Rightarrow> bool" where
  "covers r width \<longleftrightarrow> (\<forall>n < width. \<exists>(k, f) \<in> set (reg_fields r).
     nat (bit_offset f) \<le> n \<and> n < nat (bit_offset f) + nat (bit_width f))"

lemma decode_register_inj:
  assumes "covers r width" and "dict_ok (reg_fields r)" and "decode_register r v = decode_register r w"
  shows "take_bit width v = take_bit width w"
proof (rule bit_eqI)
  fix n
  show "bit (take_bit width v) n = bit (take_bit width w) n"
  proof (cases "n < width")
    case True
    then obtain k f where f: "(k, f) \<in> set (reg_fields r)" "nat (bit_offset f) \<le> n"
        "n < nat (bit_offset f) + nat (bit_width f)"
      using assms(1) by (auto simp: covers_def)
    have "decode_field f v = decode_field f w"
      using assms(3) f(1) by (auto simp: decode_register_def)
    then have "bit (decode_field f v) (n - nat (bit_offset f)) = bit (decode_field f w) (n - nat (bit_offset f))"
      by simp
    moreover have "n - nat (bit_offset f) < nat (bit_width f)" using f by linarith
    ultimately show ?thesis using f True by (simp add: decode_field_bits bit_take_bit_iff)
  qed (simp add: bit_take_bit_iff)
qed

section \<open>Peripheral diffs\<close>

record peripheral_diff =
  pdf_register :: string
  pdf_before :: "string option"
  pdf_after :: "string option"
  pdf_changed_fields :: "(int option \<times> int option) dict"

text \<open>\<open>sorted(set(a) | set(b))\<close>\<close>

definition union_keys :: "'v dict \<Rightarrow> 'w dict \<Rightarrow> string list" where
  "union_keys a b = sort (remdups (dict_keys a @ dict_keys b))"

definition diff_fields :: "'v dict \<Rightarrow> 'v dict \<Rightarrow> ('v option \<times> 'v option) dict" where
  "diff_fields before after =
     map (\<lambda>k. (k, dict_get before k, dict_get after k))
       (filter (\<lambda>k. dict_get before k \<noteq> dict_get after k) (union_keys before after))"

definition by_name :: "peripheral_register_data list \<Rightarrow> peripheral_register_data dict" where
  "by_name rs = dict_of (map (\<lambda>r. (prd_name r, r)) rs)"

definition fields_of :: "peripheral_register_data option \<Rightarrow> int dict" where
  "fields_of r = (case r of None \<Rightarrow> [] | Some x \<Rightarrow> prd_fields x)"

definition register_diff ::
  "peripheral_register_data dict \<Rightarrow> peripheral_register_data dict \<Rightarrow> string \<Rightarrow> peripheral_diff option" where
  "register_diff b a name =
     (let bv = map_option prd_value (dict_get b name);
          av = map_option prd_value (dict_get a name);
          changed = diff_fields (fields_of (dict_get b name)) (fields_of (dict_get a name))
      in if bv \<noteq> av \<or> changed \<noteq> []
         then Some \<lparr>pdf_register = name, pdf_before = bv, pdf_after = av, pdf_changed_fields = changed\<rparr>
         else None)"

definition diff_peripheral_registers ::
  "peripheral_register_data list \<Rightarrow> peripheral_register_data list \<Rightarrow> peripheral_diff list" where
  "diff_peripheral_registers before after =
     List.map_filter (register_diff (by_name before) (by_name after))
       (union_keys (by_name before) (by_name after))"

record peripheral_heuristic =
  phr_title :: string
  phr_evidence :: "string list"
  phr_confidence :: rat

definition upper_char :: "char \<Rightarrow> char" where
  "upper_char c =
     (if (97 \<le> cp c \<and> cp c \<le> 122) \<or> (224 \<le> cp c \<and> cp c \<le> 254 \<and> cp c \<noteq> 247)
      then char_of (cp c - 32) else c)"

text \<open>
  \<open>str.upper\<close>, which writes the sharp s as two letters; the two Latin-1 letters whose upper
  case is outside Latin-1 stay as they are.
\<close>

definition upper :: "string \<Rightarrow> string" where
  "upper s = concat (map (\<lambda>c. if cp c = 223 then ''SS'' else [upper_char c]) s)"

definition detect_common_misconfigurations ::
  "string \<Rightarrow> peripheral_register_data list \<Rightarrow> peripheral_heuristic list" where
  "detect_common_misconfigurations peripheral regs =
     (let named_regs = dict_of (map (\<lambda>r. (upper (prd_name r), r)) regs) in
      (if startswith (upper peripheral) ''GPIO''
       then (case dict_get named_regs ''MODER'' of
               Some moder \<Rightarrow>
                 if list_all (\<lambda>kv. snd kv = 0) (prd_fields moder)
                 then [\<lparr>phr_title = ''GPIO pins appear to be in reset/input mode'',
                        phr_evidence = [''MODER decoded fields are all zero.''],
                        phr_confidence = 13 / 20\<rparr>]
                 else []
             | None \<Rightarrow> [])
       else [])
      @ (if startswith (upper peripheral) ''USART'' \<or> startswith (upper peripheral) ''UART''
         then (case dict_get named_regs ''CR1'' of
                 Some cr1 \<Rightarrow>
                   if dict_get (prd_fields cr1) ''UE'' = Some 0
                   then [\<lparr>phr_title = ''UART peripheral is disabled'', phr_evidence = [''CR1.UE is 0.''],
                          phr_confidence = 4 / 5\<rparr>]
                   else []
               | None \<Rightarrow> [])
         else []))"

lemma set_union_keys [simp]: "set (union_keys a b) = fst ` set a \<union> fst ` set b"
  by (simp add: union_keys_def)

lemma distinct_union_keys [simp]: "distinct (union_keys a b)"
  by (simp add: union_keys_def)

lemma sorted_union_keys [simp]: "sorted (union_keys a b)"
  by (simp add: union_keys_def)

lemma diff_fields_get:
  "dict_get (diff_fields a b) k =
     (if dict_get a k = dict_get b k then None else Some (dict_get a k, dict_get b k))"
proof -
  let ?ks = "filter (\<lambda>k. dict_get a k \<noteq> dict_get b k) (union_keys a b)"
  have "dict_get (map (\<lambda>k. (k, dict_get a k, dict_get b k)) ks) k
      = (if k \<in> set ks then Some (dict_get a k, dict_get b k) else None)" for ks
    by (induction ks) auto
  then have "dict_get (diff_fields a b) k = (if k \<in> set ?ks then Some (dict_get a k, dict_get b k) else None)"
    by (simp add: diff_fields_def)
  moreover have "k \<in> set (union_keys a b)" if "dict_get a k \<noteq> dict_get b k"
    using that by (cases "dict_get a k"; cases "dict_get b k") (auto dest: dict_get_in_keys)
  ultimately show ?thesis by auto
qed

lemma diff_fields_empty: "diff_fields a b = [] \<longleftrightarrow> dict_get a = dict_get b"
proof
  assume e: "diff_fields a b = []"
  show "dict_get a = dict_get b"
  proof
    fix k
    show "dict_get a k = dict_get b k" using diff_fields_get [of a b k] e by (simp split: if_splits)
  qed
qed (simp add: diff_fields_def)

lemma diff_fields_ok: "dict_ok (diff_fields a b)"
  by (simp add: dict_ok_def diff_fields_def comp_def)

lemma diff_fields_sorted: "sorted (dict_keys (diff_fields a b))"
  by (simp add: diff_fields_def comp_def sorted_wrt_filter)

text \<open>A register diff is empty exactly when both lists say the same of every register.\<close>

definition same_register :: "peripheral_register_data option \<Rightarrow> peripheral_register_data option \<Rightarrow> bool" where
  "same_register x y \<longleftrightarrow> map_option prd_value x = map_option prd_value y
     \<and> dict_get (fields_of x) = dict_get (fields_of y)"

lemma register_diff_None: "register_diff b a name = None \<longleftrightarrow> same_register (dict_get b name) (dict_get a name)"
  by (auto simp: register_diff_def same_register_def Let_def diff_fields_empty)

lemma map_filter_empty: "List.map_filter f xs = [] \<longleftrightarrow> (\<forall>x \<in> set xs. f x = None)"
  by (induction xs) (auto simp: List.map_filter_simps split: option.split)

lemma diff_registers_empty:
  "diff_peripheral_registers before after = [] \<longleftrightarrow>
     (\<forall>name. same_register (dict_get (by_name before) name) (dict_get (by_name after) name))"
proof -
  have none: "same_register (dict_get b k) (dict_get a k)" if "k \<notin> set (union_keys b a)" for a b and k :: string
  proof -
    have "dict_get b k = None" "dict_get a k = None" using that by (simp_all add: map_of_eq_None_iff)
    then show ?thesis by (simp add: same_register_def)
  qed
  show ?thesis
    unfolding diff_peripheral_registers_def map_filter_empty register_diff_None using none by blast
qed

end
