(* ===== verification/Tool_Service.thy ===== *)
theory Tool_Service
  imports Session_Manager Confirmation Privacy Audit_Log Fault_Analyzer Svd
begin

text \<open>
  The tool service (\<open>mcp_server/service.py\<close>): the handler of every tool, with the policy
  check, the confirmation tokens, the resource limits, the call on the session, the result
  envelope and the audit event, in the order of the code. A handler is a program on the record
  \<open>service\<close>, which holds the service's own state and the environment it draws from: processes
  that GDB can be spawned as, unique ids, clock readings, the digest, and the SVD documents.

  One handler runs at a time here; \<open>Interleaving\<close> runs them together.
  \<open>sv_retired\<close> is a ghost list: the sessions that handlers have dropped, kept so that theorems
  can speak of everything that was ever sent to a GDB process.
\<close>

record service =
  sv_sessions :: session_manager
  sv_snapshots :: "debug_snapshot dict"
  sv_store :: token_store
  sv_audit :: "audit_event list option"
  sv_active_tool_calls :: int
  sv_active_session_operations :: "int dict"
  sv_permission_mode :: permission_level
  sv_target_class :: target_class
  sv_memory_write_enabled :: bool
  sv_hardware_operation_allowlist :: "debug_operation list"
  sv_limits :: resource_limits
  env_spawn :: "(nat \<Rightarrow> string list \<Rightarrow> gdb_io res) option"
  env_spawned :: "string list list"
  env_id :: "nat \<Rightarrow> string"
  env_ids_drawn :: nat
  env_time :: "nat \<Rightarrow> rat"
  env_times_read :: nat
  env_digest :: "string \<Rightarrow> string"
  env_svd :: "string \<Rightarrow> element option res"
  sv_retired :: "debug_session list"

section \<open>The environment\<close>

definition draw_id :: "string \<Rightarrow> (service, string) prog" where
  "draw_id prefix sv =
     (Inr (prefix @ env_id sv (env_ids_drawn sv)), sv\<lparr>env_ids_drawn := env_ids_drawn sv + 1\<rparr>)"

definition read_clock :: "(service, rat) prog" where
  "read_clock sv = (Inr (env_time sv (env_times_read sv)), sv\<lparr>env_times_read := env_times_read sv + 1\<rparr>)"

definition on_store :: "(token_store, 'a) prog \<Rightarrow> (service, 'a) prog" where
  "on_store = zoom sv_store (\<lambda>st sv. sv\<lparr>sv_store := st\<rparr>)"

text \<open>
  A call on a session; the result comes with the state the session is left in. The handler holds
  the session object it has looked up: should another handler have removed the session meanwhile,
  the call still goes to this object.
\<close>

definition held_session :: "string \<Rightarrow> service \<Rightarrow> debug_session option" where
  "held_session sid sv =
     (case dict_get (sv_sessions sv) sid of
        Some s \<Rightarrow> Some s
      | None \<Rightarrow> List.find (\<lambda>s. session_id s = sid) (sv_retired sv))"

primrec replace_session :: "string \<Rightarrow> debug_session \<Rightarrow> debug_session list \<Rightarrow> debug_session list" where
  "replace_session sid s' [] = []"
| "replace_session sid s' (s # ss) = (if session_id s = sid then s' # ss else s # replace_session sid s' ss)"

definition put_session :: "string \<Rightarrow> debug_session \<Rightarrow> service \<Rightarrow> service" where
  "put_session sid s' sv =
     (if dict_get (sv_sessions sv) sid = None
      then sv\<lparr>sv_retired := replace_session sid s' (sv_retired sv)\<rparr>
      else sv\<lparr>sv_sessions := dict_set sid s' (sv_sessions sv)\<rparr>)"

definition on_session :: "string \<Rightarrow> (debug_session, 'a) prog \<Rightarrow> (service, 'a \<times> target_state) prog" where
  "on_session sid m sv =
     (case held_session sid sv of
        None \<Rightarrow> (Inl (Exc SessionNotFoundError (py_repr sid)), sv)
      | Some s \<Rightarrow>
          (case m s of
             (r, s') \<Rightarrow>
               (case r of Inl e \<Rightarrow> Inl e | Inr x \<Rightarrow> Inr (x, state_of s'), put_session sid s' sv)))"

lemma set_replace_session: "set (replace_session sid s' ss) \<subseteq> insert s' (set ss)"
  by (induction ss) auto

lemma find_session_id: "List.find (\<lambda>s. session_id s = sid) ss = Some s \<Longrightarrow> s \<in> set ss \<and> session_id s = sid"
  by (induction ss) (auto split: if_splits)

section \<open>Envelopes and audit events\<close>

definition audit ::
  "string \<Rightarrow> tool_request \<Rightarrow> audit_outcome \<Rightarrow> string option \<Rightarrow> target_state \<Rightarrow> target_state
   \<Rightarrow> json dict \<Rightarrow> debug_error option \<Rightarrow> string list \<Rightarrow> (service, string option) prog" where
  "audit tool request outcome sid before after result_summary err warns =
     andthen (gets sv_audit) (\<lambda>log.
       case log of
         None \<Rightarrow> ret None
       | Some events \<Rightarrow>
           andthen (draw_id ''audit_'') (\<lambda>aid.
           andthen (draw_id ''call_'') (\<lambda>cid.
           andthen (gets sv_permission_mode) (\<lambda>mode.
           andthen (modify (\<lambda>sv. sv\<lparr>sv_audit := Some (events @
              [\<lparr>ae_audit_id = aid, ae_correlation_id = cid, ae_session_id = sid, ae_tool_name = tool,
                ae_permission_mode = mode, ae_state_before = before, ae_state_after = after,
                ae_outcome = outcome, ae_request_summary = redact_mapping (request_fields request),
                ae_result_summary = result_summary, ae_warnings = warns, ae_error = err\<rparr>])\<rparr>)) (\<lambda>_.
           ret (Some aid))))))"

definition success ::
  "string \<Rightarrow> tool_request \<Rightarrow> tool_data \<Rightarrow> string option \<Rightarrow> target_state \<Rightarrow> target_state
   \<Rightarrow> string list \<Rightarrow> (service, tool_result) prog" where
  "success tool request d sid state before warns =
     andthen (audit tool request SUCCESS sid before state (redact_mapping (data_fields d)) None warns)
       (\<lambda>aid. lift_res (mk_tool_result
          \<lparr>res_ok = True, res_session_id = sid, res_target_state = state, res_data = d,
           res_warnings = warns, res_audit_id = aid, res_error = None\<rparr>))"

definition failure ::
  "string \<Rightarrow> debug_error \<Rightarrow> tool_request \<Rightarrow> string option \<Rightarrow> string list \<Rightarrow> (service, tool_result) prog" where
  "failure tool err request sid warns =
     andthen (audit tool request ERROR sid UNKNOWN UNKNOWN [] (Some err) warns)
       (\<lambda>aid. lift_res (mk_tool_result
          \<lparr>res_ok = False, res_session_id = sid, res_target_state = UNKNOWN, res_data = NoData,
           res_warnings = warns, res_audit_id = aid, res_error = Some err\<rparr>))"

text \<open>\<open>_exception_failure\<close>: the error model refuses an exception whose text is empty.\<close>

definition exception_failure ::
  "string \<Rightarrow> tool_request \<Rightarrow> py_exc \<Rightarrow> string option \<Rightarrow> (service, tool_result) prog" where
  "exception_failure tool request e sid =
     andthen (lift_res (mk_debug_error TOOL_EXECUTION_FAILED (exc_msg e) CAT_INTERNAL False [] None None))
       (\<lambda>err. failure tool err request sid [])"

section \<open>Policy\<close>

definition policy_request_of :: "service \<Rightarrow> debug_operation \<Rightarrow> string option \<Rightarrow> policy_request" where
  "policy_request_of sv op tok =
     \<lparr>pr_permission_mode = sv_permission_mode sv, pr_operation = op, pr_target_class = sv_target_class sv,
      pr_production_target = False, pr_memory_write_enabled = sv_memory_write_enabled sv,
      pr_confirmation_token = tok, pr_hardware_operation_allowlist = sv_hardware_operation_allowlist sv\<rparr>"

definition denied_by_token :: "debug_operation \<Rightarrow> string \<Rightarrow> policy_decision" where
  "denied_by_token op why =
     \<lparr>pd_kind = DENY, pd_operation = op, pd_required_permission = CONFIRM_REQUIRED, pd_reason = why,
      pd_confirmation_required = False, pd_warnings = []\<rparr>"

definition decide ::
  "debug_operation \<Rightarrow> tool_request \<Rightarrow> string option \<Rightarrow> (service, policy_decision) prog" where
  "decide op request tok =
     (case tok of
        None \<Rightarrow> gets (\<lambda>sv. evaluate (policy_request_of sv op None))
      | Some t \<Rightarrow>
          andthen read_clock (\<lambda>now.
          andthen (gets env_digest) (\<lambda>digest.
          try_else (on_store (verify digest t now op request))
            (\<lambda>e. if exc_of e = ConfirmationError then ret (denied_by_token op (exc_msg e)) else throw e)
            (\<lambda>_. gets (\<lambda>sv. evaluate (policy_request_of sv op (Some t)))))))"

definition issue_token :: "debug_operation \<Rightarrow> tool_request \<Rightarrow> (service, string) prog" where
  "issue_token op request =
     andthen (draw_id []) (\<lambda>fresh.
     andthen read_clock (\<lambda>now.
     andthen (gets env_digest) (\<lambda>digest.
     on_store (issue digest fresh now op request))))"

definition policy_failure ::
  "string \<Rightarrow> debug_operation \<Rightarrow> debug_error option \<Rightarrow> tool_request \<Rightarrow> string list
   \<Rightarrow> (service, tool_result) prog" where
  "policy_failure tool op err request warns =
     (case err of
        None \<Rightarrow> throw (Exc AssertionError [])
      | Some e \<Rightarrow>
          if code e = CONFIRMATION_REQUIRED
          then andthen (issue_token op request) (\<lambda>tok.
                 failure tool (e\<lparr>confirmation_token := Some tok\<rparr>) request None warns)
          else if code e = PERMISSION_DENIED \<and> startswith (message e) ''confirmation token''
          then failure tool (make_error INVALID_CONFIRMATION_TOKEN (message e) CAT_PERMISSION False
                 (Some CONFIRM_REQUIRED) [] None) request None warns
          else failure tool e request None warns)"

section \<open>Active operations\<close>

definition active_of :: "service \<Rightarrow> string \<Rightarrow> int" where
  "active_of sv sid = (case dict_get (sv_active_session_operations sv) sid of None \<Rightarrow> 0 | Some n \<Rightarrow> n)"

definition try_reserve_operation :: "string option \<Rightarrow> service \<Rightarrow> debug_error + service" where
  "try_reserve_operation sid sv =
     (case check_tool_concurrency (sv_limits sv) (sv_active_tool_calls sv) of
        Some e \<Rightarrow> Inl e
      | None \<Rightarrow>
          (case sid of
             None \<Rightarrow> Inr (sv\<lparr>sv_active_tool_calls := sv_active_tool_calls sv + 1\<rparr>)
           | Some s \<Rightarrow>
               (case check_session_operations (sv_limits sv) (active_of sv s) of
                  Some e \<Rightarrow> Inl e
                | None \<Rightarrow> Inr (sv\<lparr>sv_active_session_operations :=
                      dict_set s (active_of sv s + 1) (sv_active_session_operations sv),
                    sv_active_tool_calls := sv_active_tool_calls sv + 1\<rparr>))))"

definition release_operation :: "string option \<Rightarrow> service \<Rightarrow> service" where
  "release_operation sid sv =
     (let sv' = sv\<lparr>sv_active_tool_calls := max 0 (sv_active_tool_calls sv - 1)\<rparr>
      in (case sid of
            None \<Rightarrow> sv'
          | Some s \<Rightarrow>
              if active_of sv s \<le> 1
              then sv'\<lparr>sv_active_session_operations := dict_del s (sv_active_session_operations sv)\<rparr>
              else sv'\<lparr>sv_active_session_operations :=
                     dict_set s (active_of sv s - 1) (sv_active_session_operations sv)\<rparr>))"

definition reserve :: "string option \<Rightarrow> (service, debug_error option) prog" where
  "reserve sid sv =
     (case try_reserve_operation sid sv of Inl e \<Rightarrow> (Inr (Some e), sv) | Inr sv' \<Rightarrow> (Inr None, sv'))"

section \<open>The common frame of the session tools\<close>

text \<open>
  The part between reservation and release: the call, or the envelope of its exception. A
  \<open>return\<close> inside the \<open>try\<close> is \<open>Inl\<close>.
\<close>

definition guarded_call ::
  "string \<Rightarrow> tool_request \<Rightarrow> string \<Rightarrow> (service, tool_data \<times> target_state) prog
   \<Rightarrow> (service, tool_result + tool_data \<times> target_state) prog" where
  "guarded_call tool request sid call =
     finally_do
       (try_else call
          (\<lambda>e. andthen (exception_failure tool request e (Some sid)) (\<lambda>r. ret (Inl r)))
          (\<lambda>x. ret (Inr x)))
       (modify (release_operation (Some sid)))"

definition session_not_found :: "string \<Rightarrow> debug_error" where
  "session_not_found sid =
     make_error SESSION_NOT_FOUND (''Session not found: '' @ sid) CAT_VALIDATION False None [] None"

definition run_on_session ::
  "string \<Rightarrow> tool_request \<Rightarrow> string \<Rightarrow> string list \<Rightarrow> (service, tool_data \<times> target_state) prog
   \<Rightarrow> (service, tool_result) prog" where
  "run_on_session tool request sid warns call =
     andthen (gets (\<lambda>sv. get_session sid (sv_sessions sv))) (\<lambda>found.
       case found of
         Inl _ \<Rightarrow> failure tool (session_not_found sid) request None []
       | Inr session \<Rightarrow>
           andthen (reserve (Some sid)) (\<lambda>limited.
             case limited of
               Some e \<Rightarrow> failure tool e request (Some sid) []
             | None \<Rightarrow>
                 andthen (guarded_call tool request sid call) (\<lambda>x.
                   case x of
                     Inl r \<Rightarrow> ret r
                   | Inr (d, state) \<Rightarrow> success tool request d (Some sid) state (state_of session) warns)))"

definition with_session ::
  "string \<Rightarrow> debug_operation \<Rightarrow> tool_request \<Rightarrow> string \<Rightarrow> string option
   \<Rightarrow> (service, tool_data \<times> target_state) prog \<Rightarrow> (service, tool_result) prog" where
  "with_session tool op request sid tok call =
     andthen (decide op request tok) (\<lambda>decision.
       if \<not> pd_allowed decision
       then policy_failure tool op (to_error decision) request (pd_warnings decision)
       else run_on_session tool request sid (pd_warnings decision) call)"

text \<open>A limit checked before the policy.\<close>

definition guard_limit ::
  "string \<Rightarrow> debug_error option \<Rightarrow> tool_request \<Rightarrow> string option \<Rightarrow> (service, tool_result) prog
   \<Rightarrow> (service, tool_result) prog" where
  "guard_limit tool err request sid rest =
     (case err of Some e \<Rightarrow> failure tool e request sid [] | None \<Rightarrow> rest)"

end
