(* ===== verification/Tool_Handlers.thy ===== *)
theory Tool_Handlers
  imports Tool_Service
begin

text \<open>
  The handlers of the seventeen tools (\<open>mcp_server/service.py\<close>) over the common frame of
  \<open>Tool_Service\<close>, and \<open>call_tool\<close>, which dispatches a request to its handler.
\<close>

section \<open>Connecting\<close>

text \<open>
  \<open>create_gdb_debug_session\<close>: spawn GDB and wrap it in a session with a new id. The service keeps
  the command lines that were started, also those that failed to.
\<close>

definition create_gdb_debug_session ::
  "(nat \<Rightarrow> string list \<Rightarrow> gdb_io res) \<Rightarrow> connect_target_request \<Rightarrow> (service, debug_session) prog" where
  "create_gdb_debug_session spawn request =
     andthen (gets env_spawned) (\<lambda>started.
     andthen (modify (\<lambda>sv. sv\<lparr>env_spawned := started @ [gdb_args (ct_gdb_path request) (ct_elf_path request)]\<rparr>)) (\<lambda>_.
     andthen (lift_res (spawn (length started) (gdb_args (ct_gdb_path request) (ct_elf_path request)))) (\<lambda>process.
     andthen (draw_id ''session_'') (\<lambda>sid.
     ret (new_session (new_controller (new_transport process)) (create_backend (ct_backend request)) sid)))))"

text \<open>\<open>await session.connect(request)\<close> on the new session; one that fails is dropped.\<close>

definition connect_new ::
  "debug_session \<Rightarrow> connect_target_request \<Rightarrow> (service, backend_connection \<times> debug_session) prog" where
  "connect_new s request sv =
     (case connect request s of
        (Inl e, s') \<Rightarrow> (Inl e, sv\<lparr>sv_retired := s' # sv_retired sv\<rparr>)
      | (Inr conn, s') \<Rightarrow> (Inr (conn, s'), sv))"

definition register_session :: "debug_session \<Rightarrow> (service, unit) prog" where
  "register_session s = modify (\<lambda>sv. sv\<lparr>sv_sessions := add_session s (sv_sessions sv)\<rparr>)"

definition open_session ::
  "(nat \<Rightarrow> string list \<Rightarrow> gdb_io res) \<Rightarrow> connect_target_request \<Rightarrow> string list \<Rightarrow> (service, tool_result) prog" where
  "open_session spawn r warns =
     andthen (create_gdb_debug_session spawn r) (\<lambda>s0.
     andthen (connect_new s0 r) (\<lambda>(conn, s).
     andthen (register_session s) (\<lambda>_.
     success ''connect_target'' (ConnectTarget r)
       (ConnectTargetData
          \<lparr>ctd_session_id = session_id s, ctd_backend = bc_backend conn,
           ctd_architecture = bc_architecture conn, ctd_profile = bc_profile conn,
           ctd_state = state_of s\<rparr>)
       (Some (session_id s)) (state_of s) UNKNOWN warns)))"

definition tool_connect_target ::
  "connect_target_request \<Rightarrow> string option \<Rightarrow> (service, tool_result) prog" where
  "tool_connect_target r tok =
     andthen (gets (\<lambda>sv. check_session_count (sv_limits sv) (int (length (list_ids (sv_sessions sv))))))
       (\<lambda>limited. guard_limit ''connect_target'' limited (ConnectTarget r) None
     (andthen (gets env_spawn) (\<lambda>factory.
       case factory of
         None \<Rightarrow> failure ''connect_target''
           (make_error SESSION_FACTORY_UNAVAILABLE ''connect_target requires a configured session factory.''
              CAT_INTERNAL False None [] None) (ConnectTarget r) None []
       | Some spawn \<Rightarrow>
           andthen (decide OP_CONNECT_TARGET (ConnectTarget r) tok) (\<lambda>decision.
             if \<not> pd_allowed decision
             then policy_failure ''connect_target'' OP_CONNECT_TARGET (to_error decision) (ConnectTarget r)
                    (pd_warnings decision)
             else catch (open_session spawn r (pd_warnings decision))
                    (\<lambda>e. exception_failure ''connect_target'' (ConnectTarget r) e None)))))"

section \<open>Tools on one session\<close>

text \<open>A session call whose result is turned into the tool's data.\<close>

definition session_call ::
  "string \<Rightarrow> (debug_session, 'a) prog \<Rightarrow> ('a \<Rightarrow> tool_data) \<Rightarrow> (service, tool_data \<times> target_state) prog" where
  "session_call sid m wrap = andthen (on_session sid m) (\<lambda>(x, state). ret (wrap x, state))"

text \<open>\<open>_disconnect\<close>: a session that cannot be disconnected stays registered.\<close>

definition retire :: "string \<Rightarrow> (service, unit) prog" where
  "retire sid sv =
     (case remove_session sid (sv_sessions sv) of
        (Inl e, m) \<Rightarrow> (Inl e, sv\<lparr>sv_sessions := m\<rparr>)
      | (Inr s, m) \<Rightarrow> (Inr (), sv\<lparr>sv_sessions := m, sv_retired := s # sv_retired sv\<rparr>))"

definition disconnect_call :: "disconnect_target_request \<Rightarrow> (service, tool_data \<times> target_state) prog" where
  "disconnect_call r =
     andthen (on_session (dt_session_id r) (disconnect (dt_timeout_ms r))) (\<lambda>(_, state).
     andthen (retire (dt_session_id r)) (\<lambda>_.
     ret (NoData, state)))"

definition tool_disconnect_target ::
  "disconnect_target_request \<Rightarrow> string option \<Rightarrow> (service, tool_result) prog" where
  "tool_disconnect_target r tok =
     with_session ''disconnect_target'' OP_DISCONNECT_TARGET (DisconnectTarget r) (dt_session_id r) tok
       (disconnect_call r)"

definition tool_halt :: "halt_request \<Rightarrow> string option \<Rightarrow> (service, tool_result) prog" where
  "tool_halt r tok =
     with_session ''halt'' OP_HALT (Halt r) (ht_session_id r) tok
       (session_call (ht_session_id r) (halt (ht_timeout_ms r)) HaltData)"

definition tool_resume :: "resume_request \<Rightarrow> string option \<Rightarrow> (service, tool_result) prog" where
  "tool_resume r tok =
     with_session ''resume'' OP_RESUME (Resume r) (rs_session_id r) tok
       (session_call (rs_session_id r) (resume (rs_max_run_ms r) (rs_auto_interrupt r))
         (\<lambda>state. ResumeData \<lparr>rd_interrupted = (state = HALTED)\<rparr>))"

text \<open>\<open>for _ in range(count)\<close>, the data of the last step.\<close>

definition step_many :: "int \<Rightarrow> int \<Rightarrow> (debug_session, step_instruction_data) prog" where
  "step_many count timeout_ms =
     for_each [0..<nat count] (\<lambda>_ _. step_instruction timeout_ms) \<lparr>sid_pc = None\<rparr>"

definition tool_step_instruction ::
  "step_instruction_request \<Rightarrow> string option \<Rightarrow> (service, tool_result) prog" where
  "tool_step_instruction r tok =
     with_session ''step_instruction'' OP_STEP_INSTRUCTION (StepInstruction r) (si_session_id r) tok
       (session_call (si_session_id r) (step_many (si_count r) (si_timeout_ms r)) StepInstructionData)"

definition tool_reset_target ::
  "reset_target_request \<Rightarrow> string option \<Rightarrow> (service, tool_result) prog" where
  "tool_reset_target r tok =
     with_session ''reset_target'' OP_RESET_TARGET (ResetTarget r) (rt_session_id r) tok
       (session_call (rt_session_id r) (reset_target (rt_mode r) (rt_timeout_ms r))
         (\<lambda>state. ResetTargetData \<lparr>rtd_mode = rt_mode r, rtd_state = state\<rparr>))"

definition tool_read_registers :: "read_registers_request \<Rightarrow> (service, tool_result) prog" where
  "tool_read_registers r =
     with_session ''read_registers'' OP_READ_REGISTERS (ReadRegisters r) (rr_session_id r) None
       (session_call (rr_session_id r) (read_registers (rr_group r)) ReadRegistersData)"

definition tool_read_memory :: "read_memory_request \<Rightarrow> (service, tool_result) prog" where
  "tool_read_memory r =
     andthen (gets (\<lambda>sv. check_memory_read (sv_limits sv) (rm_length r))) (\<lambda>limited.
     guard_limit ''read_memory'' limited (ReadMemory r) (Some (rm_session_id r))
       (with_session ''read_memory'' OP_READ_MEMORY (ReadMemory r) (rm_session_id r) None
         (session_call (rm_session_id r)
           (read_memory (rm_address r) (rm_length r) (rm_width r) (rm_timeout_ms r)) ReadMemoryData)))"

definition tool_write_memory ::
  "write_memory_request \<Rightarrow> string option \<Rightarrow> (service, tool_result) prog" where
  "tool_write_memory r tok =
     (case bytes_fromhex (wm_data_hex r) of
        Inl e \<Rightarrow> failure ''write_memory''
          (make_error VALIDATION_FAILED (''data_hex must be valid hexadecimal bytes: '' @ exc_msg e)
             CAT_VALIDATION False None [] None) (WriteMemory r) (Some (wm_session_id r)) []
      | Inr bs \<Rightarrow>
          andthen (gets (\<lambda>sv. check_memory_write (sv_limits sv) (int (length bs)))) (\<lambda>limited.
          guard_limit ''write_memory'' limited (WriteMemory r) (Some (wm_session_id r))
            (with_session ''write_memory'' OP_WRITE_MEMORY (WriteMemory r) (wm_session_id r) tok
              (session_call (wm_session_id r)
                (write_memory (wm_address r) (wm_data_hex r) (wm_expected_old_hex r) (wm_timeout_ms r))
                WriteMemoryData))))"

definition tool_set_breakpoint ::
  "set_breakpoint_request \<Rightarrow> string option \<Rightarrow> (service, tool_result) prog" where
  "tool_set_breakpoint r tok =
     with_session ''set_breakpoint'' OP_SET_BREAKPOINT (SetBreakpoint r) (sb_session_id r) tok
       (session_call (sb_session_id r)
         (set_breakpoint (sb_location r) (sb_type r) (sb_temporary r) (sb_timeout_ms r)) BreakpointData)"

definition tool_clear_breakpoint ::
  "clear_breakpoint_request \<Rightarrow> string option \<Rightarrow> (service, tool_result) prog" where
  "tool_clear_breakpoint r tok =
     with_session ''clear_breakpoint'' OP_CLEAR_BREAKPOINT (ClearBreakpoint r) (cb_session_id r) tok
       (session_call (cb_session_id r) (clear_breakpoint (cb_breakpoint_id r) (cb_timeout_ms r))
         ClearBreakpointData)"

section \<open>Snapshots\<close>

text \<open>The id is drawn when the snapshot object is built, at the end of a successful capture.\<close>

definition snapshot_call :: "debug_snapshot_request \<Rightarrow> (service, tool_data \<times> target_state) prog" where
  "snapshot_call r =
     andthen (gets (\<lambda>sv. ''snapshot_'' @ env_id sv (env_ids_drawn sv))) (\<lambda>fresh.
     andthen (on_session (ds_session_id r) (capture_session fresh (ds_session_id r) r)) (\<lambda>(snap, state).
     andthen (draw_id ''snapshot_'') (\<lambda>_.
     andthen (modify (\<lambda>sv. sv\<lparr>sv_snapshots := dict_set (snap_id snap) snap (sv_snapshots sv)\<rparr>)) (\<lambda>_.
     ret (DebugSnapshotData \<lparr>dsd_snapshot_id = snap_id snap, dsd_state = snap_state snap,
                             dsd_summary = snap_summary snap\<rparr>, state)))))"

definition tool_debug_snapshot :: "debug_snapshot_request \<Rightarrow> (service, tool_result) prog" where
  "tool_debug_snapshot r =
     andthen (gets (\<lambda>sv. if ds_include_stack r then check_snapshot_stack (sv_limits sv) (ds_stack_bytes r)
                          else None)) (\<lambda>limited.
     guard_limit ''debug_snapshot'' limited (DebugSnapshot r) (Some (ds_session_id r))
       (with_session ''debug_snapshot'' OP_DEBUG_SNAPSHOT (DebugSnapshot r) (ds_session_id r) None
         (snapshot_call r)))"

definition get_snapshot :: "string option \<Rightarrow> service \<Rightarrow> debug_snapshot option" where
  "get_snapshot sid sv = (case sid of None \<Rightarrow> None | Some i \<Rightarrow> dict_get (sv_snapshots sv) i)"

definition tool_analyze_fault :: "analyze_fault_request \<Rightarrow> (service, tool_result) prog" where
  "tool_analyze_fault r =
     (case af_snapshot_id r of
        None \<Rightarrow> failure ''analyze_fault''
          (make_error SNAPSHOT_REQUIRED ''analyze_fault currently requires snapshot_id.'' CAT_VALIDATION
             False None [] None) (AnalyzeFault r) None []
      | Some i \<Rightarrow>
          andthen (gets (get_snapshot (Some i))) (\<lambda>found.
            case found of
              None \<Rightarrow> failure ''analyze_fault''
                (make_error SNAPSHOT_NOT_FOUND (''Snapshot not found: '' @ i) CAT_VALIDATION
                   False None [] None) (AnalyzeFault r) None []
            | Some snap \<Rightarrow> success ''analyze_fault'' (AnalyzeFault r) (FaultAnalysisData (analyze snap))
                (Some (snap_session_id snap)) (snap_state snap) UNKNOWN []))"

definition all_registers :: "debug_snapshot \<Rightarrow> string dict" where
  "all_registers snap = dict_merge (dict_of (snap_core_registers snap)) (snap_fault_registers snap)"

definition compare_data :: "debug_snapshot \<Rightarrow> debug_snapshot \<Rightarrow> snapshot_diff_data" where
  "compare_data before after =
     (let diffs = diff_fields (all_registers before) (all_registers after)
      in \<lparr>sdd_register_diffs = diffs,
          sdd_summary = (if diffs = [] then ''No register or fault-register differences detected.''
                         else nat_str (length diffs) @ '' register or fault-register differences detected.'')\<rparr>)"

definition tool_compare_snapshots :: "compare_snapshots_request \<Rightarrow> (service, tool_result) prog" where
  "tool_compare_snapshots r =
     andthen (gets (\<lambda>sv. (get_snapshot (Some (cs_before_snapshot_id r)) sv,
                          get_snapshot (Some (cs_after_snapshot_id r)) sv))) (\<lambda>found.
       case found of
         (Some before, Some after) \<Rightarrow>
           success ''compare_snapshots'' (CompareSnapshots r) (SnapshotDiffData (compare_data before after))
             (Some (snap_session_id after)) (snap_state after) UNKNOWN []
       | _ \<Rightarrow> failure ''compare_snapshots''
           (make_error SNAPSHOT_NOT_FOUND ''one or both snapshots were not found'' CAT_VALIDATION False None
              [(''before_snapshot_id'', JStr (cs_before_snapshot_id r)),
               (''after_snapshot_id'', JStr (cs_after_snapshot_id r))] None) (CompareSnapshots r) None [])"

definition explain_data :: "debug_snapshot \<Rightarrow> explain_current_state_data" where
  "explain_data snap =
     \<lparr>ecd_summary = ''Target state is '' @ state_value (snap_state snap) @ ''.'',
      ecd_evidence = [snap_summary snap]
        @ (case program_counter (snap_core_registers snap) of None \<Rightarrow> [] | Some pc \<Rightarrow> [''PC='' @ pc])
        @ (case dict_get (snap_fault_registers snap) ''cfsr'' of None \<Rightarrow> [] | Some c \<Rightarrow> [''CFSR='' @ c])\<rparr>"

definition tool_explain_current_state ::
  "explain_current_state_request \<Rightarrow> (service, tool_result) prog" where
  "tool_explain_current_state r =
     andthen (gets (get_snapshot (ex_snapshot_id r))) (\<lambda>found.
       case found of
         None \<Rightarrow> failure ''explain_current_state''
           (make_error SNAPSHOT_NOT_FOUND ''explain_current_state currently requires an existing snapshot_id''
              CAT_VALIDATION False None [] None) (ExplainCurrentState r) None []
       | Some snap \<Rightarrow> success ''explain_current_state'' (ExplainCurrentState r)
           (ExplainCurrentStateData (explain_data snap)) (Some (snap_session_id snap)) (snap_state snap)
           UNKNOWN [])"

definition suggested_actions :: "suggested_debug_action list" where
  "suggested_actions =
     [\<lparr>sa_title = ''Analyze the current fault registers'',
       sa_rationale = ''The action is read-only and links next steps to captured evidence.'',
       sa_tool_name = Some ''analyze_fault'', sa_risk = ''low'', sa_required_permission = READONLY\<rparr>,
      \<lparr>sa_title = ''Capture a second snapshot after one instruction step'',
       sa_rationale = ''A bounded step plus snapshot can reveal whether state changes are stable.'',
       sa_tool_name = Some ''step_instruction'', sa_risk = ''medium'',
       sa_required_permission = CONFIRM_REQUIRED\<rparr>]"

definition tool_suggest_next_debug_steps ::
  "suggest_next_debug_steps_request \<Rightarrow> (service, tool_result) prog" where
  "tool_suggest_next_debug_steps r =
     andthen (gets (get_snapshot (sn_snapshot_id r))) (\<lambda>found.
       case found of
         None \<Rightarrow> failure ''suggest_next_debug_steps''
           (make_error SNAPSHOT_NOT_FOUND ''suggest_next_debug_steps currently requires an existing snapshot_id''
              CAT_VALIDATION False None [] None) (SuggestNextDebugSteps r) None []
       | Some snap \<Rightarrow> success ''suggest_next_debug_steps'' (SuggestNextDebugSteps r)
           (SuggestNextDebugStepsData suggested_actions) (Some (snap_session_id snap)) (snap_state snap)
           UNKNOWN [])"

section \<open>Peripherals\<close>

text \<open>\<open>Path.stem\<close>\<close>

definition path_stem :: "string \<Rightarrow> string" where
  "path_stem s =
     (let n = path_name s; suffix = length (takeWhile (\<lambda>c. c \<noteq> CHR ''.'') (rev n))
      in if 0 < suffix \<and> suffix + 1 < length n then take (length n - suffix - 1) n else n)"

definition load_document :: "string \<Rightarrow> (service, svd_device) prog" where
  "load_document path =
     andthen (gets (\<lambda>sv. env_svd sv path)) (\<lambda>parsed.
       case parsed of
         Inl e \<Rightarrow> throw e
       | Inr None \<Rightarrow> throw (Exc ValueError ''empty SVD document'')
       | Inr (Some doc) \<Rightarrow> lift_res (load_svd doc (path_stem path)))"

definition inspect_register ::
  "svd_peripheral \<Rightarrow> int \<Rightarrow> string \<Rightarrow> (debug_session, peripheral_register_data) prog" where
  "inspect_register p timeout_ms name =
     (case dict_get (registers p) name of
        None \<Rightarrow> throw (key_error name)
      | Some reg \<Rightarrow>
          andthen (lift_res (register_address p name)) (\<lambda>address.
          andthen (read_memory (hex08 address) 4 4 timeout_ms) (\<lambda>memory.
          andthen (lift_res (bytes_fromhex (rmd_data_hex memory))) (\<lambda>bs.
          ret \<lparr>prd_name = reg_name reg, prd_address = hex08 address,
               prd_value = hex08 (from_bytes_le bs),
               prd_fields = decode_register reg (from_bytes_le bs)\<rparr>))))"

definition inspect_registers ::
  "svd_peripheral \<Rightarrow> int \<Rightarrow> string list \<Rightarrow> (debug_session, peripheral_register_data list) prog" where
  "inspect_registers p timeout_ms names =
     for_each names (\<lambda>name acc. andthen (inspect_register p timeout_ms name) (\<lambda>d. ret (acc @ [d]))) []"

definition tool_inspect_peripheral :: "inspect_peripheral_request \<Rightarrow> (service, tool_result) prog" where
  "tool_inspect_peripheral r =
     andthen (load_document (ip_svd_path r)) (\<lambda>device.
     andthen (lift_res (device_peripheral device (ip_peripheral r))) (\<lambda>peripheral.
     let names = (case ip_registers r of
                    Some (n # ns) \<Rightarrow> n # ns
                  | _ \<Rightarrow> sorted_keys (registers peripheral))
     in with_session ''inspect_peripheral'' OP_INSPECT_PERIPHERAL (InspectPeripheral r) (ip_session_id r)
          None
          (session_call (ip_session_id r) (inspect_registers peripheral (ip_timeout_ms r) names)
            (\<lambda>regs. InspectPeripheralData
               \<lparr>ipd_device = dev_name device, ipd_peripheral = per_name peripheral,
                ipd_registers = regs\<rparr>))))"

section \<open>Dispatch\<close>

text \<open>The tools that only read take no confirmation token.\<close>

primrec call_tool :: "tool_request \<Rightarrow> string option \<Rightarrow> (service, tool_result) prog" where
  "call_tool (ConnectTarget r) tok = tool_connect_target r tok"
| "call_tool (DisconnectTarget r) tok = tool_disconnect_target r tok"
| "call_tool (Halt r) tok = tool_halt r tok"
| "call_tool (Resume r) tok = tool_resume r tok"
| "call_tool (StepInstruction r) tok = tool_step_instruction r tok"
| "call_tool (ResetTarget r) tok = tool_reset_target r tok"
| "call_tool (ReadRegisters r) tok = tool_read_registers r"
| "call_tool (ReadMemory r) tok = tool_read_memory r"
| "call_tool (WriteMemory r) tok = tool_write_memory r tok"
| "call_tool (SetBreakpoint r) tok = tool_set_breakpoint r tok"
| "call_tool (ClearBreakpoint r) tok = tool_clear_breakpoint r tok"
| "call_tool (DebugSnapshot r) tok = tool_debug_snapshot r"
| "call_tool (AnalyzeFault r) tok = tool_analyze_fault r"
| "call_tool (InspectPeripheral r) tok = tool_inspect_peripheral r"
| "call_tool (CompareSnapshots r) tok = tool_compare_snapshots r"
| "call_tool (ExplainCurrentState r) tok = tool_explain_current_state r"
| "call_tool (SuggestNextDebugSteps r) tok = tool_suggest_next_debug_steps r"

primrec tool_name :: "tool_request \<Rightarrow> string" where
  "tool_name (ConnectTarget r) = ''connect_target''"
| "tool_name (DisconnectTarget r) = ''disconnect_target''"
| "tool_name (Halt r) = ''halt''"
| "tool_name (Resume r) = ''resume''"
| "tool_name (StepInstruction r) = ''step_instruction''"
| "tool_name (ResetTarget r) = ''reset_target''"
| "tool_name (ReadRegisters r) = ''read_registers''"
| "tool_name (ReadMemory r) = ''read_memory''"
| "tool_name (WriteMemory r) = ''write_memory''"
| "tool_name (SetBreakpoint r) = ''set_breakpoint''"
| "tool_name (ClearBreakpoint r) = ''clear_breakpoint''"
| "tool_name (DebugSnapshot r) = ''debug_snapshot''"
| "tool_name (AnalyzeFault r) = ''analyze_fault''"
| "tool_name (InspectPeripheral r) = ''inspect_peripheral''"
| "tool_name (CompareSnapshots r) = ''compare_snapshots''"
| "tool_name (ExplainCurrentState r) = ''explain_current_state''"
| "tool_name (SuggestNextDebugSteps r) = ''suggest_next_debug_steps''"

primrec operation_of :: "tool_request \<Rightarrow> debug_operation" where
  "operation_of (ConnectTarget r) = OP_CONNECT_TARGET"
| "operation_of (DisconnectTarget r) = OP_DISCONNECT_TARGET"
| "operation_of (Halt r) = OP_HALT"
| "operation_of (Resume r) = OP_RESUME"
| "operation_of (StepInstruction r) = OP_STEP_INSTRUCTION"
| "operation_of (ResetTarget r) = OP_RESET_TARGET"
| "operation_of (ReadRegisters r) = OP_READ_REGISTERS"
| "operation_of (ReadMemory r) = OP_READ_MEMORY"
| "operation_of (WriteMemory r) = OP_WRITE_MEMORY"
| "operation_of (SetBreakpoint r) = OP_SET_BREAKPOINT"
| "operation_of (ClearBreakpoint r) = OP_CLEAR_BREAKPOINT"
| "operation_of (DebugSnapshot r) = OP_DEBUG_SNAPSHOT"
| "operation_of (AnalyzeFault r) = OP_ANALYZE_FAULT"
| "operation_of (InspectPeripheral r) = OP_INSPECT_PERIPHERAL"
| "operation_of (CompareSnapshots r) = OP_COMPARE_SNAPSHOTS"
| "operation_of (ExplainCurrentState r) = OP_EXPLAIN_CURRENT_STATE"
| "operation_of (SuggestNextDebugSteps r) = OP_SUGGEST_NEXT_DEBUG_STEPS"

lemma tool_name_operation: "tool_name r = operation_value (operation_of r)"
  by (cases r) simp_all

end
