(* ===== verification/Service_Effects.thy ===== *)
theory Service_Effects
  imports Tool_Handlers
begin

text \<open>
  What a tool call may send to GDB. \<open>service_extends P\<close> says that between two states of the
  service every session, registered or dropped, has only sent commands that satisfy \<open>P\<close>, and
  that the configuration is the same; what a new session was sent counts from the start of its
  process, so every line in the input of a GDB process is accounted for (\<open>service_extends_lines\<close>).
  \<open>may_send\<close> lists the commands of every tool. The main
  lemma, \<open>call_tool_mediated\<close>, is complete mediation: whatever a call sends is a command of its
  tool, and the policy permits the tool's operation.
\<close>

definition same_config :: "service \<Rightarrow> service \<Rightarrow> bool" where
  "same_config a b \<longleftrightarrow>
     sv_permission_mode b = sv_permission_mode a \<and> sv_target_class b = sv_target_class a
     \<and> sv_memory_write_enabled b = sv_memory_write_enabled a
     \<and> sv_hardware_operation_allowlist b = sv_hardware_operation_allowlist a
     \<and> sv_limits b = sv_limits a \<and> env_spawn b = env_spawn a \<and> env_id b = env_id a
     \<and> env_time b = env_time a \<and> env_digest b = env_digest a \<and> env_svd b = env_svd a"

definition sessions_of :: "service \<Rightarrow> debug_session set" where
  "sessions_of sv = snd ` set (sv_sessions sv) \<union> set (sv_retired sv)"

text \<open>
  A session that was not there before: the transport of its controller began with nothing written, so
  all that its process was ever sent counts.
\<close>

definition fresh_session :: "(mi_command \<Rightarrow> bool) \<Rightarrow> debug_session \<Rightarrow> bool" where
  "fresh_session P s \<longleftrightarrow>
     (\<exists>process b sid. session_extends P (new_session (new_controller (new_transport process)) b sid) s)"

definition accounted :: "(mi_command \<Rightarrow> bool) \<Rightarrow> service \<Rightarrow> debug_session \<Rightarrow> bool" where
  "accounted P a s \<longleftrightarrow> (\<exists>t \<in> sessions_of a. session_extends P t s) \<or> fresh_session P s"

definition service_extends :: "(mi_command \<Rightarrow> bool) \<Rightarrow> service \<Rightarrow> service \<Rightarrow> bool" where
  "service_extends P a b \<longleftrightarrow> same_config a b \<and> (\<forall>s \<in> sessions_of b. accounted P a s)"

lemma same_config_refl [simp]: "same_config a a"
  by (simp add: same_config_def)

lemma same_config_trans: "same_config a b \<Longrightarrow> same_config b c \<Longrightarrow> same_config a c"
  by (simp add: same_config_def)

lemma policy_request_config:
  "same_config a b \<Longrightarrow> policy_request_of b op tok = policy_request_of a op tok"
  by (simp add: same_config_def policy_request_of_def)

lemma accounted_self: "s \<in> sessions_of a \<Longrightarrow> accounted P a s"
  using session_order.R_refl by (auto simp: accounted_def)

lemma accounted_extends: "accounted P a s \<Longrightarrow> session_extends P s t \<Longrightarrow> accounted P a t"
  unfolding accounted_def fresh_session_def by (meson session_order.R_trans)

lemma service_extends_subset:
  "same_config a b \<Longrightarrow> sessions_of b \<subseteq> sessions_of a \<Longrightarrow> service_extends P a b"
  using accounted_self by (auto simp: service_extends_def)

lemma service_extends_trans:
  assumes "service_extends P a b" and "service_extends P b c"
  shows "service_extends P a c"
proof -
  have "accounted P a s" if s: "s \<in> sessions_of c" for s
  proof -
    have "accounted P b s" using assms(2) s by (simp add: service_extends_def)
    then consider t where "t \<in> sessions_of b" "session_extends P t s" | "fresh_session P s"
      unfolding accounted_def by blast
    then show ?thesis
    proof cases
      case 1
      then have "accounted P a t" using assms(1) by (simp add: service_extends_def)
      then show ?thesis using 1(2) by (rule accounted_extends)
    qed (simp add: accounted_def)
  qed
  then show ?thesis using assms same_config_trans by (auto simp: service_extends_def)
qed

lemma service_extends_mono:
  assumes "service_extends P a b" and "\<And>c. P c \<Longrightarrow> Q c"
  shows "service_extends Q a b"
proof -
  have "accounted Q a s" if "accounted P a s" for s
    using that session_extends_mono [of P _ s Q] assms(2) unfolding accounted_def fresh_session_def by blast
  then show ?thesis using assms(1) by (auto simp: service_extends_def)
qed

text \<open>In terms of lines: each one in the input of a GDB process was there, or is a command that satisfies \<open>P\<close>.\<close>

definition lines_of :: "service \<Rightarrow> string set" where
  "lines_of sv = (\<Union>s \<in> sessions_of sv. set (outbox (transport_of (controller_of s))))"

definition lines_for :: "(mi_command \<Rightarrow> bool) \<Rightarrow> string set" where
  "lines_for P = {line. \<exists>n c. P c \<and> line = serialize c (Some n)}"

lemma session_extends_lines:
  "session_extends P s t \<Longrightarrow>
   set (outbox (transport_of (controller_of t))) \<subseteq> set (outbox (transport_of (controller_of s))) \<union> lines_for P"
  unfolding session_extends_def extends_def
proof (elim conjE exE)
  fix tcs
  assume out: "outbox (transport_of (controller_of t)) = outbox (transport_of (controller_of s)) @ map sent tcs"
    and P: "\<forall>tc \<in> set tcs. next_token (controller_of s) \<le> fst tc \<and> fst tc < next_token (controller_of t) \<and> P (snd tc)"
  have "sent tc \<in> lines_for P" if "tc \<in> set tcs" for tc
    using P that unfolding lines_for_def sent_def by blast
  then have "set (map sent tcs) \<subseteq> lines_for P" by (simp add: image_subset_iff)
  then show ?thesis unfolding out by (simp add: le_supI2)
qed

lemma service_extends_lines:
  assumes "service_extends P a b"
  shows "lines_of b \<subseteq> lines_of a \<union> lines_for P"
proof -
  have "set (outbox (transport_of (controller_of s))) \<subseteq> lines_of a \<union> lines_for P" if "accounted P a s" for s
    using that unfolding accounted_def
  proof
    assume "\<exists>t \<in> sessions_of a. session_extends P t s"
    then obtain t where t: "t \<in> sessions_of a" "session_extends P t s" by blast
    have "set (outbox (transport_of (controller_of t))) \<subseteq> lines_of a" using t(1) by (auto simp: lines_of_def)
    with session_extends_lines [OF t(2)] show ?thesis by blast
  next
    assume "fresh_session P s"
    then obtain process b sid where
      "session_extends P (new_session (new_controller (new_transport process)) b sid) s"
      by (auto simp: fresh_session_def)
    from session_extends_lines [OF this] show ?thesis
      by (auto simp: new_session_def new_controller_def new_transport_def)
  qed
  then show ?thesis using assms by (auto simp: service_extends_def lines_of_def)
qed

interpretation service_order: effect_order "service_extends P" for P
  by unfold_locales (simp add: service_extends_subset, rule service_extends_trans)

section \<open>The effect of every part of a handler\<close>

lemma ensures_subset:
  "(\<And>sv. same_config sv (snd (m sv)) \<and> sessions_of (snd (m sv)) \<subseteq> sessions_of sv) \<Longrightarrow>
   ensures (service_extends P) m"
  by (intro ensuresI service_extends_subset) auto

lemma ensures_draw_id: "ensures (service_extends P) (draw_id prefix)"
  by (rule ensures_subset) (simp add: draw_id_def same_config_def sessions_of_def)

lemma ensures_read_clock: "ensures (service_extends P) read_clock"
  by (rule ensures_subset) (simp add: read_clock_def same_config_def sessions_of_def)

lemma ensures_on_store: "ensures (service_extends P) (on_store m)"
  by (rule ensures_subset)
    (auto simp: on_store_def zoom_def same_config_def sessions_of_def split: prod.split)

lemma ensures_set_audit: "ensures (service_extends P) (modify (\<lambda>sv. sv\<lparr>sv_audit := entries\<rparr>))"
  by (rule ensures_subset) (simp add: same_config_def sessions_of_def)

lemma ensures_set_snapshots:
  "ensures (service_extends P) (modify (\<lambda>sv. sv\<lparr>sv_snapshots := f (sv_snapshots sv)\<rparr>))"
  by (rule ensures_subset) (simp add: same_config_def sessions_of_def)

lemma ensures_set_spawned: "ensures (service_extends P) (modify (\<lambda>sv. sv\<lparr>env_spawned := n\<rparr>))"
  by (rule ensures_subset) (simp add: same_config_def sessions_of_def)

lemma ensures_release_op: "ensures (service_extends P) (modify (release_operation sid))"
  by (rule ensures_subset)
    (auto simp: release_operation_def Let_def same_config_def sessions_of_def split: option.split)

lemma ensures_reserve_op: "ensures (service_extends P) (reserve sid)"
  by (rule ensures_subset)
    (auto simp: reserve_def try_reserve_operation_def same_config_def sessions_of_def
      split: option.split sum.split)

lemma sessions_of_set:
  "sessions_of (sv\<lparr>sv_sessions := dict_set sid s (sv_sessions sv)\<rparr>) \<subseteq> insert s (sessions_of sv)"
  using set_dict_set [of sid s "sv_sessions sv"] by (auto simp: sessions_of_def)

lemma sessions_of_put: "sessions_of (put_session sid s sv) \<subseteq> insert s (sessions_of sv)"
  using sessions_of_set [where sv = sv and sid = sid and s = s] set_replace_session [of sid s "sv_retired sv"]
  by (auto simp: put_session_def sessions_of_def)

lemma held_session_of: "held_session sid sv = Some s \<Longrightarrow> s \<in> sessions_of sv"
  by (auto simp: held_session_def sessions_of_def split: option.splits dest: find_session_id map_of_SomeD)
    (force dest: map_of_SomeD)

lemma put_session_extends:
  assumes "held_session sid sv = Some s" and "session_extends P s s'"
  shows "service_extends P sv (put_session sid s' sv)"
proof -
  have "accounted P sv s'" using assms held_session_of by (auto simp: accounted_def)
  moreover have "same_config sv (put_session sid s' sv)" by (simp add: put_session_def same_config_def)
  ultimately show ?thesis using sessions_of_put [of sid s' sv] accounted_self
    by (auto simp: service_extends_def)
qed

lemma ensures_on_session:
  assumes "ensures (session_extends P) m"
  shows "ensures (service_extends P) (on_session sid m)"
proof (rule ensuresI)
  fix sv
  show "service_extends P sv (snd (on_session sid m sv))"
  proof (cases "held_session sid sv")
    case None
    then show ?thesis by (simp add: on_session_def service_order.R_refl)
  next
    case (Some s)
    obtain r s' where m: "m s = (r, s')" by fastforce
    then show ?thesis using put_session_extends [OF Some ensures_run [OF assms m]] Some
      by (simp add: on_session_def)
  qed
qed

lemma ensures_retire: "ensures (service_extends P) (retire sid)"
proof (rule ensures_subset)
  fix sv
  have "sessions_of (snd (retire sid sv)) \<subseteq> sessions_of sv"
  proof (cases "dict_get (sv_sessions sv) sid")
    case (Some s)
    then have "s \<in> snd ` set (sv_sessions sv)" using map_of_SomeD [OF Some] by force
    then show ?thesis using Some by (auto simp: retire_def remove_session_def sessions_of_def dict_del_def)
  qed (simp add: retire_def remove_session_def sessions_of_def)
  then show "same_config sv (snd (retire sid sv)) \<and> sessions_of (snd (retire sid sv)) \<subseteq> sessions_of sv"
    by (simp add: retire_def same_config_def split: prod.split sum.split)
qed

lemmas service_parts =
  service_order.ensures_basic service_order.ensures_andthen service_order.ensures_catch
  service_order.ensures_try_else service_order.ensures_finally service_order.ensures_if
  service_order.ensures_option service_order.ensures_sum
  ensures_draw_id ensures_read_clock ensures_on_store ensures_set_audit ensures_set_snapshots
  ensures_set_spawned ensures_release_op ensures_reserve_op ensures_retire

lemma ensures_audit: "ensures (service_extends P) (audit tool r outcome sid b a summary err w)"
  unfolding audit_def by (intro service_parts)

lemma ensures_success: "ensures (service_extends P) (success tool r d sid st b w)"
  unfolding success_def by (intro service_parts ensures_audit)

lemma ensures_failure: "ensures (service_extends P) (failure tool err r sid w)"
  unfolding failure_def by (intro service_parts ensures_audit)

lemma ensures_exception_failure: "ensures (service_extends P) (exception_failure tool r e sid)"
  unfolding exception_failure_def by (intro service_parts ensures_failure)

lemma ensures_decide: "ensures (service_extends P) (decide op r tok)"
  unfolding decide_def by (intro service_parts)

lemma ensures_issue_token: "ensures (service_extends P) (issue_token op r)"
  unfolding issue_token_def by (intro service_parts)

lemma ensures_policy_failure: "ensures (service_extends P) (policy_failure tool op err r w)"
  unfolding policy_failure_def by (intro service_parts ensures_issue_token ensures_failure)

lemma ensures_guarded_call:
  "ensures (service_extends P) call \<Longrightarrow> ensures (service_extends P) (guarded_call tool r sid call)"
  unfolding guarded_call_def by (intro service_parts ensures_exception_failure)

lemma ensures_run_on_session:
  assumes "ensures (service_extends P) call"
  shows "ensures (service_extends P) (run_on_session tool r sid w call)"
proof -
  have "ensures (service_extends P) (case y of (d, st) \<Rightarrow> success tool r d (Some sid) st b w)" for y b
    by (cases y) (simp add: ensures_success)
  then show ?thesis
    unfolding run_on_session_def
    by (intro service_parts ensures_failure ensures_guarded_call assms)
qed

lemma ensures_session_call:
  assumes "ensures (session_extends P) m"
  shows "ensures (service_extends P) (session_call sid m wrap)"
  unfolding session_call_def
  by (rule service_order.ensures_andthen [OF ensures_on_session [OF assms]])
    (auto split: prod.split intro: service_order.ensures_basic)

section \<open>Mediation\<close>

text \<open>
  What a handler needs to run: the policy permits the operation, and a token that comes with
  the call is verified, at the clock reading of the decision.
\<close>

definition token_good :: "service \<Rightarrow> debug_operation \<Rightarrow> tool_request \<Rightarrow> string option \<Rightarrow> bool" where
  "token_good sv op r tok \<longleftrightarrow>
     (case tok of
        None \<Rightarrow> True
      | Some t \<Rightarrow> fst (verify (env_digest sv) t (env_time sv (env_times_read sv)) op r (sv_store sv)) = Inr ())"

definition granted :: "service \<Rightarrow> debug_operation \<Rightarrow> tool_request \<Rightarrow> string option \<Rightarrow> bool" where
  "granted sv op r tok \<longleftrightarrow> permits (policy_request_of sv op tok) \<and> token_good sv op r tok"

lemma decide_grants:
  assumes "decide op r tok sv = (Inr d, sv')" and "pd_allowed d"
  shows "granted sv op r tok"
proof (cases tok)
  case None
  then have "d = evaluate (policy_request_of sv op None)" using assms(1) by (auto simp: decide_def)
  then show ?thesis using assms(2) None evaluate_allows by (simp add: granted_def token_good_def)
next
  case (Some t)
  have "pd_allowed (denied_by_token op why) = False" for why
    by (simp add: pd_allowed_def denied_by_token_def)
  then have "pd_allowed (evaluate (policy_request_of sv op (Some t))) \<and> token_good sv op r (Some t)"
    using assms Some
    by (auto simp: decide_def andthen_def read_clock_def try_else_def on_store_def zoom_def
        policy_request_of_def token_good_def split: prod.splits sum.splits if_splits)
  then show ?thesis using Some evaluate_allows by (simp add: granted_def)
qed

lemma with_session_mediated:
  assumes "ensures (service_extends P) call"
  shows "service_extends (\<lambda>c. P c \<and> granted sv op r tok) sv
    (snd (with_session tool op r sid tok call sv))"
proof -
  obtain x sv1 where d: "decide op r tok sv = (x, sv1)" by fastforce
  let ?Q = "\<lambda>c. P c \<and> granted sv op r tok"
  have 1: "service_extends ?Q sv sv1" using ensures_run [OF ensures_decide d] .
  show ?thesis
  proof (cases x)
    case (Inl e)
    then show ?thesis using d 1 by (simp add: with_session_def andthen_def)
  next
    case (Inr dec)
    show ?thesis
    proof (cases "pd_allowed dec")
      case True
      then have "granted sv op r tok" using decide_grants d Inr by blast
      then have "ensures (service_extends ?Q) call" using assms by simp
      then have "service_extends ?Q sv1 (snd (run_on_session tool r sid (pd_warnings dec) call sv1))"
        using ensuresD [OF ensures_run_on_session] by blast
      then show ?thesis using 1 d Inr True service_extends_trans
        by (simp add: with_session_def andthen_def)
    next
      case False
      have "service_extends ?Q sv1 (snd (policy_failure tool op (to_error dec) r (pd_warnings dec) sv1))"
        using ensuresD [OF ensures_policy_failure] by blast
      then show ?thesis using 1 d Inr False service_extends_trans
        by (simp add: with_session_def andthen_def)
    qed
  qed
qed

lemma fresh_after:
  "session_extends P (new_session (new_controller (new_transport process)) b sid) s \<Longrightarrow> fresh_session P s"
  by (auto simp: fresh_session_def)

lemma add_session_effect:
  assumes "fresh_session P s"
  shows "service_extends P sv (sv\<lparr>sv_sessions := add_session s (sv_sessions sv)\<rparr>)"
proof -
  have "accounted P sv s" using assms by (simp add: accounted_def)
  then show ?thesis
    using sessions_of_set [where sv = sv and sid = "session_id s" and s = s] accounted_self
    by (auto simp: add_session_def service_extends_def same_config_def)
qed

lemma register_session_effect:
  "fresh_session P s \<Longrightarrow> service_extends P sv (snd (register_session s sv))"
  by (simp add: register_session_def add_session_effect)

lemma drop_session_effect:
  "fresh_session P s \<Longrightarrow> service_extends P sv (sv\<lparr>sv_retired := s # sv_retired sv\<rparr>)"
  using accounted_self by (auto simp: service_extends_def same_config_def sessions_of_def accounted_def)

lemma connect_new_effect:
  assumes "connect_new (new_session (new_controller (new_transport process)) b sid) r sv = (x, sv')"
    and "\<And>e. P (target_select e True)"
  shows "service_extends P sv sv' \<and> (\<forall>conn s. x = Inr (conn, s) \<longrightarrow> fresh_session P s)"
proof -
  let ?s0 = "new_session (new_controller (new_transport process)) b sid"
  obtain y s where c: "connect r ?s0 = (y, s)" by fastforce
  have "session_extends P ?s0 s" using ensures_run [OF ensures_connect c] assms(2) by blast
  then have f: "fresh_session P s" by (rule fresh_after)
  then show ?thesis using assms(1) c drop_session_effect
    by (auto simp: connect_new_def service_order.R_refl split: sum.splits)
qed

lemma ensures_create: "ensures (service_extends P) (create_gdb_debug_session spawn r)"
  unfolding create_gdb_debug_session_def by (intro service_parts)

lemma create_shape:
  "create_gdb_debug_session spawn r sv = (Inr s, sv') \<Longrightarrow>
   \<exists>process sid. s = new_session (new_controller (new_transport process)) (create_backend (ct_backend r)) sid"
  unfolding create_gdb_debug_session_def by (auto elim!: andthen_InrD) blast

lemma ensures_open_session:
  assumes P: "\<And>e. P (target_select e True)"
  shows "ensures (service_extends P) (open_session spawn r w)"
proof (rule ensuresI)
  fix sv
  obtain x sv1 where 1: "create_gdb_debug_session spawn r sv = (x, sv1)" by fastforce
  have e1: "service_extends P sv sv1" using ensures_run [OF ensures_create 1] .
  show "service_extends P sv (snd (open_session spawn r w sv))"
  proof (cases x)
    case (Inl e)
    then show ?thesis using 1 e1 by (simp add: open_session_def andthen_def)
  next
    case (Inr s0)
    then obtain process sid where s0: "s0 = new_session (new_controller (new_transport process)) (create_backend (ct_backend r)) sid"
      using 1 create_shape by blast
    obtain y sv2 where 2: "connect_new s0 r sv1 = (y, sv2)" by fastforce
    have e2: "service_extends P sv1 sv2" and f: "\<forall>conn s. y = Inr (conn, s) \<longrightarrow> fresh_session P s"
      using connect_new_effect [of process _ sid r sv1 y sv2 P] 2 P unfolding s0 by auto
    show ?thesis
    proof (cases y)
      case (Inl e)
      then show ?thesis using 1 2 Inr e1 e2 service_extends_trans
        by (simp add: open_session_def andthen_def)
    next
      case (Inr cs)
      obtain conn s where cs: "cs = (conn, s)" by fastforce
      have e3: "service_extends P sv2 (snd (register_session s sv2))"
        using f Inr cs by (intro register_session_effect) simp
      let ?sv3 = "snd (register_session s sv2)"
      have "service_extends P ?sv3 (snd (success tool q d sid' st b w' ?sv3))" for tool q d sid' st b w'
        using ensuresD [OF ensures_success] .
      then show ?thesis
        using 1 2 \<open>x = Inr s0\<close> Inr cs service_extends_trans [OF service_extends_trans [OF e1 e2] e3]
          service_extends_trans
        by (simp add: open_session_def andthen_def register_session_def)
    qed
  qed
qed

section \<open>The commands of every tool\<close>

primrec may_send :: "tool_request \<Rightarrow> mi_command \<Rightarrow> bool" where
  "may_send (ConnectTarget r) c \<longleftrightarrow> (\<exists>e. c = target_select e True)"
| "may_send (DisconnectTarget r) c \<longleftrightarrow> c = gdb_exit"
| "may_send (Halt r) c \<longleftrightarrow> c = exec_interrupt"
| "may_send (Resume r) c \<longleftrightarrow> c = exec_continue \<or> c = exec_interrupt"
| "may_send (StepInstruction r) c \<longleftrightarrow> c = exec_step_instruction"
| "may_send (ResetTarget r) c \<longleftrightarrow> c = reset_command (rt_mode r)"
| "may_send (ReadRegisters r) c \<longleftrightarrow> c = data_list_register_values ''x''"
| "may_send (ReadMemory r) c \<longleftrightarrow> c = data_read_memory_bytes (rm_address r) (rm_length r)"
| "may_send (WriteMemory r) c \<longleftrightarrow> (\<exists>l. c = data_read_memory_bytes (wm_address r) l)
     \<or> c = data_write_memory_bytes (wm_address r) (wm_data_hex r)"
| "may_send (SetBreakpoint r) c \<longleftrightarrow> c = break_insert (loc_value (sb_location r)) (sb_type r) (sb_temporary r)"
| "may_send (ClearBreakpoint r) c \<longleftrightarrow> c = break_delete (cb_breakpoint_id r)"
| "may_send (DebugSnapshot r) c \<longleftrightarrow> reading c"
| "may_send (AnalyzeFault r) c \<longleftrightarrow> False"
| "may_send (InspectPeripheral r) c \<longleftrightarrow> (\<exists>a. c = data_read_memory_bytes a 4)"
| "may_send (CompareSnapshots r) c \<longleftrightarrow> False"
| "may_send (ExplainCurrentState r) c \<longleftrightarrow> False"
| "may_send (SuggestNextDebugSteps r) c \<longleftrightarrow> False"

text \<open>The tools that only read are called without a confirmation token.\<close>

definition token_of :: "tool_request \<Rightarrow> string option \<Rightarrow> string option" where
  "token_of r tok = (if operation_of r \<in> read_only_operations then None else tok)"

definition permitted :: "service \<Rightarrow> tool_request \<Rightarrow> string option \<Rightarrow> bool" where
  "permitted sv r tok \<longleftrightarrow> permits (policy_request_of sv (operation_of r) (token_of r tok))"

definition authorized :: "service \<Rightarrow> tool_request \<Rightarrow> string option \<Rightarrow> bool" where
  "authorized sv r tok \<longleftrightarrow> granted sv (operation_of r) r (token_of r tok)"

lemma authorized_permitted: "authorized sv r tok \<Longrightarrow> permitted sv r tok"
  by (simp add: authorized_def granted_def permitted_def)

lemma ensures_steps: "P exec_step_instruction \<Longrightarrow> ensures (session_extends P) (step_many n t)"
  unfolding step_many_def by (intro session_ensures ensures_step)

lemma ensures_inspect_register:
  "(\<And>a. P (data_read_memory_bytes a 4)) \<Longrightarrow> ensures (session_extends P) (inspect_register p t n)"
  unfolding inspect_register_def by (intro session_ensures ensures_read_memory)

lemma ensures_inspect_registers:
  "(\<And>a. P (data_read_memory_bytes a 4)) \<Longrightarrow> ensures (session_extends P) (inspect_registers p t ns)"
  unfolding inspect_registers_def by (intro session_ensures ensures_inspect_register)

lemma ensures_capture: "ensures (session_extends reading) (capture_session fresh sid r)"
  using reads_capture unfolding ensures_def reads_only_def by blast

lemma ensures_disconnect_call:
  "P gdb_exit \<Longrightarrow> ensures (service_extends P) (disconnect_call r)"
  unfolding disconnect_call_def
  by (intro service_order.ensures_andthen ensures_on_session ensures_disconnect)
    (auto simp: split_beta intro!: service_parts)

lemma ensures_snapshot_call: "ensures (service_extends reading) (snapshot_call r)"
  unfolding snapshot_call_def
  by (intro service_order.ensures_andthen service_order.ensures_basic ensures_on_session ensures_capture)
    (auto simp: split_beta intro!: service_parts)

text \<open>Handlers that check a limit or look something up first run their rest in the same state.\<close>

lemma guard_limit_extends:
  assumes "service_extends P sv (snd (m sv))"
  shows "service_extends P sv (snd (andthen (gets f) (\<lambda>l. guard_limit tool l r sid m) sv))"
  using assms ensuresD [OF ensures_failure, of P sv tool _ r sid "[]"]
  by (simp add: andthen_def guard_limit_def split: option.split)

lemma mediatedI:
  assumes "ensures (session_extends P) m"
  shows "service_extends (\<lambda>c. P c \<and> granted sv op r tok) sv
    (snd (with_session tool op r sid tok (session_call sid' m wrap) sv))"
  by (intro with_session_mediated ensures_session_call assms)

lemma connect_mediated:
  "service_extends (\<lambda>c. (\<exists>e. c = target_select e True) \<and> granted sv OP_CONNECT_TARGET (ConnectTarget r) tok)
     sv (snd (tool_connect_target r tok sv))"
proof -
  let ?P = "\<lambda>c. (\<exists>e. c = target_select e True) \<and> granted sv OP_CONNECT_TARGET (ConnectTarget r) tok"
  let ?rest = "\<lambda>spawn. andthen (decide OP_CONNECT_TARGET (ConnectTarget r) tok) (\<lambda>decision.
             if \<not> pd_allowed decision
             then policy_failure ''connect_target'' OP_CONNECT_TARGET (to_error decision) (ConnectTarget r)
                    (pd_warnings decision)
             else catch (open_session spawn r (pd_warnings decision))
                    (\<lambda>e. exception_failure ''connect_target'' (ConnectTarget r) e None))"
  have rest: "service_extends ?P sv (snd (?rest spawn sv))" for spawn
  proof -
    obtain x sv1 where d: "decide OP_CONNECT_TARGET (ConnectTarget r) tok sv = (x, sv1)" by fastforce
    have 1: "service_extends ?P sv sv1" using ensures_run [OF ensures_decide d] .
    have deny: "service_extends ?P sv1 (snd (policy_failure tool op err q w sv1))" for tool op err q w
      by (rule ensuresD [OF ensures_policy_failure])
    have run: "service_extends ?P sv1 (snd (catch (open_session spawn r w)
        (\<lambda>e. exception_failure ''connect_target'' (ConnectTarget r) e None) sv1))"
      if "granted sv OP_CONNECT_TARGET (ConnectTarget r) tok" for w
      by (rule ensuresD [of "service_extends ?P"], intro service_order.ensures_catch ensures_open_session
          ensures_exception_failure) (use that in blast)
    show ?thesis
    proof (cases x)
      case (Inr dec)
      show ?thesis
      proof (cases "pd_allowed dec")
        case True
        then have "granted sv OP_CONNECT_TARGET (ConnectTarget r) tok" using decide_grants d Inr by blast
        from run [OF this] show ?thesis using service_extends_trans [OF 1] d Inr True
          by (simp add: andthen_def)
      next
        case False
        then show ?thesis using service_extends_trans [OF 1 deny] d Inr by (simp add: andthen_def)
      qed
    qed (use 1 d in \<open>simp add: andthen_def\<close>)
  qed
  have fail: "service_extends ?P sv (snd (failure tool e q sid w sv))" for tool e q sid w
    by (rule ensuresD [OF ensures_failure])
  show ?thesis
    unfolding tool_connect_target_def
    by (rule guard_limit_extends) (use rest fail in \<open>simp add: andthen_def split: option.split\<close>)
qed

section \<open>Complete mediation\<close>

lemma token_of_simps [simp]:
  "token_of (ConnectTarget a) tok = tok" "token_of (DisconnectTarget b) tok = tok"
  "token_of (Halt c) tok = tok" "token_of (Resume d) tok = tok" "token_of (StepInstruction e) tok = tok"
  "token_of (ResetTarget f) tok = tok" "token_of (WriteMemory g) tok = tok"
  "token_of (SetBreakpoint h) tok = tok" "token_of (ClearBreakpoint i) tok = tok"
  "token_of (ReadRegisters j) tok = None" "token_of (ReadMemory k) tok = None"
  "token_of (DebugSnapshot l) tok = None" "token_of (InspectPeripheral m) tok = None"
  by (simp_all add: token_of_def read_only_operations_def)

lemma ensures_lookup_tools:
  "ensures (service_extends P) (tool_analyze_fault a)"
  "ensures (service_extends P) (tool_compare_snapshots b)"
  "ensures (service_extends P) (tool_explain_current_state c)"
  "ensures (service_extends P) (tool_suggest_next_debug_steps d)"
  unfolding tool_analyze_fault_def tool_compare_snapshots_def tool_explain_current_state_def
    tool_suggest_next_debug_steps_def
  by (auto intro!: service_parts ensures_failure ensures_success split: option.split)

lemma ensures_load_document: "ensures (service_extends P) (load_document path)"
  unfolding load_document_def by (auto intro!: service_parts split: sum.split option.split)

lemma load_document_same: "snd (load_document path sv) = sv"
  by (simp add: load_document_def andthen_def split: sum.split option.split)

lemma inspect_mediated:
  "service_extends (\<lambda>c. (\<exists>a. c = data_read_memory_bytes a 4) \<and> granted sv OP_INSPECT_PERIPHERAL (InspectPeripheral r) None)
     sv (snd (tool_inspect_peripheral r sv))"
proof -
  obtain x sv1 where l: "load_document (ip_svd_path r) sv = (x, sv1)" by fastforce
  have sv1: "sv1 = sv" using load_document_same [of "ip_svd_path r" sv] l by simp
  show ?thesis
  proof (cases x)
    case (Inr device)
    have "service_extends (\<lambda>c. (\<exists>a. c = data_read_memory_bytes a 4) \<and>
          granted sv OP_INSPECT_PERIPHERAL (InspectPeripheral r) None) sv
        (snd (with_session tool OP_INSPECT_PERIPHERAL (InspectPeripheral r) sid None
          (session_call sid' (inspect_registers p t ns) wrap) sv))" for tool sid sid' p t ns wrap
      by (rule mediatedI) (rule ensures_inspect_registers, blast)
    then show ?thesis using l sv1 Inr
      by (cases "device_peripheral device (ip_peripheral r)")
        (simp_all add: tool_inspect_peripheral_def andthen_def service_order.R_refl)
  qed (use l sv1 in \<open>simp add: tool_inspect_peripheral_def andthen_def service_order.R_refl\<close>)
qed

theorem call_tool_mediated:
  "service_extends (\<lambda>c. may_send r c \<and> authorized sv r tok) sv (snd (call_tool r tok sv))"
proof (cases r)
  case (ConnectTarget a)
  then show ?thesis by (simp add: authorized_def connect_mediated)
next
  case (DisconnectTarget a)
  then show ?thesis
    by (simp add: authorized_def tool_disconnect_target_def)
      (rule with_session_mediated, rule ensures_disconnect_call, rule refl)
next
  case (Halt a)
  then show ?thesis
    by (simp add: authorized_def tool_halt_def) (rule mediatedI, rule ensures_halt, rule refl)
next
  case (Resume a)
  then show ?thesis
    by (simp add: authorized_def tool_resume_def) (rule mediatedI, rule ensures_resume, simp_all)
next
  case (StepInstruction a)
  then show ?thesis
    by (simp add: authorized_def tool_step_instruction_def) (rule mediatedI, rule ensures_steps, rule refl)
next
  case (ResetTarget a)
  then show ?thesis
    by (simp add: authorized_def tool_reset_target_def) (rule mediatedI, rule ensures_reset_target, rule refl)
next
  case (ReadRegisters a)
  then show ?thesis
    by (simp add: authorized_def tool_read_registers_def) (rule mediatedI, rule ensures_read_registers, rule refl)
next
  case (ReadMemory a)
  then show ?thesis
    by (simp add: authorized_def tool_read_memory_def)
      (rule guard_limit_extends, rule mediatedI, rule ensures_read_memory, rule refl)
next
  case (WriteMemory a)
  show ?thesis
  proof (cases "bytes_fromhex (wm_data_hex a)")
    case (Inl e)
    then show ?thesis using WriteMemory
      by (simp add: tool_write_memory_def) (rule ensuresD, rule ensures_failure)
  next
    case (Inr bs)
    with WriteMemory show ?thesis
      by (simp add: authorized_def tool_write_memory_def)
        (rule guard_limit_extends, rule mediatedI, rule ensures_write_memory, auto)
  qed
next
  case (SetBreakpoint a)
  then show ?thesis
    by (simp add: authorized_def tool_set_breakpoint_def) (rule mediatedI, rule ensures_set_breakpoint, rule refl)
next
  case (ClearBreakpoint a)
  then show ?thesis
    by (simp add: authorized_def tool_clear_breakpoint_def) (rule mediatedI, rule ensures_clear_breakpoint, rule refl)
next
  case (DebugSnapshot a)
  then show ?thesis
    by (simp add: authorized_def tool_debug_snapshot_def)
      (rule guard_limit_extends, rule with_session_mediated, rule ensures_snapshot_call)
next
  case (InspectPeripheral a)
  then show ?thesis by (simp add: authorized_def inspect_mediated)
qed (simp_all, (rule ensuresD, rule ensures_lookup_tools)+)

text \<open>A sequence of calls, with the tokens they are given; exceptions end a call, not the server.\<close>

fun serve :: "(tool_request \<times> string option) list \<Rightarrow> service \<Rightarrow> service" where
  "serve [] sv = sv"
| "serve ((r, tok) # calls) sv = serve calls (snd (call_tool r tok sv))"

lemma call_tool_config: "same_config sv (snd (call_tool r tok sv))"
  using call_tool_mediated unfolding service_extends_def by blast

lemma permitted_config: "same_config a b \<Longrightarrow> permitted b r tok = permitted a r tok"
  by (simp add: permitted_def policy_request_config)

lemma serve_extends:
  assumes "\<And>r tok c. (r, tok) \<in> set calls \<Longrightarrow> may_send r c \<Longrightarrow> permitted sv r tok \<Longrightarrow> P c"
  shows "service_extends P sv (serve calls sv)"
  using assms
proof (induction calls sv rule: serve.induct)
  case (2 r tok calls sv)
  let ?sv = "snd (call_tool r tok sv)"
  have c: "same_config sv ?sv" by (rule call_tool_config)
  have "service_extends P sv ?sv"
    by (rule service_extends_mono [OF call_tool_mediated])
      (use 2(2) [of r tok] authorized_permitted in simp)
  moreover have "service_extends P ?sv (serve calls ?sv)"
    by (rule 2(1)) (use 2(2) permitted_config [OF c] in auto)
  ultimately show ?case using service_extends_trans by simp
qed (simp add: service_order.R_refl)

text \<open>In read-only mode only reading commands are ever sent.\<close>

lemma may_send_reading: "operation_of r \<in> read_only_operations \<Longrightarrow> may_send r c \<Longrightarrow> reading c"
  by (cases r) (auto simp: read_only_operations_def)

lemma readonly_reads:
  assumes "sv_permission_mode sv = READONLY" and "may_send r c" and "permitted sv r tok"
  shows "reading c"
proof -
  have "operation_of r \<in> read_only_operations"
    using permits_readonly [OF assms(3) [unfolded permitted_def]] assms(1) by (simp add: policy_request_of_def)
  then show ?thesis using assms(2) may_send_reading by blast
qed

lemma readonly_serves_reads:
  "sv_permission_mode sv = READONLY \<Longrightarrow> service_extends reading sv (serve calls sv)"
  by (rule serve_extends) (rule readonly_reads)

text \<open>Memory is written only where it is enabled, in full control, with a token, off production.\<close>

lemma may_write:
  "may_send r c \<Longrightarrow> cmd_name c = DATA_WRITE_MEMORY_BYTES \<Longrightarrow> operation_of r = OP_WRITE_MEMORY"
  by (cases r) (auto simp: builder_defs reading_def reset_command_def)

definition writes_disabled :: "service \<Rightarrow> bool" where
  "writes_disabled sv \<longleftrightarrow> \<not> sv_memory_write_enabled sv \<or> sv_permission_mode sv \<noteq> FULL_CONTROL
    \<or> sv_target_class sv = PRODUCTION_HARDWARE"

lemma disabled_never_writes:
  assumes "writes_disabled sv" and "may_send r c" and "permitted sv r tok"
  shows "cmd_name c \<noteq> DATA_WRITE_MEMORY_BYTES"
proof
  assume "cmd_name c = DATA_WRITE_MEMORY_BYTES"
  then have "operation_of r = OP_WRITE_MEMORY" using may_write assms(2) by blast
  then show False using assms(1,3)
    by (auto simp: writes_disabled_def permitted_def permits_def policy_request_of_def read_only_operations_def)
qed

lemma writes_only_enabled:
  assumes "\<not> sv_memory_write_enabled sv \<or> sv_permission_mode sv \<noteq> FULL_CONTROL
    \<or> sv_target_class sv = PRODUCTION_HARDWARE"
  shows "service_extends (\<lambda>c. cmd_name c \<noteq> DATA_WRITE_MEMORY_BYTES) sv (serve calls sv)"
  by (rule serve_extends) (use assms disabled_never_writes in \<open>simp add: writes_disabled_def\<close>)

text \<open>No call reaches GDB's console except with the two allowlisted reset commands.\<close>

lemma may_send_allowlisted: "may_send r c \<Longrightarrow> allowlisted c"
  by (cases r) (auto simp: allowlisted_def reading_def builder_defs reset_command_def
      allowlisted_console_commands_def)

lemma serve_allowlisted: "service_extends allowlisted sv (serve calls sv)"
  by (rule serve_extends) (rule may_send_allowlisted)

end
