(* ===== verification/Service_Answers.thy ===== *)
theory Service_Answers
  imports Service_Effects
begin

text \<open>
  What a tool call answers and records. \<open>quiet\<close> programs leave the audit log alone, \<open>answers\<close>
  programs return an envelope of a valid shape and append exactly one event that agrees with
  it; \<open>raises\<close> bounds the exceptions a program lets out. The main lemmas: every call that
  returns has answered, and the only exception that leaves a handler (other than the SVD
  loading of \<open>inspect_peripheral\<close>) is the \<open>ValidationError\<close> of an error with an empty text.
\<close>

section \<open>Quiet programs\<close>

definition same_log :: "service \<Rightarrow> service \<Rightarrow> bool" where
  "same_log a b \<longleftrightarrow> sv_audit b = sv_audit a \<and> sv_permission_mode b = sv_permission_mode a"

interpretation log_order: effect_order same_log
  by unfold_locales (simp_all add: same_log_def)

abbreviation quiet :: "(service, 'a) prog \<Rightarrow> bool" where
  "quiet \<equiv> ensures same_log"

lemma quietI: "(\<And>sv. same_log sv (snd (m sv))) \<Longrightarrow> quiet m"
  by (rule ensuresI)

lemma quiet_parts:
  "quiet (draw_id p)" "quiet read_clock" "quiet (on_store m)" "quiet (on_session sid n)"
  "quiet (retire sid)" "quiet (modify (release_operation i))" "quiet (reserve i)"
  "quiet (modify (\<lambda>sv. sv\<lparr>sv_snapshots := f (sv_snapshots sv)\<rparr>))"
  "quiet (modify (\<lambda>sv. sv\<lparr>env_spawned := k\<rparr>))"
  "quiet (connect_new s r)" "quiet (register_session s)"
  by (auto intro!: ensuresI simp: same_log_def draw_id_def read_clock_def on_store_def zoom_def
      on_session_def put_session_def retire_def release_operation_def reserve_def try_reserve_operation_def Let_def
      connect_new_def register_session_def
      split: prod.split option.split sum.split)

lemmas quiet_intros = log_order.ensures_intros quiet_parts

lemma quiet_decide: "quiet (decide op r tok)"
  unfolding decide_def by (intro quiet_intros)

lemma quiet_issue_token: "quiet (issue_token op r)"
  unfolding issue_token_def by (intro quiet_intros)

lemma quiet_session_call: "quiet (session_call sid m wrap)"
  unfolding session_call_def by (auto simp: split_beta intro!: quiet_intros)

lemma quiet_disconnect_call: "quiet (disconnect_call r)"
  unfolding disconnect_call_def by (auto simp: split_beta intro!: quiet_intros)

lemma quiet_snapshot_call: "quiet (snapshot_call r)"
  unfolding snapshot_call_def by (auto simp: split_beta intro!: quiet_intros)

lemma quiet_create: "quiet (create_gdb_debug_session spawn r)"
  unfolding create_gdb_debug_session_def by (intro quiet_intros)

section \<open>Answers\<close>

text \<open>The event that records an answer.\<close>

definition records :: "tool_request \<Rightarrow> permission_level \<Rightarrow> tool_result \<Rightarrow> audit_event \<Rightarrow> bool" where
  "records r mode res ev \<longleftrightarrow>
     ae_tool_name ev = tool_name r
     \<and> ae_request_summary ev = redact_mapping (request_fields r)
     \<and> ae_permission_mode ev = mode
     \<and> ae_outcome ev = (if res_ok res then SUCCESS else ERROR)
     \<and> ae_session_id ev = res_session_id res
     \<and> ae_state_after ev = res_target_state res
     \<and> ae_result_summary ev = redact_mapping (data_fields (res_data res))
     \<and> ae_warnings ev = res_warnings res
     \<and> ae_error ev = res_error res
     \<and> res_audit_id res = Some (ae_audit_id ev)"

definition answered :: "tool_request \<Rightarrow> service \<Rightarrow> tool_result \<Rightarrow> service \<Rightarrow> bool" where
  "answered r sv res sv' \<longleftrightarrow>
     valid_shape res
     \<and> (case sv_audit sv of
          None \<Rightarrow> sv_audit sv' = None \<and> res_audit_id res = None
        | Some events \<Rightarrow> \<exists>ev. sv_audit sv' = Some (events @ [ev]) \<and> records r (sv_permission_mode sv) res ev)"

definition answers :: "tool_request \<Rightarrow> (service, tool_result) prog \<Rightarrow> bool" where
  "answers r m \<longleftrightarrow> (\<forall>sv res sv'. m sv = (Inr res, sv') \<longrightarrow> answered r sv res sv')"

lemma answersI: "(\<And>sv res sv'. m sv = (Inr res, sv') \<Longrightarrow> answered r sv res sv') \<Longrightarrow> answers r m"
  and answersD: "answers r m \<Longrightarrow> m sv = (Inr res, sv') \<Longrightarrow> answered r sv res sv'"
  by (simp_all add: answers_def)

lemma answered_same: "same_log a b \<Longrightarrow> answered r b res c = answered r a res c"
  by (simp add: answered_def same_log_def split: option.split)

lemma answered_after: "sv_audit b = sv_audit c \<Longrightarrow> answered r a res b = answered r a res c"
  by (simp add: answered_def split: option.split)

lemma answers_andthen:
  assumes "quiet m" and "\<And>x. answers r (k x)"
  shows "answers r (andthen m k)"
proof (rule answersI)
  fix sv res sv' assume "andthen m k sv = (Inr res, sv')"
  then obtain x sv1 where 1: "m sv = (Inr x, sv1)" and 2: "k x sv1 = (Inr res, sv')"
    by (rule andthen_InrD)
  have "same_log sv sv1" using ensures_run [OF assms(1) 1] .
  then show "answered r sv res sv'" using answersD [OF assms(2) 2] answered_same by blast
qed

lemma answers_throw: "answers r (throw e)"
  by (simp add: answers_def)

lemma answers_if: "answers r m \<Longrightarrow> answers r n \<Longrightarrow> answers r (if b then m else n)"
  by simp

lemma answers_option:
  "answers r m \<Longrightarrow> (\<And>y. answers r (n y)) \<Longrightarrow> answers r (case x of None \<Rightarrow> m | Some y \<Rightarrow> n y)"
  by (cases x) simp_all

lemma answers_sum:
  "(\<And>e. answers r (m e)) \<Longrightarrow> (\<And>y. answers r (n y)) \<Longrightarrow>
   answers r (case x of Inl e \<Rightarrow> m e | Inr y \<Rightarrow> n y)"
  by (cases x) simp_all

lemma audit_run:
  assumes "audit tool r outcome sid b a summary err w sv = (x, sv')"
  shows "case sv_audit sv of
      None \<Rightarrow> x = Inr None \<and> sv' = sv
    | Some events \<Rightarrow> \<exists>aid cid. x = Inr (Some aid) \<and> sv_audit sv' = Some (events @
        [\<lparr>ae_audit_id = aid, ae_correlation_id = cid, ae_session_id = sid, ae_tool_name = tool,
          ae_permission_mode = sv_permission_mode sv, ae_state_before = b, ae_state_after = a,
          ae_outcome = outcome, ae_request_summary = redact_mapping (request_fields r),
          ae_result_summary = summary, ae_warnings = w, ae_error = err\<rparr>])"
  using assms by (auto simp: audit_def andthen_def draw_id_def split: option.splits)

lemma answers_success:
  assumes "tool = tool_name r"
  shows "answers r (success tool r d sid st b w)"
proof (rule answersI)
  fix sv res sv' assume "success tool r d sid st b w sv = (Inr res, sv')"
  then obtain aid sv1 where 1: "audit tool r SUCCESS sid b st (redact_mapping (data_fields d)) None w sv = (Inr aid, sv1)"
    and 2: "mk_tool_result \<lparr>res_ok = True, res_session_id = sid, res_target_state = st, res_data = d,
           res_warnings = w, res_audit_id = aid, res_error = None\<rparr> = Inr res" and 3: "sv' = sv1"
    unfolding success_def by (auto elim!: andthen_InrD)
  then show "answered r sv res sv'"
    using audit_run [OF 1] assms
    by (auto simp: answered_def records_def mk_tool_result_iff valid_shape_def split: option.splits)
qed

lemma answers_failure:
  assumes "tool = tool_name r"
  shows "answers r (failure tool e r sid w)"
proof (rule answersI)
  fix sv res sv' assume "failure tool e r sid w sv = (Inr res, sv')"
  then obtain aid sv1 where 1: "audit tool r ERROR sid UNKNOWN UNKNOWN [] (Some e) w sv = (Inr aid, sv1)"
    and 2: "mk_tool_result \<lparr>res_ok = False, res_session_id = sid, res_target_state = UNKNOWN, res_data = NoData,
           res_warnings = w, res_audit_id = aid, res_error = Some e\<rparr> = Inr res" and 3: "sv' = sv1"
    unfolding failure_def by (auto elim!: andthen_InrD)
  then show "answered r sv res sv'"
    using audit_run [OF 1] assms
    by (auto simp: answered_def records_def mk_tool_result_iff valid_shape_def redact_mapping_def
        split: option.splits)
qed

lemma answers_exception_failure:
  "tool = tool_name r \<Longrightarrow> answers r (exception_failure tool r e sid)"
  unfolding exception_failure_def
  by (intro answers_andthen answers_failure log_order.ensures_basic)

lemma answers_policy_failure:
  "tool = tool_name r \<Longrightarrow> answers r (policy_failure tool op err r w)"
  unfolding policy_failure_def
  by (intro answers_option answers_throw answers_if answers_andthen answers_failure quiet_issue_token)

lemma guarded_call_answers:
  assumes "quiet call" and "tool = tool_name r" and "guarded_call tool r sid call sv = (Inr x, sv')"
  shows "case x of Inl res \<Rightarrow> answered r sv res sv' | Inr y \<Rightarrow> same_log sv sv'"
proof -
  obtain y sv1 where c: "call sv = (y, sv1)" by fastforce
  have q: "same_log sv sv1" using ensures_run [OF assms(1) c] .
  have rel: "same_log s (release_operation i s)" for s i
    using ensuresD [OF quiet_parts(6), of s i] by simp
  show ?thesis
  proof (cases y)
    case (Inr z)
    then have "x = Inr z" "sv' = release_operation (Some sid) sv1"
      using assms(3) c by (simp_all add: guarded_call_def finally_do_def try_else_def)
    then show ?thesis using log_order.R_trans [OF q rel] by simp
  next
    case (Inl e)
    obtain w sv2 where f: "exception_failure tool r e (Some sid) sv1 = (w, sv2)" by fastforce
    then obtain res where res: "w = Inr res" "x = Inl res" "sv' = release_operation (Some sid) sv2"
      using assms(3) c Inl by (cases w) (auto simp: guarded_call_def finally_do_def try_else_def andthen_def)
    have "answered r sv1 res sv2" using answersD [OF answers_exception_failure] assms(2) f res(1) by blast
    then have "answered r sv res sv2" using answered_same [OF q] by simp
    moreover have "sv_audit (release_operation (Some sid) sv2) = sv_audit sv2"
      using rel [of sv2 "Some sid"] by (simp add: same_log_def)
    ultimately have "answered r sv res (release_operation (Some sid) sv2)"
      using answered_after by metis
    then show ?thesis by (simp add: res(2,3))
  qed
qed

lemma answers_guarded:
  assumes "quiet call" and "tool = tool_name r"
    and "\<And>d st. answers r (k d st)"
  shows "answers r (andthen (guarded_call tool r sid call) (\<lambda>x. case x of Inl res \<Rightarrow> ret res | Inr (d, st) \<Rightarrow> k d st))"
proof (rule answersI)
  fix sv res sv'
  assume "andthen (guarded_call tool r sid call)
    (\<lambda>x. case x of Inl res \<Rightarrow> ret res | Inr (d, st) \<Rightarrow> k d st) sv = (Inr res, sv')"
  then obtain x sv1 where 1: "guarded_call tool r sid call sv = (Inr x, sv1)"
      and 2: "(case x of Inl res \<Rightarrow> ret res | Inr (d, st) \<Rightarrow> k d st) sv1 = (Inr res, sv')"
    by (rule andthen_InrD)
  note g = guarded_call_answers [OF assms(1,2) 1]
  show "answered r sv res sv'"
  proof (cases x)
    case (Inl a)
    then show ?thesis using g 2 by simp
  next
    case (Inr y)
    obtain d st where y: "y = (d, st)" by fastforce
    then have "answered r sv1 res sv'" using 2 Inr answersD [OF assms(3)] by simp
    then show ?thesis using g Inr answered_same by simp
  qed
qed

lemma answers_run_on_session:
  assumes "quiet call" and "tool = tool_name r"
  shows "answers r (run_on_session tool r sid w call)"
  unfolding run_on_session_def
  by (intro answers_andthen answers_sum answers_option answers_failure answers_guarded answers_success
      assms log_order.ensures_basic quiet_parts)

lemma answers_with_session:
  assumes "quiet call" and "tool = tool_name r"
  shows "answers r (with_session tool op r sid tok call)"
  unfolding with_session_def
  by (intro answers_andthen answers_if answers_policy_failure answers_run_on_session assms quiet_decide)

lemma answers_guard_limit:
  "tool = tool_name r \<Longrightarrow> answers r m \<Longrightarrow> answers r (guard_limit tool e r sid m)"
  unfolding guard_limit_def by (intro answers_option answers_failure)

lemma answers_open_session: "answers (ConnectTarget r) (open_session spawn r w)"
  unfolding open_session_def
  by (intro answers_andthen quiet_create)
    (auto simp: split_beta intro!: answers_andthen answers_success quiet_parts)

text \<open>A \<open>catch\<close> whose body is quiet on exceptions.\<close>

definition quiet_errors :: "(service, 'a) prog \<Rightarrow> bool" where
  "quiet_errors m \<longleftrightarrow> (\<forall>sv e sv'. m sv = (Inl e, sv') \<longrightarrow> same_log sv sv')"

lemma quiet_errors_andthen:
  assumes "quiet m" and "\<And>x. quiet_errors (k x)"
  shows "quiet_errors (andthen m k)"
  unfolding quiet_errors_def
proof (intro allI impI)
  fix sv e sv' assume "andthen m k sv = (Inl e, sv')"
  then show "same_log sv sv'"
  proof (rule andthen_InlD)
    assume "m sv = (Inl e, sv')"
    then show ?thesis by (rule ensures_run [OF assms(1)])
  next
    fix x t assume "m sv = (Inr x, t)" "k x t = (Inl e, sv')"
    then show ?thesis
      using ensures_run [OF assms(1)] assms(2) log_order.R_trans unfolding quiet_errors_def by blast
  qed
qed

text \<open>The envelope of a success is never refused.\<close>

lemma success_returns: "\<exists>res sv'. success tool r d sid st b w sv = (Inr res, sv')"
proof -
  obtain x sv1 where a: "audit tool r SUCCESS sid b st (redact_mapping (data_fields d)) None w sv = (x, sv1)"
    by fastforce
  then obtain aid where "x = Inr aid" using audit_run [OF a] by (auto split: option.splits)
  then show ?thesis using a by (simp add: success_def andthen_def mk_tool_result_def)
qed

lemma failure_returns: "\<exists>res sv'. failure tool e r sid w sv = (Inr res, sv')"
proof -
  obtain x sv1 where a: "audit tool r ERROR sid UNKNOWN UNKNOWN [] (Some e) w sv = (x, sv1)"
    by fastforce
  then obtain aid where "x = Inr aid" using audit_run [OF a] by (auto split: option.splits)
  then show ?thesis using a by (simp add: failure_def andthen_def mk_tool_result_def)
qed

lemma quiet_errors_success: "quiet_errors (success tool r d sid st b w)"
  unfolding quiet_errors_def using success_returns by (metis old.sum.distinct(1) prod.inject)

lemma quiet_errors_open_session: "quiet_errors (open_session spawn r w)"
  unfolding open_session_def
  by (intro quiet_errors_andthen quiet_create)
    (auto simp: split_beta intro!: quiet_errors_andthen quiet_errors_success quiet_parts)

lemma answers_catch:
  assumes "answers r m" and "quiet_errors m" and "\<And>e. answers r (h e)"
  shows "answers r (catch m h)"
proof (rule answersI)
  fix sv res sv' assume c: "catch m h sv = (Inr res, sv')"
  obtain x sv1 where m: "m sv = (x, sv1)" by fastforce
  show "answered r sv res sv'"
  proof (cases x)
    case (Inl e)
    then have "answered r sv1 res sv'" using c m answersD [OF assms(3)] by (simp add: catch_def)
    moreover have "same_log sv sv1" using assms(2) m Inl by (simp add: quiet_errors_def)
    ultimately show ?thesis using answered_same by blast
  next
    case (Inr y)
    then show ?thesis using c m answersD [OF assms(1)] by (simp add: catch_def)
  qed
qed

theorem call_tool_answers: "answers r (call_tool r tok)"
proof (cases r)
  case (ConnectTarget a)
  show ?thesis unfolding ConnectTarget call_tool.simps tool_connect_target_def
    by (intro answers_andthen answers_guard_limit answers_option answers_failure answers_if
        answers_policy_failure answers_catch answers_open_session quiet_errors_open_session
        answers_exception_failure log_order.ensures_basic quiet_decide) simp_all
next
  case (InspectPeripheral a)
  have "quiet (load_document p)" for p
    by (rule quietI) (simp add: load_document_same log_order.R_refl)
  then show ?thesis unfolding InspectPeripheral call_tool.simps tool_inspect_peripheral_def Let_def
    by (intro answers_andthen answers_with_session quiet_session_call log_order.ensures_basic) simp_all
next
  case (WriteMemory a)
  show ?thesis unfolding WriteMemory call_tool.simps tool_write_memory_def
    by (intro answers_sum answers_andthen answers_guard_limit answers_failure answers_with_session
        quiet_session_call log_order.ensures_basic) simp_all
next
  case (CompareSnapshots a)
  show ?thesis unfolding CompareSnapshots call_tool.simps tool_compare_snapshots_def
    by (intro answers_andthen log_order.ensures_basic)
      (auto simp: Let_def intro!: answers_success answers_failure split: prod.split option.split)
qed (simp_all add: tool_disconnect_target_def tool_halt_def tool_resume_def tool_step_instruction_def
    tool_reset_target_def tool_read_registers_def tool_read_memory_def tool_set_breakpoint_def
    tool_clear_breakpoint_def tool_debug_snapshot_def tool_analyze_fault_def
    tool_explain_current_state_def tool_suggest_next_debug_steps_def,
    (intro answers_andthen answers_option answers_guard_limit answers_failure answers_success
      answers_with_session quiet_session_call quiet_disconnect_call quiet_snapshot_call
      log_order.ensures_basic, simp_all)+)

section \<open>Exceptions that leave a handler\<close>

definition raises :: "(py_exc \<Rightarrow> bool) \<Rightarrow> ('s, 'a) prog \<Rightarrow> bool" where
  "raises P m \<longleftrightarrow> (\<forall>s e t. m s = (Inl e, t) \<longrightarrow> P e)"

lemma raisesI: "(\<And>s e t. m s = (Inl e, t) \<Longrightarrow> P e) \<Longrightarrow> raises P m"
  and raisesD: "raises P m \<Longrightarrow> m s = (Inl e, t) \<Longrightarrow> P e"
  by (auto simp: raises_def)

lemma raises_basic: "raises P (ret x)" "raises P (gets f)" "raises P (modify g)"
  "P e \<Longrightarrow> raises P (throw e)" "(\<And>e. r = Inl e \<Longrightarrow> P e) \<Longrightarrow> raises P (lift_res r)"
  by (simp_all add: raises_def)

lemma raises_andthen: "raises P m \<Longrightarrow> (\<And>x. raises P (k x)) \<Longrightarrow> raises P (andthen m k)"
  unfolding raises_def by (metis andthen_InlD)

lemma raises_catch: "(\<And>e. raises P (h e)) \<Longrightarrow> raises P (catch m h)"
  by (auto simp: raises_def catch_def split: prod.splits sum.splits)

lemma raises_try_else: "(\<And>e. raises P (h e)) \<Longrightarrow> (\<And>x. raises P (k x)) \<Longrightarrow> raises P (try_else m h k)"
  by (auto simp: raises_def try_else_def split: prod.splits sum.splits)

lemma raises_finally: "raises P m \<Longrightarrow> raises P fin \<Longrightarrow> raises P (finally_do m fin)"
  by (fastforce simp: raises_def finally_do_def split: prod.splits sum.splits)

lemma raises_if: "(b \<Longrightarrow> raises P m) \<Longrightarrow> (\<not> b \<Longrightarrow> raises P n) \<Longrightarrow> raises P (if b then m else n)"
  by simp

lemma raises_option:
  "(x = None \<Longrightarrow> raises P m) \<Longrightarrow> (\<And>y. x = Some y \<Longrightarrow> raises P (n y)) \<Longrightarrow>
   raises P (case x of None \<Rightarrow> m | Some y \<Rightarrow> n y)"
  by (cases x) simp_all

lemma raises_sum:
  "(\<And>e. x = Inl e \<Longrightarrow> raises P (m e)) \<Longrightarrow> (\<And>y. x = Inr y \<Longrightarrow> raises P (n y)) \<Longrightarrow>
   raises P (case x of Inl e \<Rightarrow> m e | Inr y \<Rightarrow> n y)"
  by (cases x) simp_all

text \<open>The only exception a handler lets out by itself: an error model without a text.\<close>

definition no_text :: "py_exc \<Rightarrow> bool" where
  "no_text e \<longleftrightarrow> e = Exc ValidationError ''message''"

lemma raises_envelopes:
  "raises P (success tool r d sid st b w)" "raises P (failure tool err r sid w)"
  using success_returns failure_returns unfolding raises_def
  by (metis old.sum.distinct(1) prod.inject)+

lemma raises_service_parts: "raises P (draw_id p)" "raises P read_clock" "raises P (reserve i)"
  by (simp_all add: raises_def draw_id_def read_clock_def reserve_def split: sum.split)

lemma raises_issue_token: "raises P (issue_token op r)"
  unfolding issue_token_def
  by (intro raises_andthen raises_service_parts raises_basic)
    (simp add: raises_def on_store_def zoom_def issue_def)

lemma raises_exception_failure: "raises no_text (exception_failure tool r e sid)"
  unfolding exception_failure_def
  by (intro raises_andthen raises_envelopes raises_basic)
    (simp add: mk_debug_error_def no_text_def split: if_splits)

lemma raises_policy_failure: "err \<noteq> None \<Longrightarrow> raises P (policy_failure tool op err r w)"
  unfolding policy_failure_def
  by (intro raises_option raises_if raises_andthen raises_issue_token raises_envelopes) simp

lemma verify_raises: "raises (\<lambda>e. exc_of e = ConfirmationError) (on_store (verify d tok now op r))"
proof (rule raisesI)
  fix s e t assume "on_store (verify d tok now op r) s = (Inl e, t)"
  then have "fst (verify d tok now op r (sv_store s)) = Inl e"
    by (simp add: on_store_def zoom_def split: prod.splits)
  then show "exc_of e = ConfirmationError" using verify_error by blast
qed

lemma raises_try_else_bound:
  assumes "raises Q m" and "\<And>e. Q e \<Longrightarrow> raises P (h e)" and "\<And>x. raises P (k x)"
  shows "raises P (try_else m h k)"
  using assms unfolding raises_def
  by (auto simp: try_else_def split: prod.splits sum.splits) blast

lemma raises_decide: "raises P (decide op r tok)"
proof (cases tok)
  case (Some t)
  show ?thesis unfolding Some decide_def option.case
    by (intro raises_andthen raises_service_parts raises_basic raises_try_else_bound [OF verify_raises])
      (simp add: raises_def)
qed (simp add: decide_def raises_def)

lemma raises_run_on_session: "raises no_text (run_on_session tool r sid w call)"
  unfolding run_on_session_def guarded_call_def
  by (intro raises_andthen raises_basic raises_sum raises_option raises_envelopes raises_service_parts
      raises_finally raises_try_else raises_exception_failure)
    (auto intro!: raises_envelopes raises_sum raises_basic split: prod.split)

lemma raises_with_session: "raises no_text (with_session tool op r sid tok call)"
  unfolding with_session_def
  by (intro raises_andthen raises_decide raises_if raises_policy_failure raises_run_on_session)
    (simp add: to_error_None)

lemma raises_guard_limit: "raises P m \<Longrightarrow> raises P (guard_limit tool e r sid m)"
  unfolding guard_limit_def by (intro raises_option raises_envelopes)

lemma call_tool_raises:
  assumes "operation_of r \<noteq> OP_INSPECT_PERIPHERAL"
  shows "raises no_text (call_tool r tok)"
proof (cases r)
  case (ConnectTarget a)
  show ?thesis unfolding ConnectTarget call_tool.simps tool_connect_target_def
    by (intro raises_andthen raises_basic raises_guard_limit raises_option raises_envelopes raises_decide
        raises_if raises_policy_failure raises_catch raises_exception_failure) (simp add: to_error_None)
next
  case (WriteMemory a)
  show ?thesis unfolding WriteMemory call_tool.simps tool_write_memory_def
    by (intro raises_sum raises_envelopes raises_andthen raises_basic raises_guard_limit raises_with_session)
next
  case (CompareSnapshots a)
  show ?thesis unfolding CompareSnapshots call_tool.simps tool_compare_snapshots_def
    by (intro raises_andthen raises_basic) (auto intro!: raises_envelopes split: prod.split option.split)
next
  case (InspectPeripheral a)
  then show ?thesis using assms by simp
qed (simp_all add: tool_disconnect_target_def tool_halt_def tool_resume_def tool_step_instruction_def
    tool_reset_target_def tool_read_registers_def tool_read_memory_def tool_set_breakpoint_def
    tool_clear_breakpoint_def tool_debug_snapshot_def tool_analyze_fault_def
    tool_explain_current_state_def tool_suggest_next_debug_steps_def,
    (intro raises_andthen raises_basic raises_option raises_envelopes raises_guard_limit
      raises_with_session)+)

end
