(* ===== verification/Call_Frame.thy ===== *)
theory Call_Frame
  imports Service_Answers
begin

text \<open>
  What every tool call does to the service as a whole, as interfaces between the steps a handler is
  made of and a relation between the states before and after. \<open>call_parts\<close>: when the relation
  holds of each step that changes the service (drawing an id, reading the clock, the token store,
  the audit log, the snapshots, a session that sends commands that satisfy \<open>P\<close>, dropping one), it
  holds of the envelopes, the decision and the session call of every tool. \<open>call_steps\<close>: when it
  also survives a reservation with its release, it holds of every call but \<open>connect_target\<close>.
  \<open>call_frame\<close>: with the opening of a session below the limit, it holds of every call and of any
  sequence of calls. Interpretations are the service invariant, the counters, the number of sessions
  (\<open>Service_Properties\<close>), the tokens that are gone (\<open>Confirmation_Flow\<close>), and the processes that are
  started, here.
\<close>

locale call_parts = effect_order R for R :: "service \<Rightarrow> service \<Rightarrow> bool" +
  fixes P :: "mi_command \<Rightarrow> bool"
  assumes draws: "env_ids_drawn sv \<le> n \<Longrightarrow> R sv (sv\<lparr>env_ids_drawn := n\<rparr>)"
    and clock: "R sv (sv\<lparr>env_times_read := n\<rparr>)"
    and logs: "R sv (sv\<lparr>sv_audit := entries\<rparr>)"
    and verifies: "ensures R (on_store (verify d tok now op q))"
    and issues: "ensures R (issue_token op q)"
    and snaps: "R sv (sv\<lparr>sv_snapshots := dict_set (snap_id snap) snap (sv_snapshots sv)\<rparr>)"
    and sessions: "held_session sid sv = Some s \<Longrightarrow> (session_ok s \<longrightarrow> session_ok s') \<Longrightarrow>
      session_extends P s s' \<Longrightarrow> R sv (put_session sid s' sv)"
    and retires: "ensures R (retire sid)"
begin

lemma of_on_session:
  assumes "keeps session_ok m" and "ensures (session_extends P) m"
  shows "ensures R (on_session sid m)"
proof (rule ensuresI)
  fix sv
  show "R sv (snd (on_session sid m sv))"
  proof (cases "held_session sid sv")
    case (Some s)
    obtain x s' where m: "m s = (x, s')" by fastforce
    have "R sv (put_session sid s' sv)"
      using Some keeps_run [OF assms(1) m] ensures_run [OF assms(2) m] by (intro sessions) auto
    then show ?thesis using Some m by (simp add: on_session_def)
  qed (simp add: on_session_def R_refl)
qed

lemma of_parts: "ensures R (draw_id p)" "ensures R read_clock"
  "ensures R (modify (\<lambda>sv. sv\<lparr>sv_audit := entries\<rparr>))"
  by (simp_all add: ensures_def draw_id_def read_clock_def draws clock logs)

lemma of_audit: "ensures R (audit tool q outcome sid b a summary err w)"
  unfolding audit_def by (intro ensures_andthen ensures_basic ensures_option of_parts)

lemma of_envelopes:
  "ensures R (success tool q d sid st b w)" "ensures R (failure tool e q sid w)"
  "ensures R (exception_failure tool q x sid)"
  unfolding success_def failure_def exception_failure_def
  by (intro ensures_andthen ensures_basic of_audit)+

lemma of_decide: "ensures R (decide op q tok)"
  unfolding decide_def
  by (intro ensures_option ensures_basic ensures_andthen ensures_try_else ensures_if of_parts verifies)

lemma of_policy_failure: "ensures R (policy_failure tool op err q w)"
  unfolding policy_failure_def
  by (intro ensures_option ensures_basic ensures_andthen ensures_if issues of_envelopes)

lemma of_guard_limit: "ensures R m \<Longrightarrow> ensures R (guard_limit tool e q sid m)"
  unfolding guard_limit_def by (intro ensures_option of_envelopes)

lemma of_session_call:
  "keeps session_ok m \<Longrightarrow> ensures (session_extends P) m \<Longrightarrow> ensures R (session_call sid m wrap)"
  unfolding session_call_def split_beta by (intro ensures_andthen ensures_basic of_on_session)

lemma of_disconnect_call: "P gdb_exit \<Longrightarrow> ensures R (disconnect_call r)"
  unfolding disconnect_call_def split_beta
  by (intro ensures_andthen ensures_basic retires of_on_session [OF keeps_disconnect ensures_disconnect])

lemma of_snapshot_call:
  assumes "\<And>c. reading c \<Longrightarrow> P c"
  shows "ensures R (snapshot_call r)"
proof -
  have "ensures (session_extends P) (capture_session fresh sid r)" for fresh sid
    using ensures_capture [of fresh sid r] session_extends_mono assms unfolding ensures_def by blast
  then show ?thesis
    unfolding snapshot_call_def split_beta
    by (intro ensures_andthen ensures_basic of_parts ensures_modify snaps of_on_session [OF keeps_capture])
qed

lemma keeps_steps: "keeps session_ok (step_many n t)"
  unfolding step_many_def by (intro keeps_intros)

lemma keeps_inspect_registers: "keeps session_ok (inspect_registers p t ns)"
  unfolding inspect_registers_def inspect_register_def by (intro keeps_intros)

lemmas of_calls = of_disconnect_call of_snapshot_call
  of_session_call [OF keeps_halt ensures_halt]
  of_session_call [OF keeps_resume ensures_resume]
  of_session_call [OF keeps_steps ensures_steps]
  of_session_call [OF keeps_reset_target ensures_reset_target]
  of_session_call [OF keeps_read_registers ensures_read_registers]
  of_session_call [OF keeps_read_memory ensures_read_memory]
  of_session_call [OF keeps_write_memory ensures_write_memory]
  of_session_call [OF keeps_set_breakpoint ensures_set_breakpoint]
  of_session_call [OF keeps_clear_breakpoint ensures_clear_breakpoint]
  of_session_call [OF keeps_inspect_registers ensures_inspect_registers]

lemma of_load_document: "ensures R (load_document p)"
  by (rule ensuresI) (simp add: load_document_same R_refl)

lemma of_lookup_tools:
  "ensures R (tool_analyze_fault a)" "ensures R (tool_compare_snapshots b)"
  "ensures R (tool_explain_current_state c)" "ensures R (tool_suggest_next_debug_steps d)"
  unfolding tool_analyze_fault_def tool_compare_snapshots_def tool_explain_current_state_def
    tool_suggest_next_debug_steps_def
  by (auto intro!: ensures_andthen ensures_basic of_envelopes split: option.split)

end

locale call_steps = call_parts R "\<lambda>_. True" for R +
  assumes brackets: "try_reserve_operation (Some sid) sv = Inr sv1 \<Longrightarrow> R sv1 sv2 \<Longrightarrow>
      R sv (release_operation (Some sid) sv2)"
begin

lemma of_guarded_call:
  assumes "try_reserve_operation (Some sid) sv = Inr sv1" and "ensures R call"
  shows "R sv (snd (guarded_call tool q sid call sv1))"
proof -
  let ?m = "try_else call
    (\<lambda>e. andthen (exception_failure tool q e (Some sid)) (\<lambda>res. ret (Inl res)))
    (\<lambda>x. ret (Inr x))"
  have "ensures R ?m"
    by (intro ensures_try_else ensures_andthen ensures_basic of_envelopes assms(2))
  then have "R sv1 (snd (?m sv1))" by (rule ensuresD)
  moreover have "snd (guarded_call tool q sid call sv1) = release_operation (Some sid) (snd (?m sv1))"
    by (simp add: guarded_call_def finally_do_def split: prod.split)
  ultimately show ?thesis using brackets [OF assms(1)] by simp
qed

text \<open>The reservation, the call and what is made of its result, as one step.\<close>

lemma of_reserved:
  assumes "ensures R call" and "\<And>x. ensures R (k x)" and "\<And>e. ensures R (h e)"
  shows "ensures R (andthen (reserve (Some sid)) (\<lambda>limited. case limited of
      Some e \<Rightarrow> h e | None \<Rightarrow> andthen (guarded_call tool q sid call) k))"
proof (rule ensuresI)
  fix sv
  show "R sv (snd (andthen (reserve (Some sid)) (\<lambda>limited. case limited of
      Some e \<Rightarrow> h e | None \<Rightarrow> andthen (guarded_call tool q sid call) k) sv))"
  proof (cases "try_reserve_operation (Some sid) sv")
    case (Inl e)
    then show ?thesis using ensuresD [OF assms(3)] by (simp add: andthen_def reserve_def)
  next
    case (Inr sv1)
    obtain x sv2 where g: "guarded_call tool q sid call sv1 = (x, sv2)" by fastforce
    have 1: "R sv sv2" using of_guarded_call [OF Inr assms(1), of tool q] g by simp
    then have "R sv (snd (k y sv2))" for y
      using R_trans ensuresD [OF assms(2)] by blast
    then show ?thesis using 1 g Inr by (cases x) (simp_all add: andthen_def reserve_def)
  qed
qed

lemma of_run_on_session:
  assumes "ensures R call"
  shows "ensures R (run_on_session tool q sid w call)"
  unfolding run_on_session_def
  by (intro ensures_andthen ensures_basic ensures_sum of_envelopes of_reserved assms)
    (auto intro!: ensures_basic of_envelopes split: sum.split prod.split)

lemma of_with_session: "ensures R call \<Longrightarrow> ensures R (with_session tool op q sid tok call)"
  unfolding with_session_def
  by (intro ensures_andthen ensures_if of_decide of_policy_failure of_run_on_session)

text \<open>The decision leaves the sessions and limits alone, so the check of the count still holds.\<close>

lemma decide_sessions:
  "sv_sessions (snd (decide op q tok sv)) = sv_sessions sv \<and> sv_limits (snd (decide op q tok sv)) = sv_limits sv"
  by (simp add: decide_def andthen_def try_else_def on_store_def zoom_def read_clock_def
      split: option.split prod.split sum.split)

lemma of_other_call:
  assumes "\<And>q. r \<noteq> ConnectTarget q"
  shows "ensures R (call_tool r tok)"
proof (cases r)
  case (ConnectTarget a)
  then show ?thesis using assms by blast
next
  case (InspectPeripheral a)
  show ?thesis unfolding InspectPeripheral call_tool.simps tool_inspect_peripheral_def Let_def
    by (intro ensures_andthen ensures_basic of_load_document of_with_session of_calls TrueI)
qed (simp_all add: tool_disconnect_target_def tool_halt_def tool_resume_def tool_step_instruction_def
    tool_reset_target_def tool_read_registers_def tool_read_memory_def tool_write_memory_def
    tool_set_breakpoint_def tool_clear_breakpoint_def tool_debug_snapshot_def of_lookup_tools,
    (intro ensures_andthen ensures_basic ensures_sum of_envelopes of_guard_limit of_with_session
      of_calls TrueI)+)

end

locale call_frame = call_steps +
  assumes opens: "int (length (sv_sessions sv)) < max_sessions (sv_limits sv) \<Longrightarrow>
      R sv (snd (open_session spawn cr w sv))"
begin

lemma of_connect: "ensures R (tool_connect_target r tok)"
proof (rule ensuresI)
  fix sv
  let ?open = "\<lambda>spawn decision. catch (open_session spawn r (pd_warnings decision))
      (\<lambda>e. exception_failure ''connect_target'' (ConnectTarget r) e None)"
  let ?refuse = "\<lambda>decision. policy_failure ''connect_target'' OP_CONNECT_TARGET (to_error decision)
      (ConnectTarget r) (pd_warnings decision)"
  have opened: "R sv2 (snd (?open spawn decision sv2))"
    if "int (length (sv_sessions sv2)) < max_sessions (sv_limits sv2)" for spawn decision sv2
  proof -
    obtain x sv3 where o: "open_session spawn r (pd_warnings decision) sv2 = (x, sv3)" by fastforce
    then have "R sv2 sv3" using opens [OF that, of spawn r "pd_warnings decision"] by simp
    then show ?thesis using o R_trans ensuresD [OF of_envelopes(3)]
      by (cases x) (auto simp: catch_def)
  qed
  show "R sv (snd (tool_connect_target r tok sv))"
  proof (cases "int (length (sv_sessions sv)) < max_sessions (sv_limits sv)")
    case False
    then obtain e where "check_session_count (sv_limits sv) (int (length (sv_sessions sv))) = Some e"
      using limit_checks_None(1) by blast
    then show ?thesis using ensuresD [OF of_envelopes(2)]
      by (simp add: tool_connect_target_def guard_limit_def andthen_def)
  next
    case True
    then have below: "check_session_count (sv_limits sv) (int (length (sv_sessions sv))) = None" by simp
    show ?thesis
    proof (cases "env_spawn sv")
      case None
      then show ?thesis using ensuresD [OF of_envelopes(2)]
        by (simp add: below tool_connect_target_def guard_limit_def andthen_def)
    next
      case (Some spawn)
      obtain x sv2 where d: "decide OP_CONNECT_TARGET (ConnectTarget r) tok sv = (x, sv2)" by fastforce
      have R2: "R sv sv2" using ensures_run [OF of_decide d] .
      have "int (length (sv_sessions sv2)) < max_sessions (sv_limits sv2)"
        using True decide_sessions [of OP_CONNECT_TARGET "ConnectTarget r" tok sv] d by simp
      then have "R sv2 (snd ((if \<not> pd_allowed y then ?refuse y else ?open spawn y) sv2))" for y
        using opened [of sv2 spawn y] ensuresD [OF of_policy_failure] by simp
      then have "R sv (snd ((if \<not> pd_allowed y then ?refuse y else ?open spawn y) sv2))" for y
        using R2 R_trans by blast
      then show ?thesis using Some d R2
        by (cases x) (simp_all add: below tool_connect_target_def guard_limit_def andthen_def)
    qed
  qed
qed

lemma of_call_tool: "ensures R (call_tool r tok)"
  using of_connect of_other_call by (cases "\<exists>q. r = ConnectTarget q") auto

lemma of_serve: "R sv (serve calls sv)"
proof (induction calls sv rule: serve.induct)
  case (2 r tok calls sv)
  then show ?case using R_trans [OF ensuresD [OF of_call_tool]] by simp
qed (simp add: R_refl)

end

section \<open>Processes\<close>

text \<open>Only \<open>connect_target\<close> starts a process, and only when the policy and the token grant it.\<close>

lemmas issue_token_steps = issue_token_def andthen_def draw_id_def read_clock_def on_store_def zoom_def issue_def

interpretation spawn_steps: call_steps "\<lambda>a b :: service. env_spawned b = env_spawned a"
proof unfold_locales
  fix sid and sv sv1 sv2 :: service assume "try_reserve_operation (Some sid) sv = Inr sv1" and "env_spawned sv2 = env_spawned sv1"
  then show "env_spawned (release_operation (Some sid) sv2) = env_spawned sv"
    by (auto simp: try_reserve_operation_def release_operation_def Let_def split: option.splits)
qed (simp_all add: ensures_def put_session_def retire_def issue_token_steps
    split: prod.split option.split sum.split)

lemma open_session_spawns:
  "env_spawned (snd (open_session spawn r w sv)) = env_spawned sv @ [gdb_args (ct_gdb_path r) (ct_elf_path r)]"
  by (simp add: open_session_def create_gdb_debug_session_def connect_new_def register_session_def success_def
      audit_def draw_id_def andthen_def split: option.split prod.split sum.split)

definition spawns_granted :: "tool_request \<Rightarrow> string option \<Rightarrow> service \<Rightarrow> service \<Rightarrow> bool" where
  "spawns_granted r tok a b \<longleftrightarrow> env_spawned b = env_spawned a
     \<or> (\<exists>q. r = ConnectTarget q \<and> authorized a r tok
          \<and> env_spawned b = env_spawned a @ [gdb_args (ct_gdb_path q) (ct_elf_path q)])"

lemma connect_spawns: "spawns_granted (ConnectTarget r) tok sv (snd (tool_connect_target r tok sv))"
proof -
  let ?open = "\<lambda>spawn dec. catch (open_session spawn r (pd_warnings dec))
      (\<lambda>e. exception_failure ''connect_target'' (ConnectTarget r) e None)"
  obtain x sv1 where d: "decide OP_CONNECT_TARGET (ConnectTarget r) tok sv = (x, sv1)" by fastforce
  have 1: "env_spawned sv1 = env_spawned sv" using ensures_run [OF spawn_steps.of_decide d] .
  have opened: "env_spawned (snd (?open spawn dec sv1)) =
      env_spawned sv @ [gdb_args (ct_gdb_path r) (ct_elf_path r)]" for spawn dec
    using open_session_spawns [of spawn r "pd_warnings dec" sv1] 1
      ensuresD [OF spawn_steps.of_envelopes(3), of "''connect_target''" "ConnectTarget r" _ None]
    by (cases "open_session spawn r (pd_warnings dec) sv1") (auto simp: catch_def split: sum.split)
  have granted: "authorized sv (ConnectTarget r) tok" if "x = Inr dec" "pd_allowed dec" for dec
    using decide_grants [of OP_CONNECT_TARGET "ConnectTarget r" tok sv dec sv1] d that by (simp add: authorized_def)
  show ?thesis
    using d 1 opened granted ensuresD [OF spawn_steps.of_envelopes(2)] ensuresD [OF spawn_steps.of_policy_failure]
    by (cases x) (auto simp: spawns_granted_def tool_connect_target_def guard_limit_def andthen_def split: option.split)
qed

lemma call_tool_spawns: "spawns_granted r tok sv (snd (call_tool r tok sv))"
proof (cases "\<exists>q. r = ConnectTarget q")
  case True
  then show ?thesis using connect_spawns by auto
next
  case False
  then have "ensures (\<lambda>a b. env_spawned b = env_spawned a) (call_tool r tok)"
    by (intro spawn_steps.of_other_call) blast
  then show ?thesis by (simp add: ensures_def spawns_granted_def)
qed

text \<open>So every process a server starts is GDB's command line in MI mode, without init files.\<close>

definition spawned_gdb :: "string list \<Rightarrow> bool" where
  "spawned_gdb args \<longleftrightarrow> (\<exists>path elf. args = gdb_args path elf)"

lemma spawned_gdb_args [simp]: "spawned_gdb (gdb_args p e)"
  unfolding spawned_gdb_def by blast

lemma serve_spawns:
  "list_all spawned_gdb (env_spawned sv) \<Longrightarrow> list_all spawned_gdb (env_spawned (serve calls sv))"
proof (induction calls sv rule: serve.induct)
  case (2 r tok calls sv)
  have "list_all spawned_gdb (env_spawned (snd (call_tool r tok sv)))"
    using call_tool_spawns [of r tok sv] 2(2) by (auto simp: spawns_granted_def)
  then show ?case using 2(1) by simp
qed simp

end
