(* ===== verification/Service_Properties.thy ===== *)
theory Service_Properties
  imports Call_Frame Slot_Pool
begin

text \<open>
  Invariants of the service. \<open>service_ok\<close>: every session and snapshot is stored under its own
  id, every session satisfies its own invariant, and the dicts have distinct keys. The number of
  sessions stays within the limit.
  \<open>counters\<close>: the counters of active calls, which every call restores on every exit, and which
  keep the limits under every interleaving of the coroutines that reserve and release them (the
  interpretations of \<open>slot_counter\<close>). The first three rest on interpretations of \<open>call_frame\<close>.
\<close>

section \<open>The service invariant\<close>

definition snapshots_ok :: "debug_snapshot dict \<Rightarrow> bool" where
  "snapshots_ok d \<longleftrightarrow> dict_ok d \<and> (\<forall>(i, snap) \<in> set d. snap_id snap = i)"

definition service_ok :: "service \<Rightarrow> bool" where
  "service_ok sv \<longleftrightarrow>
     manager_ok (sv_sessions sv) \<and> (\<forall>s \<in> set (sv_retired sv). session_ok s)
     \<and> snapshots_ok (sv_snapshots sv) \<and> dict_ok (ts_records (sv_store sv))"

lemma snapshots_ok_set: "snapshots_ok d \<Longrightarrow> snapshots_ok (dict_set (snap_id snap) snap d)"
  using set_dict_set [of "snap_id snap" snap d] by (auto simp: snapshots_ok_def)

lemma service_ok_frame:
  "sv_sessions b = sv_sessions a \<Longrightarrow> sv_retired b = sv_retired a \<Longrightarrow> sv_snapshots b = sv_snapshots a \<Longrightarrow>
   sv_store b = sv_store a \<Longrightarrow> service_ok b = service_ok a"
  by (simp add: service_ok_def)

lemma ok_on_store: "keeps (\<lambda>st. dict_ok (ts_records st)) m \<Longrightarrow> keeps service_ok (on_store m)"
  unfolding on_store_def by (erule keeps_zoom) (simp_all add: service_ok_def)

lemma ok_verify: "keeps service_ok (on_store (verify d tok now op r))"
  by (intro ok_on_store keepsI) (simp add: verify_consumes dict_ok_del)

lemma ok_issue: "keeps service_ok (issue_token op r)"
  by (intro keepsI) (simp add: issue_token_steps service_ok_def)

lemma ok_envelopes:
  "keeps service_ok (success tool r d sid st b w)" "keeps service_ok (failure tool e r sid w)"
  "keeps service_ok (exception_failure tool r x sid)"
proof -
  have "keeps service_ok (audit tool r outcome sid b a summary err w)" for outcome sid b a summary err w
    unfolding audit_def
    by (intro keeps_andthen keeps_basic keeps_option keeps_modify) (simp_all add: keeps_def draw_id_def service_ok_def)
  then show "keeps service_ok (success tool r d sid st b w)" "keeps service_ok (failure tool e r sid w)"
    "keeps service_ok (exception_failure tool r x sid)"
    unfolding success_def failure_def exception_failure_def by (auto intro!: keeps_andthen keeps_basic)
qed

lemma ok_open_session: "keeps service_ok (open_session spawn r w)"
proof (rule keepsI)
  fix sv assume ok: "service_ok sv"
  obtain x sv1 where 1: "create_gdb_debug_session spawn r sv = (x, sv1)" by fastforce
  have k: "keeps service_ok (create_gdb_debug_session spawn r)"
    unfolding create_gdb_debug_session_def
    by (intro keeps_andthen keeps_basic keeps_modify) (simp_all add: keeps_def draw_id_def service_ok_def)
  have ok1: "service_ok sv1" by (rule keeps_run [OF k 1 ok])
  show "service_ok (snd (open_session spawn r w sv))"
  proof (cases x)
    case (Inr s0)
    then obtain process sid where "s0 = new_session (new_controller (new_transport process)) (create_backend (ct_backend r)) sid"
      using 1 create_shape by blast
    then have "session_ok s0" by (simp add: new_session_ok new_controller_ok)
    then have "session_ok (snd (connect r s0))" by (rule keepsD [OF keeps_connect])
    moreover obtain y s where c: "connect r s0 = (y, s)" by fastforce
    ultimately have s: "session_ok s" by simp
    show ?thesis
    proof (cases y)
      case (Inl e)
      then show ?thesis using 1 c Inr ok1 s
        by (simp add: open_session_def andthen_def connect_new_def service_ok_def)
    next
      case (Inr conn)
      let ?sv2 = "sv1\<lparr>sv_sessions := add_session s (sv_sessions sv1)\<rparr>"
      have "service_ok ?sv2" using ok1 s by (simp add: service_ok_def manager_ok_add)
      then have "service_ok (snd (success tool q d sid' st b w' ?sv2))" for tool q d sid' st b w'
        by (rule keepsD [OF ok_envelopes(1)])
      then show ?thesis using 1 c \<open>x = Inr s0\<close> Inr
        by (simp add: open_session_def andthen_def connect_new_def register_session_def)
    qed
  qed (use 1 ok1 in \<open>simp add: open_session_def andthen_def\<close>)
qed

lemma reserved_fields:
  "try_reserve_operation sid sv = Inr sv' \<Longrightarrow>
   sv_sessions sv' = sv_sessions sv \<and> sv_retired sv' = sv_retired sv \<and> sv_snapshots sv' = sv_snapshots sv
   \<and> sv_store sv' = sv_store sv \<and> sv_limits sv' = sv_limits sv"
  by (auto simp: try_reserve_operation_def split: option.splits)

lemma released_fields:
  "sv_sessions (release_operation sid sv) = sv_sessions sv" "sv_retired (release_operation sid sv) = sv_retired sv"
  "sv_snapshots (release_operation sid sv) = sv_snapshots sv" "sv_store (release_operation sid sv) = sv_store sv"
  "sv_limits (release_operation sid sv) = sv_limits sv"
  by (simp_all add: release_operation_def Let_def split: option.split)

lemma service_ok_put:
  assumes "held_session sid sv = Some s" and "session_ok s \<longrightarrow> session_ok s'" and "session_extends P s s'"
  shows "service_ok sv \<longrightarrow> service_ok (put_session sid s' sv)"
proof
  assume ok: "service_ok sv"
  show "service_ok (put_session sid s' sv)"
  proof (cases "dict_get (sv_sessions sv) sid")
    case (Some u)
    then have "s = u" using assms(1) by (simp add: held_session_def)
    then show ?thesis using Some ok assms(2,3) manager_okD [OF _ Some]
      by (auto simp: put_session_def service_ok_def session_extends_def manager_ok_set)
  next
    case None
    then have "s \<in> set (sv_retired sv)" using assms(1) find_session_id by (fastforce simp: held_session_def)
    then have "session_ok s'" using ok assms(2) by (simp add: service_ok_def)
    then show ?thesis using None ok set_replace_session [of sid s' "sv_retired sv"]
      by (auto simp: put_session_def service_ok_def)
  qed
qed

interpretation ok_calls: call_frame "\<lambda>a b. service_ok a \<longrightarrow> service_ok b"
proof unfold_locales
  fix a b c assume "service_ok a \<longrightarrow> service_ok b" and "service_ok b \<longrightarrow> service_ok c"
  then show "service_ok a \<longrightarrow> service_ok c" by blast
next
  fix sv :: service and sid s s' assume held: "held_session sid sv = Some s"
    and ok: "session_ok s \<longrightarrow> session_ok s'" and ext: "session_extends (\<lambda>_. True) s s'"
  show "service_ok sv \<longrightarrow> service_ok (put_session sid s' sv)"
    by (rule service_ok_put [OF held ok ext])
next
  fix sid
  have "service_ok (snd (retire sid sv))" if ok: "service_ok sv" for sv
  proof -
    have m: "manager_ok (sv_sessions sv)" using ok by (simp add: service_ok_def)
    then have "session_ok s" if "dict_get (sv_sessions sv) sid = Some s" for s
      using manager_okD that by blast
    then show ?thesis
      using ok by (auto simp: retire_def remove_session_def service_ok_def manager_ok_del split: option.split)
  qed
  then show "ensures (\<lambda>a b. service_ok a \<longrightarrow> service_ok b) (retire sid)" by (simp add: ensures_def)
next
  fix sid sv sv1 sv2 assume "try_reserve_operation (Some sid) sv = Inr sv1" and k: "service_ok sv1 \<longrightarrow> service_ok sv2"
  then have "service_ok sv1 = service_ok sv" by (auto dest!: reserved_fields simp: service_ok_def)
  then show "service_ok sv \<longrightarrow> service_ok (release_operation (Some sid) sv2)"
    using k by (simp add: service_ok_def released_fields)
next
  fix sv spawn r w
  show "service_ok sv \<longrightarrow> service_ok (snd (open_session spawn r w sv))" using keepsD [OF ok_open_session] by blast
next
  fix d tok now op q
  show "ensures (\<lambda>a b. service_ok a \<longrightarrow> service_ok b) (on_store (verify d tok now op q))"
    using ok_verify unfolding keeps_def ensures_def .
next
  fix op q
  show "ensures (\<lambda>a b. service_ok a \<longrightarrow> service_ok b) (issue_token op q)"
    using ok_issue unfolding keeps_def ensures_def .
qed (simp_all add: service_ok_def snapshots_ok_set)

lemma serve_ok: "service_ok sv \<Longrightarrow> service_ok (serve calls sv)"
  using ok_calls.of_serve by blast

section \<open>The counters of active calls\<close>

definition counters :: "service \<Rightarrow> int \<times> (string \<Rightarrow> int)" where
  "counters sv = (sv_active_tool_calls sv, active_of sv)"

definition counters_ok :: "service \<Rightarrow> bool" where
  "counters_ok sv \<longleftrightarrow> 0 \<le> sv_active_tool_calls sv \<and> (\<forall>sid. 0 \<le> active_of sv sid)"

text \<open>What a call does to the counters: from counters that make sense, nothing.\<close>

definition restores :: "service \<Rightarrow> service \<Rightarrow> bool" where
  "restores a b \<longleftrightarrow> (counters_ok a \<longrightarrow> counters b = counters a)"

lemma counters_ok_eq: "counters b = counters a \<Longrightarrow> counters_ok b = counters_ok a"
  by (simp add: counters_def counters_ok_def)

lemma restores_frame:
  "sv_active_tool_calls b = sv_active_tool_calls a \<Longrightarrow>
   sv_active_session_operations b = sv_active_session_operations a \<Longrightarrow> restores a b"
  by (simp add: restores_def counters_def active_of_def fun_eq_iff)

text \<open>Opening a session does not touch the counters.\<close>

lemma open_session_counters:
  "sv_active_tool_calls (snd (open_session spawn r w sv)) = sv_active_tool_calls sv
   \<and> sv_active_session_operations (snd (open_session spawn r w sv)) = sv_active_session_operations sv"
  by (simp add: open_session_def create_gdb_debug_session_def connect_new_def register_session_def success_def
      audit_def draw_id_def andthen_def split: option.split prod.split sum.split)

lemma restores_open_session: "ensures restores (open_session spawn r w)"
  by (intro ensuresI restores_frame) (simp_all add: open_session_counters)

text \<open>A release after a reservation restores the counters.\<close>

lemma active_of_update:
  "active_of (sv\<lparr>sv_active_session_operations := d\<rparr>) sid = (case dict_get d sid of None \<Rightarrow> 0 | Some n \<Rightarrow> n)"
  by (simp add: active_of_def)

lemma reserved:
  assumes "try_reserve_operation (Some sid) sv = Inr sv'"
  shows "sv_active_tool_calls sv' = sv_active_tool_calls sv + 1
    \<and> active_of sv' = (active_of sv)(sid := active_of sv sid + 1)
    \<and> sv_active_tool_calls sv < max_concurrent_tool_calls (sv_limits sv)
    \<and> active_of sv sid < max_session_operations (sv_limits sv) \<and> sv_limits sv' = sv_limits sv"
  using assms
  by (auto simp: try_reserve_operation_def active_of_def fun_eq_iff split: option.splits
      simp flip: limit_checks_None)

lemma released:
  "sv_active_tool_calls (release_operation (Some sid) sv) = max 0 (sv_active_tool_calls sv - 1)"
  "active_of (release_operation (Some sid) sv) = (active_of sv)(sid := max 0 (active_of sv sid - 1))"
  by (auto simp: release_operation_def Let_def active_of_def fun_eq_iff split: option.splits)

lemma release_restores:
  assumes "try_reserve_operation (Some sid) sv = Inr sv1" and "counters_ok sv" and "restores sv1 sv2"
  shows "counters (release_operation (Some sid) sv2) = counters sv"
proof -
  note r = reserved [OF assms(1)]
  have "counters_ok sv1" using assms(2) r by (simp add: counters_ok_def)
  then have "counters sv2 = counters sv1" using assms(3) by (simp add: restores_def)
  then show ?thesis using r assms(2) by (simp add: counters_def counters_ok_def released fun_eq_iff)
qed

interpretation count_calls: call_frame restores
proof unfold_locales
  fix a b c :: service
  show "restores a a" by (simp add: restores_def)
  show "restores a c" if "restores a b" "restores b c"
    using that counters_ok_eq [of b a] by (auto simp: restores_def)
next
  fix sid sv sv1 sv2 assume "try_reserve_operation (Some sid) sv = Inr sv1" and "restores sv1 sv2"
  then show "restores sv (release_operation (Some sid) sv2)"
    using release_restores by (simp add: restores_def [of sv])
next
  fix sv spawn r w
  show "restores sv (snd (open_session spawn r w sv))" by (rule ensuresD [OF restores_open_session])
qed (auto intro!: ensuresI restores_frame simp: issue_token_steps retire_def put_session_def
    split: prod.split option.split sum.split)

lemma call_tool_restores: "ensures restores (call_tool r tok)"
  by (rule count_calls.of_call_tool)

section \<open>The number of sessions\<close>

text \<open>
  The sessions stay below the limit: a call adds a session only after the count was checked. The
  configured limit is the bound of a service that starts without sessions.
\<close>

definition within_limit :: "service \<Rightarrow> service \<Rightarrow> bool" where
  "within_limit a b \<longleftrightarrow> sv_limits b = sv_limits a
     \<and> int (length (sv_sessions b)) \<le> max (int (length (sv_sessions a))) (max_sessions (sv_limits a))"

lemma length_dict_update: "dict_get d k = Some v \<Longrightarrow> length (dict_set k w d) = length d"
  by (metis length_dict_set map_of_eq_None_iff option.distinct(1) list.set_map)

lemma open_session_length:
  "sv_limits (snd (open_session spawn r w sv)) = sv_limits sv
   \<and> length (sv_sessions (snd (open_session spawn r w sv))) \<le> Suc (length (sv_sessions sv))"
  by (simp add: open_session_def create_gdb_debug_session_def connect_new_def register_session_def success_def
      audit_def draw_id_def andthen_def add_session_def length_dict_set
      split: option.split prod.split sum.split)

interpretation bounded_calls: call_frame within_limit
proof unfold_locales
  fix a b c assume "within_limit a b" and "within_limit b c"
  then show "within_limit a c" by (auto simp: within_limit_def)
next
  fix sid
  have "length (sv_sessions (snd (retire sid sv))) \<le> length (sv_sessions sv) \<and> sv_limits (snd (retire sid sv)) = sv_limits sv" for sv
    by (simp add: retire_def remove_session_def length_dict_del_le split: option.split)
  then show "ensures within_limit (retire sid)"
    by (intro ensuresI) (simp add: within_limit_def max.coboundedI1)
next
  fix sid sv sv1 sv2 assume "try_reserve_operation (Some sid) sv = Inr sv1" and "within_limit sv1 sv2"
  then show "within_limit sv (release_operation (Some sid) sv2)"
    by (auto dest!: reserved_fields simp: within_limit_def released_fields)
next
  fix sv :: service and spawn r w assume "int (length (sv_sessions sv)) < max_sessions (sv_limits sv)"
  then show "within_limit sv (snd (open_session spawn r w sv))"
    using open_session_length [of spawn r w sv] by (simp add: within_limit_def)
qed (auto simp: within_limit_def ensures_def issue_token_steps put_session_def length_dict_update
    split: prod.split)

lemma sessions_within_limit:
  "int (length (sv_sessions (serve calls sv))) \<le> max (int (length (sv_sessions sv))) (max_sessions (sv_limits sv))"
  using bounded_calls.of_serve [of sv calls] by (simp add: within_limit_def)

section \<open>The limits under interleaving\<close>

text \<open>
  Coroutine \<open>i\<close> reserves for the session \<open>sid_of i\<close>. The counter of all calls counts every
  coroutine inside, the counter of a session those of that session.
\<close>

definition reserve_for :: "(nat \<Rightarrow> string option) \<Rightarrow> nat \<Rightarrow> service \<Rightarrow> service option" where
  "reserve_for sid_of i sv =
     (case try_reserve_operation (sid_of i) sv of Inl e \<Rightarrow> None | Inr sv' \<Rightarrow> Some sv')"

definition release_for :: "(nat \<Rightarrow> string option) \<Rightarrow> nat \<Rightarrow> service \<Rightarrow> service" where
  "release_for sid_of i = release_operation (sid_of i)"

lemma reserve_forD:
  "reserve_for sid_of i sv = Some sv' \<Longrightarrow>
   sv_limits sv' = sv_limits sv \<and> sv_active_tool_calls sv < max_concurrent_tool_calls (sv_limits sv)
   \<and> sv_active_tool_calls sv' = sv_active_tool_calls sv + 1
   \<and> active_of sv' = (case sid_of i of None \<Rightarrow> active_of sv
       | Some sid \<Rightarrow> (active_of sv)(sid := active_of sv sid + 1))
   \<and> (\<forall>sid. sid_of i = Some sid \<longrightarrow> active_of sv sid < max_session_operations (sv_limits sv))"
  by (auto simp: reserve_for_def try_reserve_operation_def active_of_def fun_eq_iff
      split: option.splits sum.splits simp flip: limit_checks_None)

lemma release_forD:
  "sv_limits (release_for sid_of i sv) = sv_limits sv"
  "sv_active_tool_calls (release_for sid_of i sv) = max 0 (sv_active_tool_calls sv - 1)"
  "active_of (release_for sid_of i sv) = (case sid_of i of None \<Rightarrow> active_of sv
     | Some sid \<Rightarrow> (active_of sv)(sid := max 0 (active_of sv sid - 1)))"
  by (auto simp: release_for_def release_operation_def Let_def active_of_def fun_eq_iff split: option.splits)

interpretation tool_calls: slot_counter "reserve_for sid_of" "release_for sid_of" sv_active_tool_calls
  "\<lambda>sv. max_concurrent_tool_calls (sv_limits sv)" UNIV for sid_of
  by unfold_locales (auto dest: reserve_forD simp: release_forD)

interpretation session_ops: slot_counter "reserve_for sid_of" "release_for sid_of"
  "\<lambda>sv. active_of sv sid" "\<lambda>sv. max_session_operations (sv_limits sv)" "{i. sid_of i = Some sid}"
  for sid_of sid
  by unfold_locales (auto dest: reserve_forD simp: release_forD split: option.splits)

lemma concurrent_calls_bound:
  assumes "pool_run (reserve_for sid_of) (release_for sid_of) (sv, {}) (sv', K)"
    and "sv_active_tool_calls sv = 0"
  shows "sv_active_tool_calls sv' = int (card K)
    \<and> int (card K) \<le> max 0 (max_concurrent_tool_calls (sv_limits sv))"
  using tool_calls.pool_bound [OF assms] by simp

lemma session_operations_bound:
  assumes "pool_run (reserve_for sid_of) (release_for sid_of) (sv, {}) (sv', K)"
    and "active_of sv sid = 0"
  shows "int (card {i \<in> K. sid_of i = Some sid}) \<le> max 0 (max_session_operations (sv_limits sv))"
  using session_ops.pool_bound [OF assms] by (simp add: Int_def)

end
