(* ===== verification/Confirmation_Flow.thy ===== *)
theory Confirmation_Flow
  imports Service_Properties
begin

text \<open>
  Confirmation tokens through whole calls: a denied call that may be confirmed returns a fresh
  token and stores it for exactly this operation and request; a call that presents a token
  consumes it before it touches a session; a token that is gone never authorizes a call again,
  as long as the id source does not repeat it. \<open>store_forward\<close> is the order along which tokens
  that are gone stay gone.
\<close>

section \<open>Tokens that are gone stay gone\<close>

definition gone :: "service \<Rightarrow> string \<Rightarrow> bool" where
  "gone sv tok \<longleftrightarrow> dict_get (ts_records (sv_store sv)) tok = None"

definition not_fresh :: "service \<Rightarrow> string \<Rightarrow> bool" where
  "not_fresh sv tok \<longleftrightarrow> (\<forall>n \<ge> env_ids_drawn sv. env_id sv n \<noteq> tok)"

definition store_forward :: "service \<Rightarrow> service \<Rightarrow> bool" where
  "store_forward a b \<longleftrightarrow>
     env_id b = env_id a \<and> env_ids_drawn a \<le> env_ids_drawn b
     \<and> (\<forall>tok. gone a tok \<and> not_fresh a tok \<longrightarrow> gone b tok)"

lemma store_forward_fresh: "store_forward a b \<Longrightarrow> not_fresh a tok \<Longrightarrow> not_fresh b tok"
  by (simp add: store_forward_def not_fresh_def)

lemma store_forward_frame:
  "env_id b = env_id a \<Longrightarrow> env_ids_drawn a \<le> env_ids_drawn b \<Longrightarrow> sv_store b = sv_store a \<Longrightarrow>
   store_forward a b"
  by (simp add: store_forward_def gone_def)

lemma store_after_verify:
  "snd (on_store (verify d tok now op r) sv) =
     sv\<lparr>sv_store := (sv_store sv)\<lparr>ts_records := dict_del tok (ts_records (sv_store sv))\<rparr>\<rparr>"
  using verify_consumes [of d tok now op r "sv_store sv"]
  by (cases "verify d tok now op r (sv_store sv)") (simp add: on_store_def zoom_def)

lemma forward_issue_token: "store_forward sv (snd (issue_token op r sv))"
  by (auto simp: issue_token_steps store_forward_def gone_def not_fresh_def)

lemma forward_open_session: "store_forward sv (snd (open_session spawn r w sv))"
  by (auto intro!: store_forward_frame simp: open_session_def create_gdb_debug_session_def connect_new_def
      register_session_def success_def audit_def draw_id_def andthen_def
      split: prod.split option.split sum.split)

interpretation store_calls: call_frame store_forward
proof unfold_locales
  fix a b c :: service
  show "store_forward a a" by (simp add: store_forward_def)
  show "store_forward a c" if "store_forward a b" "store_forward b c"
    using that store_forward_fresh [OF that(1)] unfolding store_forward_def by simp
next
  fix d tok now op q
  show "ensures store_forward (on_store (verify d tok now op q))"
    by (rule ensuresI) (simp add: store_after_verify store_forward_def gone_def)
next
  fix sid sv sv1 sv2 assume "try_reserve_operation (Some sid) sv = Inr sv1" and "store_forward sv1 sv2"
  then show "store_forward sv (release_operation (Some sid) sv2)"
    by (auto simp: try_reserve_operation_def release_operation_def Let_def store_forward_def gone_def
        not_fresh_def split: option.splits)
qed (auto intro!: ensuresI store_forward_frame forward_issue_token forward_open_session
    simp: put_session_def retire_def split: prod.split option.split sum.split)

lemma forward_calls:
  "ensures store_forward (session_call sid m wrap)" "ensures store_forward (disconnect_call d)"
proof -
  have "ensures store_forward (on_session sid m)"
    by (auto intro!: ensuresI store_forward_frame simp: on_session_def put_session_def
        split: prod.split option.split)
  then show "ensures store_forward (session_call sid m wrap)"
    unfolding session_call_def split_beta by (intro store_calls.ensures_andthen store_calls.ensures_basic)
  show "ensures store_forward (disconnect_call d)" by (intro store_calls.of_calls TrueI)
qed

lemmas call_tool_forward = store_calls.of_call_tool and serve_forward = store_calls.of_serve

lemma serve_gone: "gone sv tok \<Longrightarrow> not_fresh sv tok \<Longrightarrow> gone (serve calls sv) tok"
  using serve_forward [of sv calls] by (simp add: store_forward_def)

section \<open>A token that is gone authorizes nothing\<close>

lemma gone_unauthorized:
  assumes "gone sv tok" and "operation_of r \<notin> read_only_operations"
  shows "\<not> authorized sv r (Some tok)"
  using assms verify_missing [of "sv_store sv" tok]
  by (auto simp: authorized_def granted_def token_good_def token_of_def gone_def)
    (metis sum.simps(4))

section \<open>A call consumes the token it presents\<close>

lemma decide_consumes: "gone (snd (decide op r (Some t) sv)) t"
proof -
  let ?sv = "snd (read_clock sv)"
  let ?v = "on_store (verify (env_digest sv) t (env_time sv (env_times_read sv)) op r) ?sv"
  have "snd (decide op r (Some t) sv) = snd ?v"
    by (auto simp: decide_def andthen_def read_clock_def try_else_def split: prod.split sum.split)
  then show ?thesis by (simp add: gone_def store_after_verify)
qed

lemma decide_then_consumes:
  assumes "not_fresh sv t" and "\<And>d. ensures store_forward (k d)"
  shows "gone (snd (andthen (decide op r (Some t)) k sv)) t"
proof -
  obtain x sv1 where d: "decide op r (Some t) sv = (x, sv1)" by fastforce
  have g: "gone sv1 t" using decide_consumes [of op r t sv] d by simp
  have f: "not_fresh sv1 t" using store_forward_fresh [OF ensures_run [OF store_calls.of_decide d] assms(1)] .
  have "gone (snd (k dec sv1)) t" for dec
    using ensuresD [OF assms(2)] g f by (simp add: store_forward_def)
  then show ?thesis using d g by (cases x) (simp_all add: andthen_def)
qed

lemma with_session_consumes:
  "not_fresh sv t \<Longrightarrow> ensures store_forward call \<Longrightarrow> gone (snd (with_session tool op r sid (Some t) call sv)) t"
  unfolding with_session_def
  by (rule decide_then_consumes, assumption)
    (intro store_calls.ensures_if store_calls.of_policy_failure store_calls.of_run_on_session)

definition same_sessions :: "service \<Rightarrow> service \<Rightarrow> bool" where
  "same_sessions a b \<longleftrightarrow> sv_sessions b = sv_sessions a \<and> sv_retired b = sv_retired a"

lemma failure_same_sessions: "same_sessions sv (snd (failure tool e r sid w sv))"
  by (simp add: failure_def audit_def andthen_def draw_id_def same_sessions_def split: option.split)

lemma call_consumes:
  assumes "operation_of r \<notin> read_only_operations" and "not_fresh sv t"
  shows "gone (snd (call_tool r (Some t) sv)) t \<or> same_sessions sv (snd (call_tool r (Some t) sv))"
proof (cases r)
  case (ConnectTarget a)
  have "gone (snd (andthen (decide OP_CONNECT_TARGET (ConnectTarget a) (Some t)) (\<lambda>decision.
             if \<not> pd_allowed decision
             then policy_failure ''connect_target'' OP_CONNECT_TARGET (to_error decision) (ConnectTarget a)
                    (pd_warnings decision)
             else catch (open_session spawn a (pd_warnings decision))
                    (\<lambda>e. exception_failure ''connect_target'' (ConnectTarget a) e None)) sv)) t" for spawn
    using assms(2) by (rule decide_then_consumes)
      (intro store_calls.ensures_if store_calls.of_policy_failure store_calls.ensures_catch store_calls.of_envelopes
        ensuresI forward_open_session)
  then show ?thesis using ConnectTarget failure_same_sessions
    by (simp add: tool_connect_target_def guard_limit_def andthen_def split: option.split)
next
  case (WriteMemory a)
  have "gone (snd (with_session ''write_memory'' OP_WRITE_MEMORY (WriteMemory a) (wm_session_id a) (Some t)
      (session_call (wm_session_id a) m WriteMemoryData) sv)) t" for m
    by (intro with_session_consumes forward_calls assms(2))
  then show ?thesis using WriteMemory failure_same_sessions
    by (simp add: tool_write_memory_def guard_limit_def andthen_def split: option.split sum.split)
qed (use assms(1) in \<open>simp_all add: read_only_operations_def tool_disconnect_target_def tool_halt_def
      tool_resume_def tool_step_instruction_def tool_reset_target_def tool_set_breakpoint_def
      tool_clear_breakpoint_def\<close>,
    (intro disjI1 with_session_consumes forward_calls assms(2))+)

lemma used_token_dead:
  assumes "operation_of r \<notin> read_only_operations" and "not_fresh sv t"
    and "\<not> same_sessions sv (snd (call_tool r (Some t) sv))" and "operation_of r' \<notin> read_only_operations"
  shows "\<not> authorized (serve calls (snd (call_tool r (Some t) sv))) r' (Some t)"
proof -
  let ?sv = "snd (call_tool r (Some t) sv)"
  have "gone ?sv t" using call_consumes assms(1-3) by blast
  moreover have "not_fresh ?sv t"
    using store_forward_fresh [OF ensuresD [OF call_tool_forward] assms(2)] .
  ultimately show ?thesis using serve_gone gone_unauthorized assms(4) by blast
qed

section \<open>A denied call offers a token\<close>

text \<open>The checks that come before the policy.\<close>

definition reaches_policy :: "service \<Rightarrow> tool_request \<Rightarrow> bool" where
  "reaches_policy sv r \<longleftrightarrow>
     (case r of
        ConnectTarget a \<Rightarrow> int (length (sv_sessions sv)) < max_sessions (sv_limits sv) \<and> env_spawn sv \<noteq> None
      | WriteMemory a \<Rightarrow> (case bytes_fromhex (wm_data_hex a) of Inl e \<Rightarrow> False
          | Inr bs \<Rightarrow> int (length bs) \<le> max_memory_write_bytes (sv_limits sv))
      | _ \<Rightarrow> True)"

lemma with_session_denied:
  assumes "\<not> permits (policy_request_of sv op None)"
  shows "with_session tool op r sid None call sv =
    policy_failure tool op (to_error (evaluate (policy_request_of sv op None))) r
      (pd_warnings (evaluate (policy_request_of sv op None))) sv"
  using assms by (simp add: with_session_def decide_def andthen_def flip: evaluate_allows)

lemma denied_call:
  assumes "operation_of r \<notin> read_only_operations" and "reaches_policy sv r"
    and "\<not> permits (policy_request_of sv (operation_of r) None)"
  shows "call_tool r None sv =
    policy_failure (tool_name r) (operation_of r)
      (to_error (evaluate (policy_request_of sv (operation_of r) None))) r
      (pd_warnings (evaluate (policy_request_of sv (operation_of r) None))) sv"
proof (cases r)
  case (ConnectTarget a)
  then show ?thesis using assms(2,3)
    by (cases "check_session_count (sv_limits sv) (int (length (sv_sessions sv)))")
      (auto simp: tool_connect_target_def decide_def andthen_def guard_limit_def reaches_policy_def
        check_session_count_def simp flip: evaluate_allows split: if_splits)
next
  case (WriteMemory a)
  then show ?thesis using assms(2,3) with_session_denied
    by (auto simp: tool_write_memory_def andthen_def guard_limit_def reaches_policy_def check_memory_write_def
        split: sum.splits)
qed (use assms with_session_denied in \<open>simp_all add: read_only_operations_def tool_disconnect_target_def
    tool_halt_def tool_resume_def tool_step_instruction_def tool_reset_target_def tool_set_breakpoint_def
    tool_clear_breakpoint_def\<close>)

text \<open>The record that the store keeps for the offered token.\<close>

definition offered :: "service \<Rightarrow> tool_request \<Rightarrow> confirmation_record" where
  "offered sv r =
     \<lparr>cr_operation = operation_of r, cr_fingerprint = fingerprint_request (env_digest sv) r,
      cr_expires_at = env_time sv (env_times_read sv) + of_int (ts_ttl_seconds (sv_store sv))\<rparr>"

lemma failure_envelope:
  assumes "failure tool e r sid w sv = (x, sv')"
  shows "\<exists>res. x = Inr res \<and> \<not> res_ok res \<and> res_error res = Some e \<and> sv_store sv' = sv_store sv
    \<and> sv_sessions sv' = sv_sessions sv \<and> sv_retired sv' = sv_retired sv"
  using assms
  by (auto simp: failure_def audit_def andthen_def draw_id_def mk_tool_result_def split: option.splits)

lemma confirmation_offered:
  assumes "operation_of r \<notin> read_only_operations" and "reaches_policy sv r"
    and "pd_confirmation_required (evaluate (policy_request_of sv (operation_of r) None))"
  shows "\<exists>res sv' e. call_tool r None sv = (Inr res, sv') \<and> \<not> res_ok res \<and> res_error res = Some e
    \<and> code e = CONFIRMATION_REQUIRED \<and> confirmation_token e = Some (env_id sv (env_ids_drawn sv))
    \<and> dict_get (ts_records (sv_store sv')) (env_id sv (env_ids_drawn sv)) = Some (offered sv r)
    \<and> same_sessions sv sv'"
proof -
  let ?d = "evaluate (policy_request_of sv (operation_of r) None)"
  have "pd_kind ?d = REQUIRE_CONFIRMATION" using assms(3) confirmation_kind by blast
  then have "\<not> pd_allowed ?d" by (simp add: pd_allowed_def)
  then have den: "\<not> permits (policy_request_of sv (operation_of r) None)" using evaluate_allows by blast
  obtain e where e: "to_error ?d = Some e" using \<open>\<not> pd_allowed ?d\<close> to_error_None by (cases "to_error ?d") auto
  have code: "code e = CONFIRMATION_REQUIRED" using to_error_evaluate [OF e] assms(3) by simp
  obtain tok sv1 where i: "issue_token (operation_of r) r sv = (Inr tok, sv1)"
    and tok: "tok = env_id sv (env_ids_drawn sv)"
    and st: "dict_get (ts_records (sv_store sv1)) tok = Some (offered sv r)"
    and same: "sv_sessions sv1 = sv_sessions sv" "sv_retired sv1 = sv_retired sv"
    by (simp add: issue_token_def andthen_def draw_id_def read_clock_def on_store_def zoom_def issue_def
        offered_def)
  let ?e = "e\<lparr>confirmation_token := Some tok\<rparr>"
  obtain x sv2 where f: "failure (tool_name r) ?e r None (pd_warnings ?d) sv1 = (x, sv2)" by fastforce
  have "call_tool r None sv = (x, sv2)"
    using denied_call [OF assms(1,2) den] e code i f by (simp add: policy_failure_def andthen_def)
  then show ?thesis using failure_envelope [OF f] code tok st same by (auto simp: same_sessions_def)
qed

text \<open>Presented in time, for the same request, the offered token grants the call.\<close>

lemma offered_token_grants:
  assumes "pd_confirmation_required (evaluate (policy_request_of sv (operation_of r) None))"
    and "pd_required_permission (evaluate (policy_request_of sv (operation_of r) None)) \<le> sv_permission_mode sv"
    and "\<not> (operation_of r = OP_WRITE_MEMORY \<and> sv_target_class sv = PRODUCTION_HARDWARE)"
    and "same_config sv sv2" and "tok \<noteq> []"
    and "dict_get (ts_records (sv_store sv2)) tok = Some (offered sv r)"
    and "env_time sv2 (env_times_read sv2) \<le> env_time sv (env_times_read sv) + of_int (ts_ttl_seconds (sv_store sv))"
    and "operation_of r \<notin> read_only_operations"
  shows "authorized sv2 r (Some tok)"
proof -
  have p: "permits ((policy_request_of sv (operation_of r) None)\<lparr>pr_confirmation_token := Some tok\<rparr>)"
    by (rule confirmation_suffices) (use assms in \<open>simp_all add: policy_request_of_def\<close>)
  have "env_digest sv2 = env_digest sv" using assms(4) by (simp add: same_config_def)
  then have "fst (verify (env_digest sv2) tok (env_time sv2 (env_times_read sv2)) (operation_of r) r
      (sv_store sv2)) = Inr ()"
    using assms(6,7) by (simp add: verify_ok_iff offered_def)
  moreover have "permits (policy_request_of sv2 (operation_of r) (Some tok))"
    using p policy_request_config [OF assms(4)] by (simp add: policy_request_of_def)
  ultimately show ?thesis using assms(8)
    by (simp add: authorized_def granted_def token_good_def token_of_def)
qed

text \<open>And it grants no other request, unless the digests of the two texts collide.\<close>

definition collision_free :: "(string \<Rightarrow> string) \<Rightarrow> tool_request \<Rightarrow> tool_request \<Rightarrow> bool" where
  "collision_free digest r r' \<longleftrightarrow>
     (case (json_canonical (request_json r), json_canonical (request_json r')) of
        (Some t, Some u) \<Rightarrow> digest t = digest u \<longrightarrow> t = u
      | _ \<Rightarrow> False)"

lemma operation_tool_index: "operation_of r = operation_of r' \<Longrightarrow> tool_index r = tool_index r'"
  by (cases r; cases r') simp_all

lemma offered_token_bound:
  assumes "collision_free (env_digest sv) r r'" and "same_config sv sv2"
    and "dict_get (ts_records (sv_store sv2)) tok = Some (offered sv r)"
    and "authorized sv2 r' (Some tok)" and "operation_of r' \<notin> read_only_operations"
  shows "r' = r"
proof -
  have "env_digest sv2 = env_digest sv" using assms(2) by (simp add: same_config_def)
  then have "operation_of r = operation_of r'
      \<and> fingerprint_request (env_digest sv) r = fingerprint_request (env_digest sv) r'"
    using assms(3-5) by (auto simp: authorized_def granted_def token_good_def token_of_def verify_ok_iff
        offered_def)
  moreover have "d t = d u \<Longrightarrow> t = u"
    if "json_canonical (request_json r) = Some t" "json_canonical (request_json r') = Some u"
      "d = env_digest sv" for t u d
    using assms(1) that by (simp add: collision_free_def)
  ultimately show ?thesis using fingerprint_inj [of r r' "env_digest sv"] operation_tool_index by metis
qed

text \<open>In read-only mode no token helps.\<close>

lemma readonly_unauthorized:
  "sv_permission_mode sv = READONLY \<Longrightarrow> operation_of r \<notin> read_only_operations \<Longrightarrow> \<not> authorized sv r tok"
  using permits_readonly [of "policy_request_of sv (operation_of r) (token_of r tok)"]
  by (auto simp: authorized_def granted_def policy_request_of_def)

end
