(* ===== verification/Configuration.thy ===== *)
theory Configuration
  imports Tool_Handlers
begin

text \<open>
  The local configuration (\<open>config.py\<close>) and the service that is built from it
  (\<open>mcp_server/factory.py\<close>). TOML and the conversion of its values into fields are outside: a
  configuration is given by its fields, \<open>valid_config\<close> are the checks of the models, and the
  resources of the process (spawning, ids, clock, digest, files) come as an environment record.
\<close>

record server_config =
  sc_permission_mode :: permission_level
  sc_target_class :: target_class
  sc_audit_log_path :: "string option"
  sc_max_sessions :: int
  sc_max_memory_read_bytes :: int
  sc_max_memory_write_bytes :: int
  sc_max_snapshot_stack_bytes :: int
  sc_max_concurrent_tool_calls :: int
  sc_max_session_operations :: int
  sc_max_mi_command_queue :: int
  sc_confirmation_ttl_seconds :: int
  sc_memory_write_enabled :: bool
  sc_hardware_operation_allowlist :: "debug_operation list"

definition default_server_config :: server_config where
  "default_server_config =
     \<lparr>sc_permission_mode = READONLY, sc_target_class = UNKNOWN_CLASS, sc_audit_log_path = None,
      sc_max_sessions = 4, sc_max_memory_read_bytes = 4096, sc_max_memory_write_bytes = 256,
      sc_max_snapshot_stack_bytes = 4096, sc_max_concurrent_tool_calls = 8, sc_max_session_operations = 1,
      sc_max_mi_command_queue = 32, sc_confirmation_ttl_seconds = 300, sc_memory_write_enabled = False,
      sc_hardware_operation_allowlist = []\<rparr>"

definition valid_server_config :: "server_config \<Rightarrow> bool" where
  "valid_server_config c \<longleftrightarrow>
     between 1 (sc_max_sessions c) 64 \<and> between 1 (sc_max_memory_read_bytes c) 1048576
     \<and> between 1 (sc_max_memory_write_bytes c) 65536 \<and> between 0 (sc_max_snapshot_stack_bytes c) 65536
     \<and> between 1 (sc_max_concurrent_tool_calls c) 128 \<and> between 1 (sc_max_session_operations c) 16
     \<and> between 1 (sc_max_mi_command_queue c) 1024 \<and> between 1 (sc_confirmation_ttl_seconds c) 86400"

record target_profile =
  tp_backend :: backend_kind
  tp_endpoint :: "string option"
  tp_gdb_path :: string
  tp_elf_path :: "string option"
  tp_profile :: string
  tp_target_class :: "target_class option"
  tp_timeout_ms :: int
  tp_memory_write_enabled :: "bool option"

text \<open>An endpoint that is absent or empty is missing; the set holds every kind of backend there is.\<close>

definition endpoint_missing :: "target_profile \<Rightarrow> bool" where
  "endpoint_missing t \<longleftrightarrow>
     tp_backend t \<in> {GENERIC_REMOTE, QEMU, OPENOCD, JLINK, PYOCD}
     \<and> (tp_endpoint t = None \<or> tp_endpoint t = Some [])"

definition valid_target_profile :: "target_profile \<Rightarrow> bool" where
  "valid_target_profile t \<longleftrightarrow>
     tp_gdb_path t \<noteq> [] \<and> tp_profile t \<noteq> [] \<and> between 1 (tp_timeout_ms t) 120000 \<and> \<not> endpoint_missing t"

record probe_config =
  pc_schema_version :: int
  pc_default_target :: "string option"
  pc_server :: server_config
  pc_targets :: "target_profile dict"

definition config_schema_version :: int where
  "config_schema_version = 1"

definition validate_default_target :: "probe_config \<Rightarrow> probe_config res" where
  "validate_default_target c =
     (if pc_schema_version c \<noteq> config_schema_version
      then Inl (Exc ValueError (''unsupported config schema_version '' @ int_str (pc_schema_version c) @
             ''; expected '' @ int_str config_schema_version))
      else case pc_default_target c of
        None \<Rightarrow> Inr c
      | Some name \<Rightarrow>
          if dict_get (pc_targets c) name = None
          then Inl (Exc ValueError (''default_target not found: '' @ name))
          else Inr c)"

definition valid_config :: "probe_config \<Rightarrow> bool" where
  "valid_config c \<longleftrightarrow>
     valid_server_config (pc_server c) \<and> dict_ok (pc_targets c)
     \<and> (\<forall>(name, t) \<in> set (pc_targets c). valid_target_profile t)
     \<and> validate_default_target c = Inr c"

definition default_config :: probe_config where
  "default_config =
     \<lparr>pc_schema_version = config_schema_version, pc_default_target = None,
      pc_server = default_server_config, pc_targets = []\<rparr>"

text \<open>\<open>name or self.default_target\<close>: an empty name selects the default too.\<close>

definition get_target :: "probe_config \<Rightarrow> string option \<Rightarrow> target_profile res" where
  "get_target c name =
     (case (case name of Some (x # xs) \<Rightarrow> Some (x # xs) | _ \<Rightarrow> pc_default_target c) of
        None \<Rightarrow> Inl (Exc KeyError (py_repr ''no target profile selected''))
      | Some n \<Rightarrow>
          (case dict_get (pc_targets c) n of
             None \<Rightarrow> Inl (Exc KeyError (py_repr (''target profile not found: '' @ n)))
           | Some t \<Rightarrow> Inr t))"

section \<open>The service of a configuration\<close>

record environment =
  e_spawn :: "nat \<Rightarrow> string list \<Rightarrow> gdb_io res"
  e_id :: "nat \<Rightarrow> string"
  e_time :: "nat \<Rightarrow> rat"
  e_digest :: "string \<Rightarrow> string"
  e_svd :: "string \<Rightarrow> element option res"

definition limits_of_config :: "server_config \<Rightarrow> resource_limits" where
  "limits_of_config c =
     \<lparr>max_sessions = sc_max_sessions c, max_memory_read_bytes = sc_max_memory_read_bytes c,
      max_memory_write_bytes = sc_max_memory_write_bytes c,
      max_snapshot_stack_bytes = sc_max_snapshot_stack_bytes c,
      max_concurrent_tool_calls = sc_max_concurrent_tool_calls c,
      max_session_operations = sc_max_session_operations c,
      max_mi_command_queue = sc_max_mi_command_queue c\<rparr>"

text \<open>
  \<open>create_tool_service_from_config\<close>; \<open>existing\<close> are the events that the log file at the
  configured path holds already.
\<close>

definition create_tool_service :: "environment \<Rightarrow> audit_event list \<Rightarrow> probe_config \<Rightarrow> service" where
  "create_tool_service env existing config =
     (let c = pc_server config in
      \<lparr>sv_sessions = [], sv_snapshots = [], sv_store = new_token_store (sc_confirmation_ttl_seconds c),
       sv_audit = (case sc_audit_log_path c of None \<Rightarrow> None | Some path \<Rightarrow> Some existing),
       sv_active_tool_calls = 0, sv_active_session_operations = [],
       sv_permission_mode = sc_permission_mode c, sv_target_class = sc_target_class c,
       sv_memory_write_enabled = sc_memory_write_enabled c,
       sv_hardware_operation_allowlist = sc_hardware_operation_allowlist c,
       sv_limits = limits_of_config c, env_spawn = Some (e_spawn env), env_spawned = [],
       env_id = e_id env, env_ids_drawn = 0, env_time = e_time env, env_times_read = 0,
       env_digest = e_digest env, env_svd = e_svd env, sv_retired = []\<rparr>)"

lemma default_config_valid: "valid_config default_config"
  by (simp add: valid_config_def valid_server_config_def default_config_def default_server_config_def
      between_def validate_default_target_def dict_ok_def)

lemma default_config_limits: "limits_of_config (pc_server default_config) = default_limits"
  by (simp add: limits_of_config_def default_config_def default_server_config_def default_limits_def)

text \<open>In a valid configuration a target that is selected is found, and can be attached to.\<close>

lemma get_target_default:
  assumes "valid_config c" and "pc_default_target c = Some n"
  obtains t where "get_target c None = Inr t" and "valid_target_profile t"
proof -
  have "dict_get (pc_targets c) n \<noteq> None"
    using assms by (auto simp: valid_config_def validate_default_target_def split: if_splits)
  then obtain t where t: "dict_get (pc_targets c) n = Some t" by auto
  then have "(n, t) \<in> set (pc_targets c)" by (rule map_of_SomeD)
  then have "valid_target_profile t" using assms(1) by (auto simp: valid_config_def)
  then show ?thesis using t assms(2) that by (simp add: get_target_def)
qed

lemma get_target_valid:
  assumes "valid_config c" and "get_target c name = Inr t"
  shows "valid_target_profile t \<and> (\<exists>e. tp_endpoint t = Some e \<and> e \<noteq> [])"
proof -
  obtain n where "dict_get (pc_targets c) n = Some t"
    using assms(2) by (auto simp: get_target_def split: option.splits)
  then have "(n, t) \<in> set (pc_targets c)" by (rule map_of_SomeD)
  then have "valid_target_profile t" using assms(1) by (auto simp: valid_config_def)
  moreover have "tp_backend t \<in> {GENERIC_REMOTE, QEMU, OPENOCD, JLINK, PYOCD}" by (cases "tp_backend t") simp_all
  ultimately show ?thesis
    by (cases "tp_endpoint t") (auto simp: valid_target_profile_def endpoint_missing_def)
qed

text \<open>The limit of the command queue is read from the configuration, but a session's controller never sees it.\<close>

lemma queue_limit_ignored:
  "create_gdb_debug_session spawn r sv = (Inr s, sv') \<Longrightarrow> max_queued_commands (controller_of s) = 32"
  by (auto simp: create_gdb_debug_session_def new_session_def new_controller_def elim!: andthen_InrD)

end
