(* ===== verification/Scenarios.thy ===== *)
theory Scenarios
  imports Confirmation_Flow Configuration
begin

text \<open>
  A concrete service for worked examples: one registered session, a clock that counts, unique
  ids that are the numerals, a digest that is the text itself, and GDB processes that answer
  with the given lines.
\<close>

definition gdb_process_lines :: "string list \<Rightarrow> gdb_io" where
  "gdb_process_lines ls = \<lparr>io_reads = map Line ls, io_faults = []\<rparr>"

definition gdb_lines :: "string list \<Rightarrow> transport" where
  "gdb_lines ls = new_transport (gdb_process_lines ls)"

definition example_session :: "target_state \<Rightarrow> string list \<Rightarrow> debug_session" where
  "example_session st ls =
     \<lparr>controller_of = new_controller (gdb_lines ls), backend_of = OpenOCDBackend,
      session_id = ''session_1'', machine = new_state_machine st, connection = None\<rparr>"

definition example_service :: "permission_level \<Rightarrow> target_state \<Rightarrow> string list \<Rightarrow> service" where
  "example_service mode st ls =
     \<lparr>sv_sessions = [(''session_1'', example_session st ls)], sv_snapshots = [],
      sv_store = new_token_store 60, sv_audit = Some [], sv_active_tool_calls = 0,
      sv_active_session_operations = [], sv_permission_mode = mode, sv_target_class = EMULATOR,
      sv_memory_write_enabled = True, sv_hardware_operation_allowlist = [],
      sv_limits = default_limits, env_spawn = Some (\<lambda>_ _. Inr (gdb_process_lines ls)), env_spawned = [],
      env_id = nat_str, env_ids_drawn = 0, env_time = of_nat, env_times_read = 0, env_digest = id,
      env_svd = (\<lambda>_. Inr None), sv_retired = []\<rparr>"

definition example_environment :: environment where
  "example_environment = \<lparr>e_spawn = (\<lambda>_ _. Inr (gdb_process_lines [])), e_id = nat_str, e_time = of_nat,
     e_digest = id, e_svd = (\<lambda>_. Inr None)\<rparr>"

definition halt_1 :: tool_request where
  "halt_1 = Halt \<lparr>ht_session_id = ''session_1'', ht_timeout_ms = 1000\<rparr>"

definition registers_1 :: tool_request where
  "registers_1 = ReadRegisters \<lparr>rr_session_id = ''session_1'', rr_group = GROUP_CORE\<rparr>"

text \<open>The same service holding a token that was offered for \<open>halt_1\<close>.\<close>

definition offered_service :: "string list \<Rightarrow> service" where
  "offered_service ls = (example_service CONFIRM_REQUIRED RUNNING ls)
     \<lparr>sv_store := snd (issue id ''0'' 0 OP_HALT halt_1 (new_token_store 60)), env_ids_drawn := 1\<rparr>"

lemma operation_halt_1 [simp]: "operation_of halt_1 = OP_HALT" "OP_HALT \<notin> read_only_operations"
  by (simp_all add: halt_1_def read_only_operations_def)

lemma not_fresh_numeral: "env_id sv = nat_str \<Longrightarrow> n < env_ids_drawn sv \<Longrightarrow> not_fresh sv (nat_str n)"
  by (auto simp: not_fresh_def dest: nat_str_inj)

lemma run_Inr: "\<not> isl (fst x) \<Longrightarrow> x = (Inr (projr (fst x)), snd x)"
  by (cases x) (auto simp: isl_def split: sum.splits)

lemma nat_str_0: "nat_str 0 = ''0''"
  by code_simp

lemma nat_str_4: "nat_str 4 = ''4''"
  by code_simp

lemma not_fresh_offered: "not_fresh (offered_service ls) ''0''"
  using not_fresh_numeral [of "offered_service ls" 0]
  by (simp only: nat_str_0) (simp add: offered_service_def example_service_def)

lemma run_Inl: "isl (fst x) \<Longrightarrow> x = (Inl (projl (fst x)), snd x)"
  by (cases x) (auto simp: isl_def split: sum.splits)

text \<open>Facts that discharge the side conditions of the protocol theorems on small examples.\<close>

lemma small_token: "n < 100000 \<Longrightarrow> length (nat_str n) \<le> 4300"
  using nat_str_length [of n 5] by simp

lemma int_str_no_lf: "LF \<notin> set (int_str n)"
proof -
  have "\<not> is_digit LF" by code_simp
  then have "LF \<notin> set (nat_str m)" for m using nat_str_digits by blast
  moreover have "LF \<noteq> CHR ''-''" by code_simp
  ultimately show ?thesis by (auto simp: int_str_def)
qed

text \<open>An SVD document with one peripheral of one register.\<close>

definition leaf :: "string \<Rightarrow> string \<Rightarrow> element" where
  "leaf t v = Element t (Some v) []"

definition example_svd :: element where
  "example_svd = Element ''d'' None [Element ''peripherals'' None [Element ''peripheral'' None
     [leaf ''name'' ''A'', leaf ''baseAddress'' ''0'',
      Element ''registers'' None [Element ''register'' None
        [leaf ''name'' ''R'', leaf ''addressOffset'' ''4'']]]]]"

end
