(* ===== verification/MI_Concurrency.thy ===== *)
theory MI_Concurrency
  imports MI_Controller
begin

text \<open>
  Concurrent commands on one controller (\<open>MIController.execute\<close> under \<open>asyncio\<close>). Every coroutine
  runs \<open>execute\<close>, cut at its awaits: reserving a slot of the queue, taking the lock (with the
  allocation of the token, which follows without an await), the write, every single read, the
  release of the lock and the release of the slot. \<open>mi_step\<close> is any interleaving of these; the lock
  is granted in any order, which includes the first-come order of \<open>asyncio.Lock\<close>. \<open>MI_Cancellation\<close>
  adds the cancellation of coroutines.

  The results: a run takes a bounded number of steps and stops only when every command has
  returned or was refused by the full queue (\<open>run_bounded\<close>, \<open>progress\<close>), and then it has done
  exactly what the commands do one after the other in the order of the lock (\<open>serialized\<close>).
\<close>

section \<open>Coroutines\<close>

datatype phase =
    Outside
  | Queued
  | Writing nat
  | Reading nat "mi_record list" "mi_stream_record list"
  | Finished "mi_command_result res"
  | Leaving "mi_command_result res"
  | Returned "mi_command_result res"
  | Refused py_exc

record world =
  ctl :: controller
  holder :: "nat option"
  phases :: "nat \<Rightarrow> phase"
  order :: "nat list"

text \<open>The handler around the reads: an expired time limit becomes an \<open>MITimeoutError\<close>.\<close>

definition as_timeout :: "mi_command \<Rightarrow> int \<Rightarrow> py_exc \<Rightarrow> py_exc" where
  "as_timeout cmd timeout_ms e =
     (if is_timeout e
      then Exc MITimeoutError (''MI command '' @ command_value (cmd_name cmd) @
             '' timed out after '' @ int_str timeout_ms @ '' ms'')
      else e)"

text \<open>One round of the loop of \<open>_read_until_result\<close>.\<close>

definition after_read ::
  "mi_command \<Rightarrow> int \<Rightarrow> nat \<Rightarrow> mi_record list \<Rightarrow> mi_stream_record list \<Rightarrow> string res \<Rightarrow> phase" where
  "after_read cmd t tok as ss x =
     (case x of
        Inl e \<Rightarrow> Finished (Inl (as_timeout cmd t e))
      | Inr l \<Rightarrow>
          (case judge tok l of
             Broken e \<Rightarrow> Finished (Inl (as_timeout cmd t e))
           | Keep_stream r \<Rightarrow> Reading tok as (ss @ [r])
           | Keep_async r \<Rightarrow> Reading tok (as @ [r]) ss
           | Answer r \<Rightarrow> Finished (map_sum (as_timeout cmd t) id (finish r as ss))))"

inductive step_of :: "(nat \<Rightarrow> mi_command) \<Rightarrow> (nat \<Rightarrow> int) \<Rightarrow> nat \<Rightarrow> world \<Rightarrow> world \<Rightarrow> bool"
  for cmd :: "nat \<Rightarrow> mi_command" and tmo :: "nat \<Rightarrow> int" and i :: nat where
  reserve: "phases w i = Outside \<Longrightarrow> reserve_queue_slot (cmd i) (ctl w) = (r, c) \<Longrightarrow>
    step_of cmd tmo i w (w\<lparr>ctl := c,
      phases := (phases w)(i := (case r of Inl e \<Rightarrow> Refused e | Inr _ \<Rightarrow> Queued))\<rparr>)"
| lock: "phases w i = Queued \<Longrightarrow> holder w = None \<Longrightarrow> allocate_token (ctl w) = (Inr tok, c) \<Longrightarrow>
    step_of cmd tmo i w (w\<lparr>ctl := c, holder := Some i, phases := (phases w)(i := Writing tok),
      order := order w @ [i]\<rparr>)"
| send: "phases w i = Writing tok \<Longrightarrow>
    on_transport (write_line (serialize (cmd i) (Some tok))) (ctl w) = (r, c) \<Longrightarrow>
    step_of cmd tmo i w (w\<lparr>ctl := c,
      phases := (phases w)(i := (case r of Inl e \<Rightarrow> Finished (Inl e) | Inr _ \<Rightarrow> Reading tok [] []))\<rparr>)"
| read: "phases w i = Reading tok as ss \<Longrightarrow> on_transport read_line (ctl w) = (x, c) \<Longrightarrow>
    step_of cmd tmo i w (w\<lparr>ctl := c, phases := (phases w)(i := after_read (cmd i) (tmo i) tok as ss x)\<rparr>)"
| unlock: "phases w i = Finished res \<Longrightarrow>
    step_of cmd tmo i w (w\<lparr>holder := None, phases := (phases w)(i := Leaving res)\<rparr>)"
| leave: "phases w i = Leaving res \<Longrightarrow>
    step_of cmd tmo i w (w\<lparr>ctl := release_slot (ctl w), phases := (phases w)(i := Returned res)\<rparr>)"

text \<open>A coroutine's next step is determined, so the relation can be run.\<close>

definition advance :: "(nat \<Rightarrow> mi_command) \<Rightarrow> (nat \<Rightarrow> int) \<Rightarrow> nat \<Rightarrow> world \<Rightarrow> world option" where
  "advance cmd tmo i w =
     (case phases w i of
        Outside \<Rightarrow>
          (case reserve_queue_slot (cmd i) (ctl w) of (r, c) \<Rightarrow> Some (w\<lparr>ctl := c,
             phases := (phases w)(i := (case r of Inl e \<Rightarrow> Refused e | Inr _ \<Rightarrow> Queued))\<rparr>))
      | Queued \<Rightarrow>
          if holder w = None
          then Some (w\<lparr>ctl := snd (allocate_token (ctl w)), holder := Some i,
            phases := (phases w)(i := Writing (projr (fst (allocate_token (ctl w))))), order := order w @ [i]\<rparr>)
          else None
      | Writing tok \<Rightarrow>
          (case on_transport (write_line (serialize (cmd i) (Some tok))) (ctl w) of (r, c) \<Rightarrow>
             Some (w\<lparr>ctl := c, phases := (phases w)(i :=
               (case r of Inl e \<Rightarrow> Finished (Inl e) | Inr _ \<Rightarrow> Reading tok [] []))\<rparr>))
      | Reading tok as ss \<Rightarrow>
          (case on_transport read_line (ctl w) of (x, c) \<Rightarrow>
             Some (w\<lparr>ctl := c, phases := (phases w)(i := after_read (cmd i) (tmo i) tok as ss x)\<rparr>))
      | Finished res \<Rightarrow> Some (w\<lparr>holder := None, phases := (phases w)(i := Leaving res)\<rparr>)
      | Leaving res \<Rightarrow> Some (w\<lparr>ctl := release_slot (ctl w), phases := (phases w)(i := Returned res)\<rparr>)
      | _ \<Rightarrow> None)"

lemma advance_iff: "advance cmd tmo i w = Some w' \<longleftrightarrow> step_of cmd tmo i w w'"
proof
  assume "step_of cmd tmo i w w'"
  then show "advance cmd tmo i w = Some w'"
    by cases (simp_all add: advance_def allocate_token_def)
next
  assume "advance cmd tmo i w = Some w'"
  then show "step_of cmd tmo i w w'"
    by (cases "phases w i")
      (auto simp: advance_def allocate_token_def intro: step_of.intros split: prod.splits if_splits)
qed

fun run_schedule ::
  "(nat \<Rightarrow> mi_command) \<Rightarrow> (nat \<Rightarrow> int) \<Rightarrow> nat list \<Rightarrow> world \<Rightarrow> world option" where
  "run_schedule cmd tmo [] w = Some w"
| "run_schedule cmd tmo (i # is) w = Option.bind (advance cmd tmo i w) (run_schedule cmd tmo is)"

definition mi_step :: "nat \<Rightarrow> (nat \<Rightarrow> mi_command) \<Rightarrow> (nat \<Rightarrow> int) \<Rightarrow> world \<Rightarrow> world \<Rightarrow> bool" where
  "mi_step n cmd tmo w w' \<longleftrightarrow> (\<exists>i < n. step_of cmd tmo i w w')"

lemma run_schedule_steps:
  "run_schedule cmd tmo is w = Some w' \<Longrightarrow> \<forall>i \<in> set is. i < n \<Longrightarrow> (mi_step n cmd tmo ^^ length is) w w'"
proof (induction "is" arbitrary: w)
  case (Cons i "is")
  then obtain v where "advance cmd tmo i w = Some v" and r: "run_schedule cmd tmo is v = Some w'"
    by (auto simp: bind_eq_Some_conv)
  then have "mi_step n cmd tmo w v" using Cons.prems(2) by (auto simp: mi_step_def advance_iff)
  moreover have "(mi_step n cmd tmo ^^ length is) v w'" using Cons.IH [OF r] Cons.prems(2) by simp
  ultimately have "(mi_step n cmd tmo ^^ Suc (length is)) w w'" by (rule relpowp_Suc_I2)
  then show ?case by (simp only: length_Cons)
qed simp

definition start :: "controller \<Rightarrow> world" where
  "start c = \<lparr>ctl = c, holder = None, phases = (\<lambda>_. Outside), order = []\<rparr>"

section \<open>Runs are bounded\<close>

primrec rank :: "phase \<Rightarrow> nat" where
  "rank Outside = 6"
| "rank Queued = 5"
| "rank (Writing tok) = 4"
| "rank (Reading tok as ss) = 3"
| "rank (Finished r) = 2"
| "rank (Leaving r) = 1"
| "rank (Returned r) = 0"
| "rank (Refused e) = 0"

definition work :: "nat \<Rightarrow> world \<Rightarrow> nat" where
  "work n w = (\<Sum>i<n. rank (phases w i)) + length (inbox (transport_of (ctl w)))"

lemma work_step:
  assumes "i < n" and "rank p + length (inbox (transport_of c))
      < rank (phases w i) + length (inbox (transport_of (ctl w)))"
  shows "work n (w\<lparr>ctl := c, phases := (phases w)(i := p)\<rparr>) < work n w"
proof -
  have "(\<Sum>j<n. rank (((phases w)(i := p)) j)) + rank (phases w i) = (\<Sum>j<n. rank (phases w j)) + rank p"
    using assms(1) by (simp add: sum.remove [of "{..<n}" i])
  then show ?thesis using assms(2) by (simp add: work_def)
qed

lemma work_frame: "work n (w\<lparr>holder := h\<rparr>) = work n w" "work n (w\<lparr>order := is\<rparr>) = work n w"
  by (simp_all add: work_def)

lemma read_line_inbox:
  "read_line tr = (x, tr') \<Longrightarrow> length (inbox tr') + (if isl x then 0 else 1) \<le> length (inbox tr)"
  by (auto simp: read_line_def split: list.splits read_event.splits)

lemma rank_after_read: "rank (after_read cmd t tok as ss x) \<le> (if isl x then 2 else 3)"
  by (cases x) (auto simp: after_read_def split: verdict.split)

lemma step_works:
  assumes "step_of cmd tmo i w w'" and "i < n"
  shows "work n w' < work n w"
  using assms(1)
proof cases
  case (reserve r c)
  then have "inbox (transport_of c) = inbox (transport_of (ctl w))"
    by (auto simp: reserve_queue_slot_def try_reserve_def split: if_splits)
  then show ?thesis unfolding reserve(1)
    using reserve(2) by (intro work_step [OF assms(2)]) (simp split: sum.split)
next
  case (lock tok c)
  then have "work n (w\<lparr>ctl := c, phases := (phases w)(i := Writing tok)\<rparr>) < work n w"
    by (intro work_step [OF assms(2)]) (auto simp: allocate_token_def)
  then show ?thesis unfolding lock(1) by (simp add: work_def)
next
  case (send tok r c)
  then have "inbox (transport_of c) = inbox (transport_of (ctl w))"
    by (auto simp: on_transport_def zoom_def write_line_def split: list.splits option.splits prod.splits)
  then show ?thesis unfolding send(1)
    using send(2) by (intro work_step [OF assms(2)]) (simp split: sum.split)
next
  case (read tok as ss x c)
  then obtain tr where "read_line (transport_of (ctl w)) = (x, tr)" "transport_of c = tr"
    by (auto simp: on_transport_def zoom_def split: prod.splits)
  then show ?thesis unfolding read(1)
    using read(2) read_line_inbox [of "transport_of (ctl w)" x tr]
      rank_after_read [of "cmd i" "tmo i" tok as ss x]
    by (intro work_step [OF assms(2)]) (auto split: if_splits)
next
  case (unlock res)
  then have "work n (w\<lparr>ctl := ctl w, phases := (phases w)(i := Leaving res)\<rparr>) < work n w"
    by (intro work_step [OF assms(2)]) simp
  then show ?thesis unfolding unlock(1) by (simp add: work_def)
next
  case (leave res)
  then show ?thesis unfolding leave(1)
    by (intro work_step [OF assms(2)]) (simp add: release_slot_def)
qed

lemma run_bounded: "(mi_step n cmd tmo ^^ k) w w' \<Longrightarrow> k + work n w' \<le> work n w"
proof (induction k arbitrary: w')
  case (Suc k)
  then obtain v where "(mi_step n cmd tmo ^^ k) w v" and "mi_step n cmd tmo v w'" by auto
  then show ?case using Suc.IH [of v] step_works [of cmd tmo _ v w' n] by (fastforce simp: mi_step_def)
qed simp

lemma work_start: "work n (start c) = 6 * n + length (inbox (transport_of c))"
  by (simp add: work_def start_def)

section \<open>The rest of a command\<close>

text \<open>What a coroutine that holds the lock still does, as one call.\<close>

fun locked :: "phase \<Rightarrow> bool" where
  "locked (Writing tok) = True"
| "locked (Reading tok as ss) = True"
| "locked (Finished r) = True"
| "locked _ = False"

definition read_rest ::
  "mi_command \<Rightarrow> int \<Rightarrow> nat \<Rightarrow> mi_record list \<Rightarrow> mi_stream_record list \<Rightarrow> (controller, mi_command_result) prog" where
  "read_rest cmd t tok as ss =
     catch (on_transport (\<lambda>tr. case read_events tok as ss (inbox tr) of (r, es) \<Rightarrow> (r, tr\<lparr>inbox := es\<rparr>)))
       (\<lambda>e. throw (as_timeout cmd t e))"

fun rest :: "mi_command \<Rightarrow> int \<Rightarrow> phase \<Rightarrow> (controller, mi_command_result) prog" where
  "rest cmd t (Writing tok) =
     andthen (on_transport (write_line (serialize cmd (Some tok)))) (\<lambda>_. read_rest cmd t tok [] [])"
| "rest cmd t (Reading tok as ss) = read_rest cmd t tok as ss"
| "rest cmd t (Finished r) = (\<lambda>c. (r, c))"
| "rest cmd t _ = throw (Exc AssertionError [])"

lemma body_rest: "body cmd t = andthen allocate_token (\<lambda>tok. rest cmd t (Writing tok))"
  by (simp add: body_def read_rest_def as_timeout_def read_until_result_def [abs_def])

text \<open>Each step under the lock leaves the outcome as it was.\<close>

lemma rest_write:
  assumes "on_transport (write_line (serialize cmd (Some tok))) c = (r, d)"
  shows "rest cmd t (Writing tok) c =
    rest cmd t (case r of Inl e \<Rightarrow> Finished (Inl e) | Inr _ \<Rightarrow> Reading tok [] []) d"
  using assms by (cases r) (simp_all add: andthen_def)

lemma rest_read:
  assumes "on_transport read_line c = (x, d)"
  shows "rest cmd t (Reading tok as ss) c = rest cmd t (after_read cmd t tok as ss x) d"
proof -
  obtain tr where tr: "read_line (transport_of c) = (x, tr)" "d = c\<lparr>transport_of := tr\<rparr>"
    using assms by (auto simp: on_transport_def zoom_def split: prod.splits)
  show ?thesis
  proof (cases "inbox (transport_of c)")
    case Nil
    then show ?thesis using tr
      by (auto simp: read_rest_def catch_def on_transport_def zoom_def after_read_def read_line_def)
  next
    case (Cons e es)
    show ?thesis
    proof (cases e)
      case (Line l)
      then show ?thesis using tr Cons
        by (cases "judge tok (rstrip_chars is_eol l)")
          (auto simp: read_rest_def catch_def on_transport_def zoom_def after_read_def read_line_def
            split: prod.splits sum.splits)
    qed (use tr Cons in \<open>auto simp: read_rest_def catch_def on_transport_def zoom_def after_read_def read_line_def\<close>)
  qed
qed

text \<open>The counter of the queue plays no part under the lock.\<close>

definition queued_at :: "int \<Rightarrow> controller \<Rightarrow> controller" where
  "queued_at q c = c\<lparr>queued_commands := q\<rparr>"

lemma on_transport_queued: "on_transport m c = (r, d) \<Longrightarrow> on_transport m (queued_at q c) = (r, queued_at q d)"
  by (auto simp: on_transport_def zoom_def queued_at_def split: prod.splits)

lemma allocate_queued:
  "allocate_token c = (r, d) \<Longrightarrow> allocate_token (queued_at q c) = (r, queued_at q d)"
  by (auto simp: allocate_token_def queued_at_def)

section \<open>Serialization\<close>

text \<open>The commands of a list, one after the other: the controller after them, and an outcome.\<close>

primrec after :: "(nat \<Rightarrow> mi_command) \<Rightarrow> (nat \<Rightarrow> int) \<Rightarrow> nat list \<Rightarrow> controller \<Rightarrow> controller" where
  "after cmd tmo [] c = c"
| "after cmd tmo (i # is) c = after cmd tmo is (snd (body (cmd i) (tmo i) c))"

lemma after_append: "after cmd tmo (is @ js) c = after cmd tmo js (after cmd tmo is c)"
  by (induction "is" arbitrary: c) simp_all

definition outcome ::
  "(nat \<Rightarrow> mi_command) \<Rightarrow> (nat \<Rightarrow> int) \<Rightarrow> controller \<Rightarrow> nat list \<Rightarrow> nat \<Rightarrow> mi_command_result res" where
  "outcome cmd tmo c is i = fst (body (cmd i) (tmo i) (after cmd tmo is c))"

fun served :: "phase \<Rightarrow> bool" where
  "served (Leaving r) = True"
| "served (Returned r) = True"
| "served _ = False"

definition lock_ok :: "(nat \<Rightarrow> mi_command) \<Rightarrow> (nat \<Rightarrow> int) \<Rightarrow> controller \<Rightarrow> world \<Rightarrow> bool" where
  "lock_ok cmd tmo c0 w \<longleftrightarrow>
     (case holder w of
        None \<Rightarrow> queued_at (queued_commands c0) (ctl w) = after cmd tmo (order w) c0
      | Some h \<Rightarrow> \<exists>is. order w = is @ [h] \<and> locked (phases w h)
          \<and> rest (cmd h) (tmo h) (phases w h) (queued_at (queued_commands c0) (ctl w))
              = body (cmd h) (tmo h) (after cmd tmo is c0))"

definition order_ok :: "(nat \<Rightarrow> mi_command) \<Rightarrow> (nat \<Rightarrow> int) \<Rightarrow> controller \<Rightarrow> world \<Rightarrow> bool" where
  "order_ok cmd tmo c0 w \<longleftrightarrow>
     distinct (order w) \<and> (\<forall>i. locked (phases w i) \<longrightarrow> holder w = Some i)
     \<and> (\<forall>i. i \<in> set (order w) \<longleftrightarrow> locked (phases w i) \<or> served (phases w i))
     \<and> (\<forall>i r. phases w i = Leaving r \<or> phases w i = Returned r \<longrightarrow>
          (\<exists>is js. order w = is @ i # js \<and> outcome cmd tmo c0 is i = r))"

lemma queued_at_frame:
  "queued_at q (c\<lparr>queued_commands := k\<rparr>) = queued_at q c" "queued_at q (release_slot c) = queued_at q c"
  "queued_at q (c\<lparr>queued_commands := k\<rparr>) = queued_at q c"
  by (simp_all add: queued_at_def release_slot_def)

lemma reserve_queued: "reserve_queue_slot cmd c = (r, d) \<Longrightarrow> queued_at q d = queued_at q c"
  by (auto simp: reserve_queue_slot_def try_reserve_def queued_at_def split: if_splits)

text \<open>A step that changes only phases outside the lock.\<close>

lemma lock_ok_frame:
  assumes "lock_ok cmd tmo c0 w" and "\<not> locked (phases w i)" and "\<not> locked p"
    and "queued_at (queued_commands c0) c = queued_at (queued_commands c0) (ctl w)"
  shows "lock_ok cmd tmo c0 (w\<lparr>ctl := c, phases := (phases w)(i := p)\<rparr>)"
  using assms by (auto simp: lock_ok_def split: option.splits)

text \<open>A step of the coroutine that holds the lock.\<close>

lemma lock_ok_rest:
  assumes "lock_ok cmd tmo c0 w" and "order_ok cmd tmo c0 w" and "locked (phases w i)" and "locked p"
    and "rest (cmd i) (tmo i) (phases w i) (queued_at (queued_commands c0) (ctl w))
       = rest (cmd i) (tmo i) p (queued_at (queued_commands c0) c)"
  shows "lock_ok cmd tmo c0 (w\<lparr>ctl := c, phases := (phases w)(i := p)\<rparr>)"
proof -
  have "holder w = Some i" using assms(2,3) by (simp add: order_ok_def)
  then show ?thesis using assms(1,4,5) by (auto simp: lock_ok_def)
qed

lemma order_ok_frame:
  assumes "order_ok cmd tmo c0 w" and "locked p = locked (phases w i)" and "\<not> served p" and "\<not> served (phases w i)"
  shows "order_ok cmd tmo c0 (w\<lparr>ctl := c, phases := (phases w)(i := p)\<rparr>)"
  using assms by (auto simp: order_ok_def)

lemma locked_after_read: "after_read cmd t tok as ss x \<noteq> Outside \<and> locked (after_read cmd t tok as ss x)"
  by (auto simp: after_read_def split: sum.split verdict.split)

lemma serial_step:
  assumes "step_of cmd tmo i w w'" and l: "lock_ok cmd tmo c0 w" and o: "order_ok cmd tmo c0 w"
  shows "lock_ok cmd tmo c0 w' \<and> order_ok cmd tmo c0 w'"
  using assms(1)
proof cases
  case (reserve r c)
  let ?p = "case r of Inl e \<Rightarrow> Refused e | Inr _ \<Rightarrow> Queued"
  have "\<not> locked ?p" "\<not> served ?p" by (simp_all split: sum.split)
  then show ?thesis unfolding reserve(1)
    using reserve(2) lock_ok_frame [OF l _ _ reserve_queued [OF reserve(3)], of i ?p]
      order_ok_frame [OF o, of ?p i c] by simp
next
  case (lock tok c)
  have n: "i \<notin> set (order w)" "\<forall>j. \<not> locked (phases w j)" using lock(2,3) o by (auto simp: order_ok_def)
  have "body (cmd i) (tmo i) (after cmd tmo (order w) c0)
      = rest (cmd i) (tmo i) (Writing tok) (queued_at (queued_commands c0) c)"
    using l lock(3) allocate_queued [OF lock(4), of "queued_commands c0"]
    by (simp add: lock_ok_def body_rest andthen_def flip: rest.simps)
  then have "lock_ok cmd tmo c0 w'" unfolding lock(1) by (simp add: lock_ok_def)
  moreover have "order_ok cmd tmo c0 w'" unfolding lock(1)
    using o n by (fastforce simp: order_ok_def)
  ultimately show ?thesis by simp
next
  case (send tok r c)
  let ?p = "case r of Inl e \<Rightarrow> Finished (Inl e) | Inr _ \<Rightarrow> Reading tok [] []"
  have p: "locked ?p" "\<not> served ?p" by (simp_all split: sum.split)
  have "rest (cmd i) (tmo i) (phases w i) (queued_at (queued_commands c0) (ctl w))
      = rest (cmd i) (tmo i) ?p (queued_at (queued_commands c0) c)"
    unfolding send(2) by (rule rest_write [OF on_transport_queued [OF send(3)]])
  then show ?thesis unfolding send(1)
    using lock_ok_rest [OF l o, of i ?p c] order_ok_frame [OF o, of ?p i c] p send(2) by simp
next
  case (read tok as ss x c)
  let ?p = "after_read (cmd i) (tmo i) tok as ss x"
  have p: "locked ?p" "\<not> served ?p"
    using locked_after_read [of "cmd i" "tmo i" tok as ss x] by (auto elim: locked.elims)
  have "rest (cmd i) (tmo i) (phases w i) (queued_at (queued_commands c0) (ctl w))
      = rest (cmd i) (tmo i) ?p (queued_at (queued_commands c0) c)"
    unfolding read(2) by (rule rest_read [OF on_transport_queued [OF read(3)]])
  then show ?thesis unfolding read(1)
    using lock_ok_rest [OF l o, of i ?p c] order_ok_frame [OF o, of ?p i c] p read(2) by simp
next
  case (unlock res)
  have h: "holder w = Some i" using unlock(2) o by (simp add: order_ok_def)
  have only: "\<forall>j. locked (phases w j) \<longrightarrow> j = i"
  proof (intro allI impI)
    fix j assume "locked (phases w j)"
    then have "holder w = Some j" using o by (simp add: order_ok_def)
    then show "j = i" using h by simp
  qed
  obtain pre where pre: "order w = pre @ [i]"
    and b: "body (cmd i) (tmo i) (after cmd tmo pre c0) = (res, queued_at (queued_commands c0) (ctl w))"
    using l unlock(2) h by (auto simp: lock_ok_def)
  then have "lock_ok cmd tmo c0 w'" unfolding unlock(1) by (simp add: lock_ok_def after_append)
  moreover have "outcome cmd tmo c0 pre i = res" using b by (simp add: outcome_def)
  then have "order_ok cmd tmo c0 w'" unfolding unlock(1)
    using o only pre unlock(2) by (fastforce simp: order_ok_def)
  ultimately show ?thesis by simp
next
  case (leave res)
  have "lock_ok cmd tmo c0 w'" unfolding leave(1)
    using leave(2) by (intro lock_ok_frame [OF l]) (simp_all add: queued_at_frame)
  moreover have "order_ok cmd tmo c0 w'" unfolding leave(1)
    using o leave(2) by (auto simp: order_ok_def)
  ultimately show ?thesis by simp
qed

section \<open>The queue and progress\<close>

fun inside :: "phase \<Rightarrow> bool" where
  "inside Outside = False"
| "inside (Returned r) = False"
| "inside (Refused e) = False"
| "inside _ = True"

text \<open>The counter of the queue is the number of coroutines inside; only coroutines below \<open>n\<close> run.\<close>

definition queue_ok :: "nat \<Rightarrow> world \<Rightarrow> bool" where
  "queue_ok n w \<longleftrightarrow> queued_commands (ctl w) = int (card {i. inside (phases w i)})
     \<and> (\<forall>i. n \<le> i \<longrightarrow> phases w i = Outside)"

lemma inside_below: "queue_ok n w \<Longrightarrow> phases w i \<noteq> Outside \<Longrightarrow> i < n"
  by (auto simp: queue_ok_def simp flip: not_le)

lemma inside_finite: "queue_ok n w \<Longrightarrow> finite {j. inside (phases w j)}"
  by (rule finite_subset [of _ "{..<n}"]) (use inside_below in force)+

lemma inside_counted:
  assumes "queue_ok n w" and "inside (phases w i)"
  shows "1 \<le> card {j. inside (phases w j)}"
  using inside_finite [OF assms(1)] assms(2) by (auto simp: Suc_le_eq card_gt_0_iff)

lemma queue_ok_update:
  assumes "queue_ok n w" and "i < n"
    and "queued_commands c = queued_commands (ctl w) + (if inside p then 1 else 0) - (if inside (phases w i) then 1 else 0)"
  shows "queue_ok n (w\<lparr>ctl := c, phases := (phases w)(i := p)\<rparr>)"
proof -
  let ?S = "{j. inside (phases w j)}"
  have "finite ?S" using assms(1) by (rule inside_finite)
  moreover have "inside (phases w i) \<longrightarrow> 1 \<le> card ?S" using inside_counted [OF assms(1)] by blast
  moreover have "{j. inside (((phases w)(i := p)) j)} = (if inside p then insert i ?S else ?S - {i})" by auto
  ultimately show ?thesis using assms
    by (auto simp: queue_ok_def card_insert_if card_Diff_singleton_if of_nat_diff)
qed

lemma inside_locked: "locked p \<Longrightarrow> inside p"
  by (cases p) simp_all

lemma queue_step:
  assumes "step_of cmd tmo i w w'" and "i < n" and q: "queue_ok n w"
  shows "queue_ok n w'"
  using assms(1)
proof cases
  case (reserve r c)
  then show ?thesis unfolding reserve(1)
    by (intro queue_ok_update [OF q assms(2)])
      (auto simp: reserve_queue_slot_def try_reserve_def split: sum.split if_splits)
next
  case (lock tok c)
  have "queue_ok n (w\<lparr>ctl := c, phases := (phases w)(i := Writing tok)\<rparr>)"
    using lock(2,4) by (intro queue_ok_update [OF q assms(2)]) (auto simp: allocate_token_def)
  then show ?thesis unfolding lock(1) by (simp add: queue_ok_def)
next
  case (send tok r c)
  then show ?thesis unfolding send(1)
    using on_transport_frame [OF send(3)]
    by (intro queue_ok_update [OF q assms(2)]) (simp split: sum.split)
next
  case (read tok as ss x c)
  then show ?thesis unfolding read(1)
    using on_transport_frame [OF read(3)] inside_locked locked_after_read [of "cmd i" "tmo i" tok as ss x]
    by (intro queue_ok_update [OF q assms(2)]) simp
next
  case (unlock res)
  have "queue_ok n (w\<lparr>ctl := ctl w, phases := (phases w)(i := Leaving res)\<rparr>)"
    using unlock(2) by (intro queue_ok_update [OF q assms(2)]) simp
  then show ?thesis unfolding unlock(1) by (simp add: queue_ok_def)
next
  case (leave res)
  have "1 \<le> queued_commands (ctl w)"
    using inside_counted [OF q, of i] q leave(2) by (simp add: queue_ok_def)
  then show ?thesis unfolding leave(1)
    using leave(2) by (intro queue_ok_update [OF q assms(2)]) (simp add: release_slot_def)
qed

definition world_ok :: "nat \<Rightarrow> (nat \<Rightarrow> mi_command) \<Rightarrow> (nat \<Rightarrow> int) \<Rightarrow> controller \<Rightarrow> world \<Rightarrow> bool" where
  "world_ok n cmd tmo c0 w \<longleftrightarrow> lock_ok cmd tmo c0 w \<and> order_ok cmd tmo c0 w \<and> queue_ok n w"

lemma start_ok: "queued_commands c = 0 \<Longrightarrow> world_ok n cmd tmo c (start c)"
  by (simp add: world_ok_def lock_ok_def order_ok_def queue_ok_def start_def queued_at_def)

lemma reachable_ok:
  assumes "(mi_step n cmd tmo)\<^sup>*\<^sup>* (start c) w" and "queued_commands c = 0"
  shows "world_ok n cmd tmo c w"
  using assms
proof (induction rule: rtranclp_induct)
  case base
  then show ?case using start_ok by blast
next
  case (step v w)
  then show ?case using serial_step queue_step by (fastforce simp: mi_step_def world_ok_def)
qed

fun returned :: "phase \<Rightarrow> bool" where
  "returned (Returned r) = True"
| "returned (Refused e) = True"
| "returned _ = False"

lemma can_step:
  assumes "inside (phases w i) \<or> phases w i = Outside" and "phases w i = Queued \<longrightarrow> holder w = None"
  shows "\<exists>w'. step_of cmd tmo i w w'"
proof -
  have "advance cmd tmo i w \<noteq> None"
    using assms by (cases "phases w i") (simp_all add: advance_def split: prod.split)
  then show ?thesis using advance_iff by blast
qed

text \<open>There is no deadlock: a coroutine that waits for the lock waits for one that can step.\<close>

lemma progress:
  assumes q: "queue_ok n w" and l: "\<And>h. holder w = Some h \<Longrightarrow> locked (phases w h)"
    and i: "i < n" "\<not> returned (phases w i)"
  shows "\<exists>w'. mi_step n cmd tmo w w'"
proof (cases "phases w i = Queued \<and> holder w \<noteq> None")
  case True
  then obtain h where h: "holder w = Some h" by blast
  then have "locked (phases w h)" by (rule l)
  then have "inside (phases w h)" "phases w h \<noteq> Queued" by (auto dest: inside_locked)
  moreover have "phases w h \<noteq> Outside" using calculation(1) by auto
  moreover have "h < n" using q calculation(3) inside_below by blast
  ultimately show ?thesis using can_step [of w h cmd tmo] by (auto simp: mi_step_def)
next
  case False
  have "inside (phases w i) \<or> phases w i = Outside" using i(2) by (cases "phases w i") simp_all
  then show ?thesis using can_step [of w i cmd tmo] False i(1) by (auto simp: mi_step_def)
qed

lemma returned_stuck: "\<forall>i < n. returned (phases w i) \<Longrightarrow> \<not> mi_step n cmd tmo w w'"
proof
  assume r: "\<forall>i < n. returned (phases w i)" and "mi_step n cmd tmo w w'"
  then obtain i where "returned (phases w i)" "advance cmd tmo i w = Some w'"
    by (auto simp: mi_step_def advance_iff)
  then show False by (cases "phases w i") (simp_all add: advance_def)
qed

section \<open>The sequential specification\<close>

text \<open>\<open>execute\<close> for each command of a list, one after the other.\<close>

fun execute_all ::
  "(nat \<Rightarrow> mi_command) \<Rightarrow> (nat \<Rightarrow> int) \<Rightarrow> nat list \<Rightarrow> controller \<Rightarrow> mi_command_result res list \<times> controller" where
  "execute_all cmd tmo [] c = ([], c)"
| "execute_all cmd tmo (i # is) c =
     (case execute (cmd i) (tmo i) c of (r, d) \<Rightarrow>
       (case execute_all cmd tmo is d of (rs, e) \<Rightarrow> (r # rs, e)))"

lemma execute_body_idle:
  assumes "queued_commands c = 0" and "0 < max_queued_commands c"
  shows "execute cmd t c = (fst (body cmd t c), snd (body cmd t c))"
proof -
  obtain r d where b: "body cmd t c = (r, d)" by fastforce
  have k: "body cmd t (queued_at q c) = (r, queued_at q d)" for q
  proof -
    obtain tok e where a: "allocate_token c = (Inr tok, e)" by (simp add: allocate_token_def)
    obtain x f where w: "on_transport (write_line (serialize cmd (Some tok))) e = (x, f)" by fastforce
    obtain y g where r: "on_transport (read_until_result tok) f = (y, g)" by fastforce
    show ?thesis
      using b a w r allocate_queued [OF a, of q] on_transport_queued [OF w, of q] on_transport_queued [OF r, of q]
      by (cases x; cases y) (auto simp: body_def andthen_def catch_def)
  qed
  have "queued_commands d = 0" using body_cases [OF b] assms(1) by simp
  then show ?thesis
    using execute_runs [of c cmd t r "queued_at 1 d"] k [of 1] assms b by (simp add: queued_at_def)
qed

lemma execute_all_after:
  assumes "queued_commands c = 0" and "0 < max_queued_commands c"
  shows "snd (execute_all cmd tmo is c) = after cmd tmo is c
    \<and> length (fst (execute_all cmd tmo is c)) = length is
    \<and> (\<forall>k < length is. fst (execute_all cmd tmo is c) ! k = outcome cmd tmo c (take k is) (is ! k))"
  using assms
proof (induction "is" arbitrary: c)
  case (Cons i "is")
  obtain r d where b: "body (cmd i) (tmo i) c = (r, d)" by fastforce
  have e: "execute (cmd i) (tmo i) c = (r, d)" using execute_body_idle [OF Cons.prems] b by simp
  have d: "queued_commands d = 0" "0 < max_queued_commands d" using body_cases [OF b] Cons.prems by simp_all
  have "fst (execute_all cmd tmo (i # is) c) ! k = outcome cmd tmo c (take k (i # is)) ((i # is) ! k)"
    if "k < length (i # is)" for k
    using that Cons.IH [OF d] e b by (cases k) (auto simp: outcome_def split: prod.split)
  then show ?case using Cons.IH [OF d] e b by (auto split: prod.split)
qed simp

text \<open>
  When no command is under way, the coroutines have done what \<open>execute\<close> does for those that took
  the lock, one after the other in this order; the others were refused.
\<close>

definition result_of :: "phase \<Rightarrow> mi_command_result res" where
  "result_of p = (case p of Returned r \<Rightarrow> r | Refused e \<Rightarrow> Inl e | _ \<Rightarrow> Inl (Exc AssertionError []))"

lemma split_at_nth:
  assumes "distinct xs" and "k < length xs" and "xs = ys @ xs ! k # zs"
  shows "ys = take k xs"
proof -
  have "xs ! length ys = xs ! k" by (subst (1) assms(3)) simp
  moreover have "length ys < length xs" by (subst assms(3)) simp
  ultimately have "length ys = k" using assms(1,2) by (simp add: nth_eq_iff_index_eq)
  then show ?thesis by (subst assms(3)) simp
qed

lemma order_results:
  assumes "order_ok cmd tmo c w" and "k < length (order w)" and "phases w (order w ! k) = Returned r"
  shows "outcome cmd tmo c (take k (order w)) (order w ! k) = r"
proof -
  obtain pre post where p: "order w = pre @ (order w ! k) # post" "outcome cmd tmo c pre (order w ! k) = r"
    using assms(1,3) unfolding order_ok_def by blast
  have "pre = take k (order w)"
    using assms(1,2) p(1) by (intro split_at_nth) (simp_all add: order_ok_def)
  then show ?thesis using p(2) by simp
qed

lemma serialized:
  assumes "(mi_step n cmd tmo)\<^sup>*\<^sup>* (start c) w" and "queued_commands c = 0" and "0 < max_queued_commands c"
    and "\<forall>i < n. returned (phases w i)"
  shows "\<exists>is. distinct is \<and> set is \<subseteq> {..<n} \<and> (\<forall>i < n. i \<in> set is \<or> (\<exists>e. phases w i = Refused e))
    \<and> execute_all cmd tmo is c = (map (\<lambda>i. result_of (phases w i)) is, ctl w)"
proof -
  have ok: "lock_ok cmd tmo c w" "order_ok cmd tmo c w" "queue_ok n w"
    using reachable_ok [OF assms(1,2)] by (simp_all add: world_ok_def)
  have outside: "\<not> inside (phases w i)" for i
  proof (cases "i < n")
    case True
    then have "returned (phases w i)" using assms(4) by blast
    then show ?thesis by (cases "phases w i") simp_all
  qed (use ok(3) in \<open>simp add: queue_ok_def\<close>)
  then have unlocked: "\<not> locked (phases w i)" for i using inside_locked by blast
  have "queued_commands (ctl w) = 0" using ok(3) outside by (simp add: queue_ok_def)
  then have "queued_at 0 (ctl w) = ctl w" by (simp add: queued_at_def)
  moreover have "holder w = None" using ok(1) unlocked by (auto simp: lock_ok_def split: option.splits)
  ultimately have 1: "ctl w = after cmd tmo (order w) c"
    using ok(1) assms(2) by (simp add: lock_ok_def)
  have members: "i \<in> set (order w) \<longleftrightarrow> (\<exists>r. phases w i = Returned r)" for i
    using ok(2) unlocked [of i] outside [of i] by (cases "phases w i") (simp_all add: order_ok_def)
  have "i < n" if "i \<in> set (order w)" for i
    using that members inside_below [OF ok(3), of i] by auto
  moreover have "i \<in> set (order w) \<or> (\<exists>e. phases w i = Refused e)" if "i < n" for i
    using that assms(4) members [of i] by (cases "phases w i") auto
  moreover have "fst (execute_all cmd tmo (order w) c) = map (\<lambda>i. result_of (phases w i)) (order w)"
  proof (rule nth_equalityI)
    show "fst (execute_all cmd tmo (order w) c) ! k = map (\<lambda>i. result_of (phases w i)) (order w) ! k"
      if "k < length (fst (execute_all cmd tmo (order w) c))" for k
    proof -
      have k: "k < length (order w)" using that execute_all_after [OF assms(2,3)] by simp
      then obtain r where r: "phases w (order w ! k) = Returned r" using members nth_mem by blast
      then have "outcome cmd tmo c (take k (order w)) (order w ! k) = r" by (rule order_results [OF ok(2) k])
      then show ?thesis using k r execute_all_after [OF assms(2,3)] by (simp add: result_of_def)
    qed
  qed (use execute_all_after [OF assms(2,3)] in simp)
  moreover have "snd (execute_all cmd tmo (order w) c) = ctl w"
    using execute_all_after [OF assms(2,3)] 1 by simp
  ultimately show ?thesis using ok(2)
    by (intro exI [of _ "order w"]) (auto simp: order_ok_def prod_eq_iff)
qed

end
