(* ===== verification/MI_Cancellation.thy ===== *)
theory MI_Cancellation
  imports MI_Concurrency
begin

text \<open>
  Concurrent commands that can be cancelled (\<open>MIController.execute\<close> under \<open>asyncio\<close>). A coroutine can be
  cancelled where it waits: for the lock, for the write to drain, with the line already written, or for
  a line of GDB. The lock and the slot of the queue are given back on the way out, as after an
  exception; \<open>given_up\<close> collects the coroutines that were cancelled, whose results nobody reads.

  Cancellations leak neither the lock nor a slot and block nobody (\<open>calls_end\<close>), and no answer goes
  to another command: tokens are allocated in the order of the lock, and a command returns only the
  result record of its own (\<open>own_answers\<close>), so that the late answer to a cancelled one passes.
\<close>

section \<open>Steps and cancellations\<close>

definition no_result :: "mi_command_result res" where
  "no_result = Inl (Exc AssertionError [])"

inductive cancel_of :: "(nat \<Rightarrow> mi_command) \<Rightarrow> nat \<Rightarrow> world \<Rightarrow> world \<Rightarrow> bool"
  for cmd :: "nat \<Rightarrow> mi_command" and i :: nat where
  waiting: "phases w i = Queued \<Longrightarrow>
    cancel_of cmd i w (w\<lparr>phases := (phases w)(i := Leaving no_result)\<rparr>)"
| draining: "phases w i = Writing tok \<Longrightarrow>
    on_transport (write_line (serialize (cmd i) (Some tok))) (ctl w) = (Inr u, c) \<Longrightarrow>
    cancel_of cmd i w (w\<lparr>ctl := c, phases := (phases w)(i := Finished no_result)\<rparr>)"
| reading: "phases w i = Reading tok as ss \<Longrightarrow>
    cancel_of cmd i w (w\<lparr>phases := (phases w)(i := Finished no_result)\<rparr>)"

inductive mi_event :: "nat \<Rightarrow> (nat \<Rightarrow> mi_command) \<Rightarrow> (nat \<Rightarrow> int) \<Rightarrow> world \<times> nat set \<Rightarrow> world \<times> nat set \<Rightarrow> bool"
  for n :: nat and cmd :: "nat \<Rightarrow> mi_command" and tmo :: "nat \<Rightarrow> int" where
  goes_on: "i < n \<Longrightarrow> step_of cmd tmo i w w' \<Longrightarrow> mi_event n cmd tmo (w, given_up) (w', given_up)"
| cancelled: "i < n \<Longrightarrow> cancel_of cmd i w w' \<Longrightarrow> mi_event n cmd tmo (w, given_up) (w', insert i given_up)"

inductive_cases mi_eventE: "mi_event n cmd tmo (w, given_up) x"

text \<open>A cancellation is determined too, so runs with cancellations can be computed.\<close>

definition give_up :: "(nat \<Rightarrow> mi_command) \<Rightarrow> nat \<Rightarrow> world \<Rightarrow> world option" where
  "give_up cmd i w =
     (case phases w i of
        Queued \<Rightarrow> Some (w\<lparr>phases := (phases w)(i := Leaving no_result)\<rparr>)
      | Writing tok \<Rightarrow>
          (case on_transport (write_line (serialize (cmd i) (Some tok))) (ctl w) of
             (Inl e, c) \<Rightarrow> None
           | (Inr u, c) \<Rightarrow> Some (w\<lparr>ctl := c, phases := (phases w)(i := Finished no_result)\<rparr>))
      | Reading tok as ss \<Rightarrow> Some (w\<lparr>phases := (phases w)(i := Finished no_result)\<rparr>)
      | _ \<Rightarrow> None)"

lemma give_up_cancels: "give_up cmd i w = Some w' \<Longrightarrow> cancel_of cmd i w w'"
  by (auto simp: give_up_def intro: cancel_of.intros split: phase.splits prod.splits sum.splits)

fun run_events ::
  "(nat \<Rightarrow> mi_command) \<Rightarrow> (nat \<Rightarrow> int) \<Rightarrow> (bool \<times> nat) list \<Rightarrow> world \<times> nat set \<Rightarrow> (world \<times> nat set) option" where
  "run_events cmd tmo [] x = Some x"
| "run_events cmd tmo ((False, i) # es) (w, given_up) =
     Option.bind (advance cmd tmo i w) (\<lambda>w'. run_events cmd tmo es (w', given_up))"
| "run_events cmd tmo ((True, i) # es) (w, given_up) =
     Option.bind (give_up cmd i w) (\<lambda>w'. run_events cmd tmo es (w', insert i given_up))"

lemma run_events_steps:
  "run_events cmd tmo es x = Some y \<Longrightarrow> \<forall>e \<in> set es. snd e < n \<Longrightarrow> (mi_event n cmd tmo ^^ length es) x y"
proof (induction cmd tmo es x rule: run_events.induct)
  case (2 cmd tmo i es w given_up)
  then obtain w' where "advance cmd tmo i w = Some w'" "run_events cmd tmo es (w', given_up) = Some y"
    by (auto simp: bind_eq_Some_conv)
  then have "mi_event n cmd tmo (w, given_up) (w', given_up)" "(mi_event n cmd tmo ^^ length es) (w', given_up) y"
    using 2 by (auto simp: advance_iff intro: goes_on)
  then have "(mi_event n cmd tmo ^^ Suc (length es)) (w, given_up) y" by (rule relpowp_Suc_I2)
  then show ?case by (simp only: length_Cons)
next
  case (3 cmd tmo i es w given_up)
  then obtain w' where "give_up cmd i w = Some w'" "run_events cmd tmo es (w', insert i given_up) = Some y"
    by (auto simp: bind_eq_Some_conv)
  then have "mi_event n cmd tmo (w, given_up) (w', insert i given_up)"
    "(mi_event n cmd tmo ^^ length es) (w', insert i given_up) y"
    using 3 give_up_cancels by (auto intro: cancelled)
  then have "(mi_event n cmd tmo ^^ Suc (length es)) (w, given_up) y" by (rule relpowp_Suc_I2)
  then show ?case by (simp only: length_Cons)
qed simp

lemma steps_events: "(mi_step n cmd tmo ^^ k) w w' \<Longrightarrow> (mi_event n cmd tmo ^^ k) (w, given_up) (w', given_up)"
proof (induction k arbitrary: w')
  case (Suc k)
  then obtain v where "(mi_step n cmd tmo ^^ k) w v" "mi_step n cmd tmo v w'" by auto
  moreover have "mi_event n cmd tmo (v, given_up) (w', given_up)"
    using calculation(2) by (auto simp: mi_step_def intro: goes_on)
  ultimately show ?case using Suc.IH by auto
qed simp

lemma on_transport_inbox:
  "on_transport (write_line l) c = (r, d) \<Longrightarrow> inbox (transport_of d) = inbox (transport_of c)"
  by (auto simp: on_transport_def zoom_def write_line_def split: list.splits option.splits prod.splits)

text \<open>A cancellation changes one phase, and writes at most a line.\<close>

lemma cancel_shape:
  assumes "cancel_of cmd i w w'"
  obtains c p where "w' = w\<lparr>ctl := c, phases := (phases w)(i := p)\<rparr>"
    and "queued_commands c = queued_commands (ctl w)" "next_token c = next_token (ctl w)"
    and "inbox (transport_of c) = inbox (transport_of (ctl w))"
    and "rank p < rank (phases w i)" "inside p" "inside (phases w i)" "locked p = locked (phases w i)"
    and "p = Leaving no_result \<or> p = Finished no_result"
  using assms
proof cases
  case waiting
  then show thesis by (intro that [where c = "ctl w" and p = "Leaving no_result"]) simp_all
next
  case (draining tok u c)
  then show thesis using on_transport_frame [OF draining(3)] on_transport_inbox [OF draining(3)]
    by (intro that [where c = c and p = "Finished no_result"]) simp_all
next
  case (reading tok as ss)
  then show thesis by (intro that [where c = "ctl w" and p = "Finished no_result"]) simp_all
qed

lemma cancel_works: "cancel_of cmd i w w' \<Longrightarrow> i < n \<Longrightarrow> work n w' < work n w"
  by (erule cancel_shape) (simp only:, rule work_step, simp_all)

lemma events_bounded: "(mi_event n cmd tmo ^^ k) x y \<Longrightarrow> k + work n (fst y) \<le> work n (fst x)"
proof (induction k arbitrary: y)
  case (Suc k)
  then obtain z where z: "(mi_event n cmd tmo ^^ k) x z" "mi_event n cmd tmo z y" by auto
  from z(2) have "work n (fst y) < work n (fst z)"
    by cases (auto dest: step_works cancel_works)
  then show ?case using Suc.IH [OF z(1)] by simp
qed simp

section \<open>The lock, the queue and the tokens\<close>

definition alone :: "world \<Rightarrow> bool" where
  "alone w \<longleftrightarrow> (\<forall>i. locked (phases w i) \<longleftrightarrow> holder w = Some i)"

text \<open>The command that took the lock \<open>k\<close>-th has the token \<open>k\<close> places after the first.\<close>

definition token_at :: "nat \<Rightarrow> nat list \<Rightarrow> nat \<Rightarrow> nat \<Rightarrow> bool" where
  "token_at first is i tok \<longleftrightarrow> (\<exists>k < length is. is ! k = i \<and> tok = first + k)"

definition own_answer :: "nat \<Rightarrow> nat list \<Rightarrow> nat \<Rightarrow> mi_command_result res \<Rightarrow> bool" where
  "own_answer first is i r \<longleftrightarrow>
     (case r of Inl e \<Rightarrow> True | Inr x \<Rightarrow> \<exists>tok. token (result_record x) = Some tok \<and> token_at first is i tok)"

fun phase_ok :: "nat \<Rightarrow> nat list \<Rightarrow> nat \<Rightarrow> phase \<Rightarrow> bool" where
  "phase_ok first is i Outside \<longleftrightarrow> i \<notin> set is"
| "phase_ok first is i Queued \<longleftrightarrow> i \<notin> set is"
| "phase_ok first is i (Writing tok) \<longleftrightarrow> token_at first is i tok"
| "phase_ok first is i (Reading tok as ss) \<longleftrightarrow> token_at first is i tok"
| "phase_ok first is i (Finished r) \<longleftrightarrow> own_answer first is i r"
| "phase_ok first is i (Leaving r) \<longleftrightarrow> own_answer first is i r"
| "phase_ok first is i (Returned r) \<longleftrightarrow> own_answer first is i r"
| "phase_ok first is i (Refused e) \<longleftrightarrow> True"

definition tokens_ok :: "nat \<Rightarrow> world \<Rightarrow> bool" where
  "tokens_ok first w \<longleftrightarrow> next_token (ctl w) = first + length (order w) \<and> distinct (order w)
     \<and> (\<forall>i. phase_ok first (order w) i (phases w i))"

lemma token_at_append: "token_at first is i tok \<Longrightarrow> token_at first (is @ js) i tok"
  by (auto simp: token_at_def nth_append intro: exI)

lemma phase_ok_append: "phase_ok first is i p \<Longrightarrow> i \<notin> set js \<Longrightarrow> phase_ok first (is @ js) i p"
  by (cases p) (auto simp: own_answer_def token_at_append split: sum.splits intro: token_at_append)

lemma phase_ok_no_result: "own_answer first is i no_result"
  by (simp add: own_answer_def no_result_def)

lemma phase_ok_after_read:
  "token_at first is i tok \<Longrightarrow> phase_ok first is i (after_read cmd t tok as ss x)"
  by (auto simp: after_read_def own_answer_def finish_def judge_def split: sum.split verdict.split sum.splits mi_line.splits if_splits)

lemma alone_update:
  "alone w \<Longrightarrow> locked p = locked (phases w i) \<Longrightarrow> alone (w\<lparr>ctl := c, phases := (phases w)(i := p)\<rparr>)"
  by (auto simp: alone_def)

lemma alone_step:
  assumes "step_of cmd tmo i w w'" and "alone w"
  shows "alone w'"
  using assms(1)
proof cases
  case (read tok as ss x c)
  then show ?thesis using alone_update [OF assms(2)] locked_after_read by simp
next
  case (unlock res)
  then have "holder w = Some i" using assms(2) by (metis alone_def locked.simps(3))
  then show ?thesis unfolding unlock(1) using assms(2) by (auto simp: alone_def)
next
  case (lock tok c)
  then show ?thesis using assms(2) by (auto simp: alone_def)
next
  case (reserve r c)
  then show ?thesis using alone_update [OF assms(2)] by (simp split: sum.split)
next
  case (send tok r c)
  then show ?thesis using alone_update [OF assms(2)] by (simp split: sum.split)
next
  case (leave res)
  then show ?thesis using alone_update [OF assms(2)] by simp
qed

lemma alone_cancel: "cancel_of cmd i w w' \<Longrightarrow> alone w \<Longrightarrow> alone w'"
  by (erule cancel_shape) (simp only: alone_update)

lemma tokens_update:
  "tokens_ok first w \<Longrightarrow> next_token c = next_token (ctl w) \<Longrightarrow> phase_ok first (order w) i p \<Longrightarrow>
   tokens_ok first (w\<lparr>ctl := c, phases := (phases w)(i := p)\<rparr>)"
  by (simp add: tokens_ok_def)

lemma tokens_phase: "tokens_ok first w \<Longrightarrow> phases w i = p \<Longrightarrow> phase_ok first (order w) i p"
  by (auto simp: tokens_ok_def)

lemma tokens_step:
  assumes "step_of cmd tmo i w w'" and t: "tokens_ok first w"
  shows "tokens_ok first w'"
  using assms(1)
proof cases
  case (reserve r c)
  then have "next_token c = next_token (ctl w)"
    by (auto simp: reserve_queue_slot_def try_reserve_def split: if_splits)
  then show ?thesis unfolding reserve(1) using tokens_phase [OF t reserve(2)]
    by (intro tokens_update [OF t]) (auto split: sum.split)
next
  case (lock tok c)
  have i: "i \<notin> set (order w)" using tokens_phase [OF t lock(2)] by simp
  have "phase_ok first (order w @ [i]) j (phases w j)" if "j \<noteq> i" for j
    using t that by (intro phase_ok_append) (simp_all add: tokens_ok_def)
  moreover have "token_at first (order w @ [i]) i tok" "next_token c = first + length (order w @ [i])"
    using lock(4) t by (auto simp: allocate_token_def tokens_ok_def token_at_def intro!: exI [of _ "length (order w)"])
  ultimately show ?thesis unfolding lock(1) using t i by (simp add: tokens_ok_def)
next
  case (send tok r c)
  then show ?thesis unfolding send(1) using tokens_phase [OF t send(2)] on_transport_frame [OF send(3)]
    by (intro tokens_update [OF t]) (auto simp: own_answer_def split: sum.split)
next
  case (read tok as ss x c)
  then show ?thesis unfolding read(1) using tokens_phase [OF t read(2)] on_transport_frame [OF read(3)]
    by (intro tokens_update [OF t] phase_ok_after_read) auto
next
  case (unlock res)
  have "tokens_ok first (w\<lparr>ctl := ctl w, phases := (phases w)(i := Leaving res)\<rparr>)"
    using tokens_phase [OF t unlock(2)] by (intro tokens_update [OF t]) simp_all
  then show ?thesis unfolding unlock(1) by (simp add: tokens_ok_def)
next
  case (leave res)
  then show ?thesis unfolding leave(1) using tokens_phase [OF t leave(2)]
    by (intro tokens_update [OF t]) (simp_all add: release_slot_def)
qed

lemma tokens_cancel: "cancel_of cmd i w w' \<Longrightarrow> tokens_ok first w \<Longrightarrow> tokens_ok first w'"
  by (erule cancel_shape, simp only:, rule tokens_update) (auto simp: phase_ok_no_result)

lemma queue_cancel: "cancel_of cmd i w w' \<Longrightarrow> i < n \<Longrightarrow> queue_ok n w \<Longrightarrow> queue_ok n w'"
  by (erule cancel_shape, simp only:, rule queue_ok_update) simp_all

lemma reached_ok:
  assumes "(mi_event n cmd tmo)\<^sup>*\<^sup>* (start c, {}) x" and "queued_commands c = 0"
  shows "alone (fst x) \<and> queue_ok n (fst x) \<and> tokens_ok (next_token c) (fst x)"
  using assms
proof (induction rule: rtranclp_induct)
  case base
  then show ?case by (simp add: start_def alone_def queue_ok_def tokens_ok_def)
next
  case (step y z)
  from step(2) show ?case
    by cases (use step.IH assms(2) in
      \<open>auto dest: alone_step alone_cancel queue_step queue_cancel tokens_step tokens_cancel\<close>)
qed

section \<open>Every call ends, and with its own answer\<close>

lemma calls_end:
  assumes "(mi_event n cmd tmo)\<^sup>*\<^sup>* (start c, {}) (w, given_up)" and "queued_commands c = 0"
    and "\<nexists>w'. mi_step n cmd tmo w w'"
  shows "(\<forall>i < n. returned (phases w i)) \<and> queued_commands (ctl w) = 0 \<and> holder w = None"
proof -
  have ok: "alone w" "queue_ok n w" using reached_ok [OF assms(1,2)] by simp_all
  then have r: "\<forall>i < n. returned (phases w i)" using progress [where n = n and w = w and cmd = cmd and tmo = tmo] assms(3) unfolding alone_def by metis
  have "\<not> inside (phases w i)" for i
  proof (cases "i < n")
    case True
    then show ?thesis using r by (cases "phases w i") auto
  qed (use ok(2) in \<open>simp add: queue_ok_def\<close>)
  then have "holder w = None" using ok(1) inside_locked by (cases "holder w") (auto simp: alone_def)
  then show ?thesis using r ok \<open>\<And>i. \<not> inside (phases w i)\<close> by (simp add: queue_ok_def)
qed

lemma own_answers:
  assumes "(mi_event n cmd tmo)\<^sup>*\<^sup>* (start c, {}) (w, given_up)" and "queued_commands c = 0"
    and "phases w i = Returned (Inr r)"
  shows "\<exists>tok. token (result_record r) = Some tok \<and> token_at (next_token c) (order w) i tok"
  using reached_ok [OF assms(1,2)] tokens_phase [of "next_token c" w i] assms(3)
  by (fastforce simp: own_answer_def)

lemma token_at_inj: "distinct is \<Longrightarrow> token_at first is i tok \<Longrightarrow> token_at first is j tok' \<Longrightarrow> (i = j \<longleftrightarrow> tok = tok')"
  by (auto simp: token_at_def nth_eq_iff_index_eq)

end
