(* ===== verification/Tool_Registry.thy ===== *)
theory Tool_Registry
  imports Safety_Policy
begin

text \<open>
  The registry of the tools (\<open>mcp_server/tools.py\<close>): the static table of names, operations,
  permissions and time limits that \<open>list_supported_tools\<close> shows to a client, and the lookup by
  name. The lemmas compare the table with the policy engine, which never reads it, and with the
  permissions that \<open>docs/tool-contracts.md\<close> gives.
\<close>

record tool_definition =
  td_name :: string
  td_operation :: debug_operation
  td_permission :: permission_level
  td_timeout_ms :: int
  td_description :: string

definition tool_def ::
  "string \<Rightarrow> debug_operation \<Rightarrow> permission_level \<Rightarrow> int \<Rightarrow> string \<Rightarrow> tool_definition" where
  "tool_def n op p t d =
     \<lparr>td_name = n, td_operation = op, td_permission = p, td_timeout_ms = t, td_description = d\<rparr>"

definition default_tools :: "tool_definition list" where
  "default_tools =
     [tool_def ''connect_target'' OP_CONNECT_TARGET CONFIRM_REQUIRED 30000
        ''Connect to a GDB-compatible target.'',
      tool_def ''disconnect_target'' OP_DISCONNECT_TARGET CONFIRM_REQUIRED 5000
        ''Disconnect from a target.'',
      tool_def ''halt'' OP_HALT CONFIRM_REQUIRED 2000 ''Interrupt target execution.'',
      tool_def ''resume'' OP_RESUME CONFIRM_REQUIRED 1000
        ''Resume target execution with a bounded timeout.'',
      tool_def ''step_instruction'' OP_STEP_INSTRUCTION CONFIRM_REQUIRED 5000
        ''Step one target instruction.'',
      tool_def ''reset_target'' OP_RESET_TARGET CONFIRM_REQUIRED 10000
        ''Reset the target through the active backend policy.'',
      tool_def ''read_registers'' OP_READ_REGISTERS READONLY 3000 ''Read target registers.'',
      tool_def ''read_memory'' OP_READ_MEMORY READONLY 3000 ''Read target memory bytes.'',
      tool_def ''write_memory'' OP_WRITE_MEMORY FULL_CONTROL 3000
        ''Write target memory bytes when explicitly enabled.'',
      tool_def ''set_breakpoint'' OP_SET_BREAKPOINT CONFIRM_REQUIRED 3000
        ''Set a target breakpoint.'',
      tool_def ''clear_breakpoint'' OP_CLEAR_BREAKPOINT CONFIRM_REQUIRED 3000
        ''Clear a target breakpoint.'',
      tool_def ''debug_snapshot'' OP_DEBUG_SNAPSHOT READONLY 5000
        ''Capture a structured debug snapshot.'',
      tool_def ''analyze_fault'' OP_ANALYZE_FAULT READONLY 5000 ''Analyze Cortex-M fault state.'',
      tool_def ''compare_snapshots'' OP_COMPARE_SNAPSHOTS READONLY 5000
        ''Compare two captured debug snapshots.'',
      tool_def ''explain_current_state'' OP_EXPLAIN_CURRENT_STATE READONLY 5000
        ''Explain current target state from a snapshot.'',
      tool_def ''inspect_peripheral'' OP_INSPECT_PERIPHERAL READONLY 5000
        ''Decode peripheral registers using a local SVD file.'',
      tool_def ''suggest_next_debug_steps'' OP_SUGGEST_NEXT_DEBUG_STEPS READONLY 5000
        ''Suggest conservative next debugging steps.'']"

type_synonym registry = "tool_definition dict"

definition new_registry :: registry where
  "new_registry = dict_of (map (\<lambda>t. (td_name t, t)) default_tools)"

definition registry_get :: "registry \<Rightarrow> string \<Rightarrow> tool_definition res" where
  "registry_get reg name =
     (case dict_get reg name of None \<Rightarrow> Inl (Exc KeyError (py_repr name)) | Some t \<Rightarrow> Inr t)"

definition registry_list :: "registry \<Rightarrow> tool_definition list" where
  "registry_list reg = List.map_filter (dict_get reg) (sorted_keys reg)"

section \<open>The table agrees with the policy\<close>

text \<open>One tool per operation, under the operation's own name.\<close>

lemma default_tools_names: "\<forall>t \<in> set default_tools. td_name t = operation_value (td_operation t)"
  by (simp add: default_tools_def tool_def_def)

lemma default_tools_operations: "distinct (map td_operation default_tools)"
  by (simp add: default_tools_def tool_def_def)

lemma operation_value_inj: "operation_value a = operation_value b \<longleftrightarrow> a = b"
  by (cases a; cases b) simp_all

lemma default_tools_distinct: "distinct (map td_name default_tools)"
  using default_tools_operations default_tools_names operation_value_inj
  by (simp add: distinct_map inj_on_def)

lemma default_tools_complete: "\<exists>t \<in> set default_tools. td_operation t = op"
  by (cases op) (simp_all add: default_tools_def tool_def_def)

lemma registry_get_default:
  "registry_get new_registry name = Inr t \<longleftrightarrow> t \<in> set default_tools \<and> td_name t = name"
proof -
  let ?d = "map (\<lambda>t. (td_name t, t)) default_tools"
  have ok: "dict_ok ?d" using default_tools_distinct by (simp add: dict_ok_def comp_def)
  then have "dict_get new_registry name = Some t \<longleftrightarrow> (name, t) \<in> set ?d"
    by (simp only: new_registry_def dict_of_id dict_get_iff)
  moreover have "(name, t) \<in> set ?d \<longleftrightarrow> t \<in> set default_tools \<and> td_name t = name" by auto
  ultimately have "dict_get new_registry name = Some t \<longleftrightarrow> t \<in> set default_tools \<and> td_name t = name"
    by simp
  then show ?thesis by (auto simp: registry_get_def split: option.split)
qed

lemma registry_get_unknown: "isl (registry_get new_registry name) \<longleftrightarrow> name \<notin> range operation_value"
proof (cases "registry_get new_registry name")
  case (Inl e)
  have "name \<noteq> operation_value op" for op
  proof
    assume "name = operation_value op"
    moreover obtain t where "t \<in> set default_tools" "td_operation t = op" using default_tools_complete by blast
    ultimately have "registry_get new_registry name = Inr t"
      using default_tools_names by (simp only: registry_get_default)
    with Inl show False by simp
  qed
  with Inl show ?thesis by auto
next
  case (Inr t)
  then have "name = operation_value (td_operation t)"
    using default_tools_names by (auto simp only: registry_get_default)
  with Inr show ?thesis by simp
qed

text \<open>
  The permission of a tool is the least mode in which the policy can allow its operation on a
  target without hardware guardrails, memory writes switched on and a token at hand.
\<close>

definition open_request :: "debug_operation \<Rightarrow> permission_level \<Rightarrow> policy_request" where
  "open_request op mode =
     \<lparr>pr_permission_mode = mode, pr_operation = op, pr_target_class = EMULATOR, pr_production_target = False,
      pr_memory_write_enabled = True, pr_confirmation_token = Some ''token'',
      pr_hardware_operation_allowlist = []\<rparr>"

lemma open_request_permits:
  "permits (open_request op mode) \<longleftrightarrow>
     (if op \<in> read_only_operations then True
      else if op = OP_WRITE_MEMORY then mode = FULL_CONTROL else CONFIRM_REQUIRED \<le> mode)"
  by (cases mode) (auto simp: permits_def open_request_def interlocked_def production_def has_token_def
      hardware_interlock_classes_def less_eq_permission_level_def)

lemma default_tools_permission:
  "\<forall>t \<in> set default_tools. td_permission t =
     (if td_operation t \<in> read_only_operations then READONLY
      else if td_operation t = OP_WRITE_MEMORY then FULL_CONTROL else CONFIRM_REQUIRED)"
  by (simp add: default_tools_def tool_def_def read_only_operations_def)

text \<open>The permissions that the tool contracts document (for \<open>connect_target\<close>, on hardware).\<close>

primrec documented_permission :: "debug_operation \<Rightarrow> permission_level" where
  "documented_permission OP_CONNECT_TARGET = CONFIRM_REQUIRED"
| "documented_permission OP_DISCONNECT_TARGET = CONFIRM_REQUIRED"
| "documented_permission OP_HALT = CONFIRM_REQUIRED"
| "documented_permission OP_RESUME = CONFIRM_REQUIRED"
| "documented_permission OP_STEP_INSTRUCTION = CONFIRM_REQUIRED"
| "documented_permission OP_RESET_TARGET = CONFIRM_REQUIRED"
| "documented_permission OP_READ_REGISTERS = READONLY"
| "documented_permission OP_READ_MEMORY = READONLY"
| "documented_permission OP_WRITE_MEMORY = FULL_CONTROL"
| "documented_permission OP_SET_BREAKPOINT = CONFIRM_REQUIRED"
| "documented_permission OP_CLEAR_BREAKPOINT = CONFIRM_REQUIRED"
| "documented_permission OP_DEBUG_SNAPSHOT = READONLY"
| "documented_permission OP_ANALYZE_FAULT = READONLY"
| "documented_permission OP_INSPECT_PERIPHERAL = READONLY"
| "documented_permission OP_COMPARE_SNAPSHOTS = READONLY"
| "documented_permission OP_EXPLAIN_CURRENT_STATE = READONLY"
| "documented_permission OP_SUGGEST_NEXT_DEBUG_STEPS = READONLY"

lemma default_tools_documented: "\<forall>t \<in> set default_tools. td_permission t = documented_permission (td_operation t)"
  by (simp add: default_tools_def tool_def_def)

text \<open>Attaching to an emulator, which the contracts allow in readonly mode, needs more.\<close>

lemma emulator_attach_refused: "\<not> pd_allowed (evaluate (open_request OP_CONNECT_TARGET READONLY))"
  by code_simp

lemma registry_permission:
  assumes "t \<in> set default_tools"
  shows "pd_allowed (evaluate (open_request (td_operation t) mode)) \<longleftrightarrow> td_permission t \<le> mode"
  using default_tools_permission assms
  by (cases mode) (auto simp: evaluate_allows open_request_permits less_eq_permission_level_def)

end
