(* ===== verification/Lab_Inventory.thy ===== *)
theory Lab_Inventory
  imports Safety_Policy
begin

text \<open>
  The lab inventory (\<open>lab/inventory.py\<close>, and the adapters of \<open>lab/interfaces.py\<close>): targets by id and leases on them that expire. The
  lock id (\<open>uuid4\<close>) and the clock readings are arguments; times are rationals. The invariant
  \<open>inventory_ok\<close>: targets and locks are stored under their target's id, and no two locks share
  their id. \<open>lease_step\<close> is any use of the inventory by its clients.
\<close>

record lab_target =
  lt_target_id :: string
  lt_backend :: backend_kind
  lt_endpoint :: string
  lt_profile :: string
  lt_target_class :: target_class

record target_lock =
  lk_lock_id :: string
  lk_target_id :: string
  lk_owner :: string
  lk_expires_at :: rat

definition lock_expired :: "target_lock \<Rightarrow> rat \<Rightarrow> bool" where
  "lock_expired lock now \<longleftrightarrow> lk_expires_at lock \<le> now"

record inventory =
  inv_targets :: "lab_target dict"
  inv_locks :: "target_lock dict"

definition new_inventory :: "lab_target list \<Rightarrow> inventory" where
  "new_inventory ts = \<lparr>inv_targets = dict_of (map (\<lambda>t. (lt_target_id t, t)) ts), inv_locks = []\<rparr>"

definition add_target :: "lab_target \<Rightarrow> (inventory, unit) prog" where
  "add_target t = modify (\<lambda>ivt. ivt\<lparr>inv_targets := dict_set (lt_target_id t) t (inv_targets ivt)\<rparr>)"

definition list_targets :: "inventory \<Rightarrow> lab_target list" where
  "list_targets ivt = List.map_filter (dict_get (inv_targets ivt)) (sorted_keys (inv_targets ivt))"

text \<open>\<open>acquire\<close>: \<open>now\<close> is the clock at the check, \<open>now'\<close> at the grant. \<open>RuntimeError\<close> is not caught anywhere.\<close>

definition acquire :: "string \<Rightarrow> rat \<Rightarrow> rat \<Rightarrow> string \<Rightarrow> string \<Rightarrow> int \<Rightarrow> (inventory, target_lock) prog" where
  "acquire fresh now now' target_id owner ttl_seconds ivt =
     (if dict_get (inv_targets ivt) target_id = None
      then (Inl (Exc KeyError (py_repr (''target not found: '' @ target_id))), ivt)
      else
        (let lock = \<lparr>lk_lock_id = fresh, lk_target_id = target_id, lk_owner = owner,
                     lk_expires_at = now' + of_int ttl_seconds\<rparr>;
             granted = (Inr lock, ivt\<lparr>inv_locks := dict_set target_id lock (inv_locks ivt)\<rparr>)
         in (case dict_get (inv_locks ivt) target_id of
               None \<Rightarrow> granted
             | Some existing \<Rightarrow>
                 if \<not> lock_expired existing now
                 then (Inl (Exc RuntimeError (''target is already locked by '' @ lk_owner existing)), ivt)
                 else granted)))"

definition release_lock :: "string \<Rightarrow> (inventory, unit) prog" where
  "release_lock lock_id ivt =
     (case List.find (\<lambda>(k, lock). lk_lock_id lock = lock_id) (inv_locks ivt) of
        None \<Rightarrow> (Inl (Exc KeyError (py_repr (''lock not found: '' @ lock_id))), ivt)
      | Some (k, lock) \<Rightarrow> (Inr (), ivt\<lparr>inv_locks := dict_del k (inv_locks ivt)\<rparr>))"

section \<open>Lab adapters\<close>

text \<open>
  The in-memory adapters of \<open>lab/interfaces.py\<close>: a serial capture that keeps the lines it is
  given, whether started or not, and a power controller that records the requested actions.
\<close>

record serial_capture =
  cap_started :: bool
  cap_lines :: "string list"

definition new_serial_capture :: serial_capture where
  "new_serial_capture = \<lparr>cap_started = False, cap_lines = []\<rparr>"

definition start_capture :: "(serial_capture, unit) prog" where
  "start_capture = modify (\<lambda>c. c\<lparr>cap_started := True\<rparr>)"

definition stop_capture :: "(serial_capture, unit) prog" where
  "stop_capture = modify (\<lambda>c. c\<lparr>cap_started := False\<rparr>)"

definition read_lines :: "(serial_capture, string list) prog" where
  "read_lines c = (Inr (cap_lines c), c)"

definition append_line :: "string \<Rightarrow> (serial_capture, unit) prog" where
  "append_line line = modify (\<lambda>c. c\<lparr>cap_lines := cap_lines c @ [line]\<rparr>)"

datatype power_action = PowerOn | PowerOff | PowerCycle

primrec action_value :: "power_action \<Rightarrow> string" where
  "action_value PowerOn = ''on''"
| "action_value PowerOff = ''off''"
| "action_value PowerCycle = ''cycle''"

type_synonym power_controller = "string list"

definition power :: "power_action \<Rightarrow> (power_controller, unit) prog" where
  "power a = modify (\<lambda>actions. actions @ [action_value a])"

text \<open>The capture reads back the appended lines in order, across starts and stops.\<close>

lemma capture_reads_back:
  "fst (read_lines (snd (append_line l c))) = map_sum id (\<lambda>ls. ls @ [l]) (fst (read_lines c))"
  "fst (read_lines (snd (start_capture c))) = fst (read_lines c)"
  "fst (read_lines (snd (stop_capture c))) = fst (read_lines c)"
  by (simp_all add: read_lines_def append_line_def start_capture_def stop_capture_def modify_def)

lemma power_records:
  "fold (\<lambda>a c. snd (power a c)) as c = c @ map action_value as"
  by (induction as arbitrary: c) (simp_all add: power_def modify_def)

section \<open>The invariant\<close>

definition lock_ids :: "inventory \<Rightarrow> string list" where
  "lock_ids ivt = map (\<lambda>(k, lock). lk_lock_id lock) (inv_locks ivt)"

definition inventory_ok :: "inventory \<Rightarrow> bool" where
  "inventory_ok ivt \<longleftrightarrow>
     dict_ok (inv_targets ivt) \<and> (\<forall>(k, t) \<in> set (inv_targets ivt). lt_target_id t = k)
     \<and> dict_ok (inv_locks ivt) \<and> (\<forall>(k, lock) \<in> set (inv_locks ivt). lk_target_id lock = k)
     \<and> distinct (lock_ids ivt)"

lemma set_dict_of: "set (dict_of kvs) \<subseteq> set kvs"
proof
  fix kv assume "kv \<in> set (dict_of kvs)"
  then have "dict_get (dict_of kvs) (fst kv) = Some (snd kv)" by (metis dict_get_iff dict_ok_of prod.collapse)
  then show "kv \<in> set kvs" using map_of_SomeD [of "rev kvs" "fst kv" "snd kv"] by (simp add: dict_get_of)
qed

lemma new_inventory_ok: "inventory_ok (new_inventory ts)"
  using set_dict_of [of "map (\<lambda>t. (lt_target_id t, t)) ts"]
  by (auto simp: inventory_ok_def new_inventory_def lock_ids_def)

lemma keeps_add_target [keeps_intros]: "keeps inventory_ok (add_target t)"
  unfolding add_target_def
proof (rule keeps_modify)
  fix ivt assume "inventory_ok ivt"
  then show "inventory_ok (ivt\<lparr>inv_targets := dict_set (lt_target_id t) t (inv_targets ivt)\<rparr>)"
    using set_dict_set [of "lt_target_id t" t "inv_targets ivt"]
    by (auto simp: inventory_ok_def lock_ids_def)
qed

lemma find_lock:
  assumes "List.find (\<lambda>(k, lock). lk_lock_id lock = i) d = Some (k, lock)"
  shows "(k, lock) \<in> set d \<and> lk_lock_id lock = i"
proof -
  obtain n where "n < length d" "(case d ! n of (k, lock) \<Rightarrow> lk_lock_id lock = i)" "(k, lock) = d ! n"
    using assms by (auto simp: find_Some_iff)
  then show ?thesis using nth_mem [of n d] by (metis case_prod_conv)
qed

lemma dict_del_subset: "set (dict_del k d) \<subseteq> set d"
  by (auto simp: dict_del_def)

lemma keeps_release_lock [keeps_intros]: "keeps inventory_ok (release_lock i)"
proof (rule keepsI)
  fix ivt assume ok: "inventory_ok ivt"
  have "distinct (map (\<lambda>(k, lock). lk_lock_id lock) (dict_del k (inv_locks ivt)))" for k
    using ok by (auto simp: inventory_ok_def lock_ids_def dict_del_def distinct_map_filter)
  then have "inventory_ok (ivt\<lparr>inv_locks := dict_del k (inv_locks ivt)\<rparr>)" for k
    using ok dict_del_subset [of k "inv_locks ivt"] by (auto simp: inventory_ok_def lock_ids_def)
  then show "inventory_ok (snd (release_lock i ivt))"
    using ok by (simp add: release_lock_def split: option.split prod.split)
qed

lemma keeps_acquire:
  assumes "inventory_ok ivt" and "fresh \<notin> set (lock_ids ivt)"
  shows "inventory_ok (snd (acquire fresh now now' tid owner ttl ivt))"
proof -
  have "inventory_ok (ivt\<lparr>inv_locks := dict_set tid lock (inv_locks ivt)\<rparr>)"
    if "lk_lock_id lock = fresh" "lk_target_id lock = tid" for lock
  proof -
    have fresh: "\<forall>(k, l) \<in> set (inv_locks ivt). lk_lock_id l \<noteq> fresh"
      using assms(2) by (auto simp: lock_ids_def)
    have "distinct (map (\<lambda>(k, l). lk_lock_id l) (dict_set tid lock d))"
      if "distinct (map (\<lambda>(k, l). lk_lock_id l) d)" "\<forall>(k, l) \<in> set d. lk_lock_id l \<noteq> fresh" for d
      using that \<open>lk_lock_id lock = fresh\<close> set_dict_set [of tid lock]
      by (induction d) (fastforce split: prod.splits)+
    then show ?thesis
      using assms(1) fresh that set_dict_set [of tid lock "inv_locks ivt"]
      by (auto simp: inventory_ok_def lock_ids_def)
  qed
  then show ?thesis using assms(1) by (simp add: acquire_def Let_def split: option.split)
qed

section \<open>Leases exclude each other\<close>

text \<open>A lease is granted exactly when the target exists and no unexpired lock is on it.\<close>

lemma acquire_granted:
  "\<not> isl (fst (acquire fresh now now' tid owner ttl ivt)) \<longleftrightarrow>
     dict_get (inv_targets ivt) tid \<noteq> None
     \<and> (\<forall>l. dict_get (inv_locks ivt) tid = Some l \<longrightarrow> lk_expires_at l \<le> now)"
  by (auto simp: acquire_def Let_def lock_expired_def split: option.split)

lemma acquire_lock:
  "acquire fresh now now' tid owner ttl ivt = (Inr l, ivt') \<Longrightarrow>
   dict_get (inv_locks ivt') tid = Some l \<and> lk_lock_id l = fresh \<and> lk_owner l = owner
   \<and> lk_expires_at l = now' + of_int ttl"
  by (auto simp: acquire_def Let_def split: if_splits option.splits)

text \<open>What clients may do while a lease runs: anything but release it. Lock ids are drawn fresh.\<close>

inductive lease_step :: "target_lock \<Rightarrow> inventory \<Rightarrow> inventory \<Rightarrow> bool" for held :: target_lock where
  added: "lease_step held ivt (snd (add_target t ivt))"
| acquired: "now < lk_expires_at held \<Longrightarrow> fresh \<notin> set (lock_ids ivt) \<Longrightarrow>
    lease_step held ivt (snd (acquire fresh now now' tid owner ttl ivt))"
| released: "i \<noteq> lk_lock_id held \<Longrightarrow> lease_step held ivt (snd (release_lock i ivt))"

definition holds_lock :: "target_lock \<Rightarrow> string \<Rightarrow> inventory \<Rightarrow> bool" where
  "holds_lock held tid ivt \<longleftrightarrow> dict_ok (inv_locks ivt) \<and> dict_get (inv_locks ivt) tid = Some held"

lemma lease_step_holds:
  assumes "lease_step held ivt ivt'" and "holds_lock held tid ivt"
  shows "holds_lock held tid ivt'"
  using assms(1)
proof cases
  case (released i)
  have "k \<noteq> tid" if "List.find (\<lambda>(k, lock). lk_lock_id lock = i) (inv_locks ivt) = Some (k, lock)" for k lock
    using find_lock [OF that] assms(2) released(2) dict_get_iff [of "inv_locks ivt" tid lock]
    by (auto simp: holds_lock_def)
  then show ?thesis using assms(2) released
    by (auto simp: holds_lock_def release_lock_def split: option.split prod.split)
next
  case (acquired now fresh now' tid' owner ttl)
  then show ?thesis using assms(2)
    by (cases "tid' = tid") (auto simp: holds_lock_def acquire_def Let_def lock_expired_def split: option.split)
qed (use assms in \<open>auto simp: holds_lock_def add_target_def\<close>)

lemma lease_steps_hold:
  "(lease_step held)\<^sup>*\<^sup>* ivt ivt' \<Longrightarrow> holds_lock held tid ivt \<Longrightarrow> holds_lock held tid ivt'"
  by (induction rule: rtranclp_induct) (auto intro: lease_step_holds)

lemma lease_steps_ok:
  assumes "(lease_step held)\<^sup>*\<^sup>* ivt ivt'" and "inventory_ok ivt"
  shows "inventory_ok ivt'"
  using assms
proof (induction rule: rtranclp_induct)
  case (step a b)
  then have "inventory_ok a" by simp
  with step(2) show ?case
    by cases (use keepsD [OF keeps_add_target] keepsD [OF keeps_release_lock] keeps_acquire in auto)
qed

lemma held_refused:
  "holds_lock held tid ivt \<Longrightarrow> now < lk_expires_at held \<Longrightarrow>
   isl (fst (acquire fresh now now' tid owner ttl ivt)) \<and> snd (acquire fresh now now' tid owner ttl ivt) = ivt"
  by (simp add: holds_lock_def acquire_def Let_def lock_expired_def)

lemma release_frees:
  assumes "inventory_ok ivt" and "holds_lock held tid ivt"
  shows "fst (release_lock (lk_lock_id held) ivt) = Inr ()
    \<and> dict_get (inv_locks (snd (release_lock (lk_lock_id held) ivt))) tid = None"
proof -
  have mem: "(tid, held) \<in> set (inv_locks ivt)" using assms(2) by (auto simp: holds_lock_def dest: map_of_SomeD)
  then obtain k lock where f: "List.find (\<lambda>(k, lock). lk_lock_id lock = lk_lock_id held) (inv_locks ivt) = Some (k, lock)"
    by (cases "List.find (\<lambda>(k, lock). lk_lock_id lock = lk_lock_id held) (inv_locks ivt)")
      (auto simp: find_None_iff)
  have "(k, lock) = (tid, held)"
  proof -
    have "inj_on (\<lambda>(k, lock). lk_lock_id lock) (set (inv_locks ivt))"
      using assms(1) by (simp add: inventory_ok_def lock_ids_def distinct_map)
    then show ?thesis using find_lock [OF f] mem by (auto simp: inj_on_def)
  qed
  then show ?thesis using f by (simp add: release_lock_def)
qed

end
