(* ===== verification/Freertos.thy ===== *)
theory Freertos
  imports Py_Text Py_Dict
begin

text \<open>
  FreeRTOS task lists (\<open>rtos/freertos.py\<close>): decoding of task records and their summary. The
  values of a record are \<open>None\<close>, booleans, integers and strings, with their \<open>str\<close>. The main
  facts: a decoded list has one valid task per record, and the counts of a summary add up.
\<close>

datatype py_object = PyNone | PyBool bool | PyInt int | PyStr string

primrec py_str :: "py_object \<Rightarrow> string" where
  "py_str PyNone = ''None''"
| "py_str (PyBool b) = (if b then ''True'' else ''False'')"
| "py_str (PyInt i) = int_str i"
| "py_str (PyStr s) = s"

datatype task_state = TASK_RUNNING | TASK_READY | TASK_BLOCKED | TASK_SUSPENDED | TASK_DELETED | TASK_UNKNOWN

primrec task_state_value :: "task_state \<Rightarrow> string" where
  "task_state_value TASK_RUNNING = ''running''"
| "task_state_value TASK_READY = ''ready''"
| "task_state_value TASK_BLOCKED = ''blocked''"
| "task_state_value TASK_SUSPENDED = ''suspended''"
| "task_state_value TASK_DELETED = ''deleted''"
| "task_state_value TASK_UNKNOWN = ''unknown''"

text \<open>The members of the enumeration in their order, and the lookup by value.\<close>

definition task_states :: "task_state list" where
  "task_states = [TASK_RUNNING, TASK_READY, TASK_BLOCKED, TASK_SUSPENDED, TASK_DELETED, TASK_UNKNOWN]"

definition task_state_of :: "string \<Rightarrow> task_state res" where
  "task_state_of s =
     (case List.find (\<lambda>st. task_state_value st = s) task_states of
        None \<Rightarrow> Inl (Exc ValueError (py_repr s @ '' is not a valid FreeRTOSTaskState''))
      | Some st \<Rightarrow> Inr st)"

record freertos_task =
  ft_name :: string
  ft_state :: task_state
  ft_priority :: int
  ft_stack_pointer :: "string option"
  ft_stack_high_water_mark :: "int option"
  ft_current :: bool

text \<open>The checks of the model: neither number is negative.\<close>

definition valid_task :: "freertos_task \<Rightarrow> bool" where
  "valid_task t \<longleftrightarrow> 0 \<le> ft_priority t \<and>
     (case ft_stack_high_water_mark t of None \<Rightarrow> True | Some n \<Rightarrow> 0 \<le> n)"

definition mk_task :: "freertos_task \<Rightarrow> freertos_task res" where
  "mk_task t = (if valid_task t then Inr t else Inl (Exc ValidationError ''greater_than_equal''))"

section \<open>Decoding\<close>

definition object_of :: "py_object dict \<Rightarrow> string \<Rightarrow> py_object" where
  "object_of d k = (case dict_get d k of None \<Rightarrow> PyNone | Some v \<Rightarrow> v)"

definition task_int_value :: "py_object \<Rightarrow> int \<Rightarrow> int res" where
  "task_int_value v dflt =
     (if v = PyNone then Inr dflt
      else case py_int0 (py_str v) of
        None \<Rightarrow> Inl (Exc ValueError (''invalid literal for int() with base 0: '' @ py_repr (py_str v)))
      | Some i \<Rightarrow> Inr i)"

definition text_of :: "py_object dict \<Rightarrow> string \<Rightarrow> string \<Rightarrow> string" where
  "text_of d k dflt = (case dict_get d k of None \<Rightarrow> dflt | Some v \<Rightarrow> py_str v)"

text \<open>The arguments of the constructor are evaluated from left to right.\<close>

definition decode_task :: "string option \<Rightarrow> py_object dict \<Rightarrow> freertos_task res" where
  "decode_task current_tcb d =
     (case task_state_of (text_of d ''state'' (task_state_value TASK_UNKNOWN)) of Inl e \<Rightarrow> Inl e | Inr st \<Rightarrow>
     (case task_int_value (object_of d ''priority'') 0 of Inl e \<Rightarrow> Inl e | Inr prio \<Rightarrow>
     (case (if object_of d ''stack_high_water_mark'' = PyNone then Inr None
            else map_sum id Some (task_int_value (object_of d ''stack_high_water_mark'') 0)) of
        Inl e \<Rightarrow> Inl e
      | Inr mark \<Rightarrow>
          mk_task \<lparr>ft_name = text_of d ''name'' ''<unnamed>'', ft_state = st, ft_priority = prio,
            ft_stack_pointer = (if object_of d ''stack_pointer'' = PyNone then None
                                else Some (py_str (object_of d ''stack_pointer''))),
            ft_stack_high_water_mark = mark,
            ft_current = (case current_tcb of
                Some (c # cs) \<Rightarrow> text_of d ''tcb'' [] = c # cs
              | _ \<Rightarrow> False)\<rparr>)))"

fun decode_task_records :: "string option \<Rightarrow> py_object dict list \<Rightarrow> freertos_task list res" where
  "decode_task_records current_tcb [] = Inr []"
| "decode_task_records current_tcb (d # ds) =
     (case decode_task current_tcb d of Inl e \<Rightarrow> Inl e | Inr t \<Rightarrow>
     (case decode_task_records current_tcb ds of Inl e \<Rightarrow> Inl e | Inr ts \<Rightarrow> Inr (t # ts)))"

section \<open>The summary\<close>

record task_summary =
  ts_task_count :: nat
  ts_current_task :: "string option"
  ts_states :: "nat dict"
  ts_low_stack_tasks :: "string list"

definition low_stack :: "freertos_task \<Rightarrow> bool" where
  "low_stack t \<longleftrightarrow> (case ft_stack_high_water_mark t of None \<Rightarrow> False | Some n \<Rightarrow> n < 32)"

definition count_state :: "freertos_task list \<Rightarrow> task_state \<Rightarrow> nat" where
  "count_state ts st = length (filter (\<lambda>t. ft_state t = st) ts)"

definition summarize_tasks :: "freertos_task list \<Rightarrow> task_summary" where
  "summarize_tasks ts =
     \<lparr>ts_task_count = length ts, ts_current_task = map_option ft_name (List.find ft_current ts),
      ts_states = map (\<lambda>st. (task_state_value st, count_state ts st))
        (filter (\<lambda>st. \<exists>t \<in> set ts. ft_state t = st) task_states),
      ts_low_stack_tasks = map ft_name (filter low_stack ts)\<rparr>"

section \<open>Facts\<close>

lemma task_state_value_inj: "task_state_value a = task_state_value b \<longleftrightarrow> a = b"
  by (cases a; cases b) simp_all

lemma set_task_states: "set task_states = UNIV" "distinct task_states"
proof -
  have "st \<in> set task_states" for st by (cases st) (simp_all add: task_states_def)
  then show "set task_states = UNIV" by auto
  show "distinct task_states" by (simp add: task_states_def)
qed

lemma task_state_roundtrip: "task_state_of (task_state_value st) = Inr st"
  by (cases st) (simp_all add: task_state_of_def task_states_def)

lemma decode_task_valid: "decode_task c d = Inr t \<Longrightarrow> valid_task t"
  by (auto simp: decode_task_def mk_task_def split: sum.splits if_splits)

lemma decode_records:
  assumes "decode_task_records c ds = Inr ts"
  shows "length ts = length ds \<and> (\<forall>t \<in> set ts. valid_task t) \<and> list_all2 (\<lambda>d t. decode_task c d = Inr t) ds ts"
  using assms
  by (induction ds arbitrary: ts) (auto split: sum.splits dest: decode_task_valid)

text \<open>Without a current task control block no task is current.\<close>

lemma decode_no_current:
  assumes "decode_task c d = Inr t" and "c = None \<or> c = Some []"
  shows "\<not> ft_current t"
  using assms by (auto simp: decode_task_def mk_task_def split: sum.splits if_splits)

lemma count_state_sum: "(\<Sum>st \<in> UNIV. count_state ts st) = length ts"
proof (induction ts)
  case Nil
  show ?case by (simp add: count_state_def)
next
  case (Cons t ts)
  have "count_state (t # ts) st = (if st = ft_state t then 1 else 0) + count_state ts st" for st
    by (auto simp: count_state_def)
  moreover have "finite (UNIV :: task_state set)" using set_task_states(1) by (metis finite_set)
  ultimately show ?case using Cons by (simp add: sum.distrib sum.delta)
qed

lemma states_counted:
  "sum_list (map snd (ts_states (summarize_tasks ts))) = length ts"
proof -
  let ?P = "\<lambda>st. \<exists>t \<in> set ts. ft_state t = st"
  have z: "count_state ts st = 0" if "\<not> ?P st" for st
    using that by (auto simp: count_state_def filter_empty_conv)
  have "sum_list (map (count_state ts) (filter ?P task_states)) = sum_list (map (count_state ts) task_states)"
    by (rule sum_list_map_filter) (use z in blast)
  also have "\<dots> = (\<Sum>st \<in> UNIV. count_state ts st)"
    using set_task_states by (simp add: sum_list_distinct_conv_sum_set)
  finally show ?thesis by (simp add: summarize_tasks_def count_state_sum comp_def)
qed

lemma states_get:
  "dict_get (ts_states (summarize_tasks ts)) (task_state_value st) =
     (if count_state ts st = 0 then None else Some (count_state ts st))"
proof -
  let ?d = "ts_states (summarize_tasks ts)"
  have "dict_ok ?d"
    using set_task_states(2) task_state_value_inj
    by (auto simp: dict_ok_def summarize_tasks_def comp_def distinct_map inj_on_def)
  moreover have "(task_state_value st, n) \<in> set ?d \<longleftrightarrow> n = count_state ts st \<and> count_state ts st \<noteq> 0" for n
    using set_task_states(1) task_state_value_inj
    by (auto simp: summarize_tasks_def count_state_def filter_empty_conv)
  ultimately have "dict_get ?d (task_state_value st) = Some n \<longleftrightarrow> n = count_state ts st \<and> count_state ts st \<noteq> 0" for n
    by (simp add: dict_get_iff)
  then show ?thesis by (cases "dict_get ?d (task_state_value st)") auto
qed

end
