(* ===== verification/Command_Line.thy ===== *)
theory Command_Line
  imports Configuration
begin

text \<open>
  The command line (\<open>cli.py\<close>): the loading of the configuration, the start of the server and
  the checks of \<open>doctor\<close>. Printing is a list of lines; reading a TOML file, the search for an
  executable, the expansion of a path and the file system are parameters.
\<close>

definition load_or_default :: "(string \<Rightarrow> probe_config res) \<Rightarrow> string option \<Rightarrow> probe_config res" where
  "load_or_default load_config config_path =
     (case config_path of None \<Rightarrow> Inr default_config | Some p \<Rightarrow> load_config p)"

definition transports :: "string list" where
  "transports = [''stdio'', ''sse'', ''streamable-http'']"

text \<open>\<open>serve\<close>: the service that is run and the transport it is run on.\<close>

definition serve_command ::
  "(string \<Rightarrow> probe_config res) \<Rightarrow> (string \<Rightarrow> audit_event list) \<Rightarrow> environment \<Rightarrow> string option \<Rightarrow> string
   \<Rightarrow> (service \<times> string) res" where
  "serve_command load_config log_file env config transport =
     (if transport \<notin> set transports
      then Inl (Exc BadParameter ''transport must be stdio, sse, or streamable-http'')
      else case load_or_default load_config config of
        Inl e \<Rightarrow> Inl e
      | Inr loaded \<Rightarrow>
          let existing = (case sc_audit_log_path (pc_server loaded) of None \<Rightarrow> [] | Some p \<Rightarrow> log_file p)
          in Inr (create_tool_service env existing loaded, transport))"

record host =
  hs_which :: "string \<Rightarrow> string option"
  hs_parent :: "string \<Rightarrow> string"
  hs_exists :: "string \<Rightarrow> bool"
  hs_is_dir :: "string \<Rightarrow> bool"

definition target_problems :: "host \<Rightarrow> target_profile dict \<Rightarrow> string list" where
  "target_problems h targets =
     map (\<lambda>(name, t). ''target '' @ name @ '': gdb executable not found: '' @ tp_gdb_path t)
       (filter (\<lambda>(name, t). hs_which h (tp_gdb_path t) = None) targets)"

definition target_line :: "string \<Rightarrow> target_profile \<Rightarrow> string" where
  "target_line name t = ''target '' @ name @ '': backend='' @ backend_value (tp_backend t) @ '' endpoint='' @
     (case tp_endpoint t of None \<Rightarrow> ''None'' | Some e \<Rightarrow> e)"

definition audit_parent_bad :: "host \<Rightarrow> string \<Rightarrow> bool" where
  "audit_parent_bad h p \<longleftrightarrow> hs_exists h (hs_parent h p) \<and> \<not> hs_is_dir h (hs_parent h p)"

definition doctor_problems :: "host \<Rightarrow> probe_config \<Rightarrow> string list" where
  "doctor_problems h c = target_problems h (pc_targets c) @
     (case sc_audit_log_path (pc_server c) of
        None \<Rightarrow> []
      | Some p \<Rightarrow> if audit_parent_bad h p
          then [''audit path parent is not a directory: '' @ hs_parent h p] else [])"

text \<open>The printed lines and the exit code.\<close>

definition doctor :: "host \<Rightarrow> (string \<Rightarrow> probe_config res) \<Rightarrow> string option \<Rightarrow> string list \<times> int" where
  "doctor h load_config config =
     (case load_or_default load_config config of
        Inl e \<Rightarrow> ([''config: failed: '' @ exc_msg e], 1)
      | Inr c \<Rightarrow>
          let report = [''config: ok schema_version='' @ int_str (pc_schema_version c)] @
                (if pc_targets c = [] then [''targets: none configured''] else []) @
                map (\<lambda>(name, t). target_line name t) (pc_targets c) @
                (case sc_audit_log_path (pc_server c) of
                   None \<Rightarrow> []
                 | Some p \<Rightarrow> if audit_parent_bad h p then [] else [''audit: ok path='' @ p]);
              problems = doctor_problems h c
          in if problems \<noteq> [] then (report @ map (\<lambda>p. ''failed: '' @ p) problems, 1)
             else (report @ [''doctor: ok''], 0))"

text \<open>The doctor passes exactly when the configuration loads, every GDB is found and the log can be placed.\<close>

lemma doctor_passes:
  "snd (doctor h load_config config) = 0 \<longleftrightarrow>
     (\<exists>c. load_or_default load_config config = Inr c
        \<and> (\<forall>(name, t) \<in> set (pc_targets c). hs_which h (tp_gdb_path t) \<noteq> None)
        \<and> (\<forall>p. sc_audit_log_path (pc_server c) = Some p \<longrightarrow> \<not> audit_parent_bad h p))"
  by (auto simp: doctor_def doctor_problems_def target_problems_def filter_empty_conv Let_def
      split_beta split: sum.split option.split)

lemma serve_command_service:
  "serve_command load_config log_file env config transport = Inr (sv, t) \<longleftrightarrow>
     transport \<in> set transports \<and> t = transport
     \<and> (\<exists>c. load_or_default load_config config = Inr c
          \<and> sv = create_tool_service env
                (case sc_audit_log_path (pc_server c) of None \<Rightarrow> [] | Some p \<Rightarrow> log_file p) c)"
  by (auto simp: serve_command_def Let_def split: sum.split)

end
