(* ===== verification/Application.thy ===== *)
theory Application
  imports Tool_Registry Configuration Service_Properties
begin

text \<open>
  The MCP application (\<open>mcp_server/app.py\<close>): what each tool function makes of its arguments, and
  the resources. A tool function converts the texts of enumerations (\<open>ValueError\<close>), builds the
  request, which the models validate (\<open>ValidationError\<close>), and hands it to the service with the
  confirmation token; the reading tools have no token to hand on. FastMCP's own checks of
  argument types and the JSON text of a result are outside. The JSON of an audit event and the
  JSON Schemas of the models (\<open>schemas_export.py\<close>) are pydantic's, and parameters.

  \<open>app_serve\<close> is any sequence of such calls. The composition theorem: it is a sequence of calls of
  the service on valid requests, so every property of \<open>serve\<close> holds of the application.
\<close>

section \<open>Enumerations by value\<close>

definition enum_of :: "('a \<Rightarrow> string) \<Rightarrow> 'a list \<Rightarrow> string \<Rightarrow> 'a res" where
  "enum_of val members s =
     (case List.find (\<lambda>x. val x = s) members of
        None \<Rightarrow> Inl (Exc ValueError (py_repr s @ '' is not a valid member''))
      | Some x \<Rightarrow> Inr x)"

lemma enum_of_member: "enum_of val members s = Inr x \<Longrightarrow> val x = s"
  by (auto simp: enum_of_def find_Some_iff split: option.splits)

definition backend_kind_of_value :: "string \<Rightarrow> backend_kind res" where
  "backend_kind_of_value = enum_of backend_value [GENERIC_REMOTE, QEMU, OPENOCD, JLINK, PYOCD]"

section \<open>The tool functions\<close>

text \<open>Building the request validates it; then the service is called.\<close>

definition send_request :: "tool_request \<Rightarrow> string option \<Rightarrow> (service, tool_result) prog" where
  "send_request r tok = andthen (lift_res (validated r)) (\<lambda>r. call_tool r tok)"

definition app_connect_target ::
  "string \<Rightarrow> string option \<Rightarrow> string \<Rightarrow> string option \<Rightarrow> string \<Rightarrow> int \<Rightarrow> string option \<Rightarrow> (service, tool_result) prog" where
  "app_connect_target backend endpoint gdb_path elf_path profile timeout_ms tok =
     andthen (lift_res (backend_kind_of_value backend)) (\<lambda>b.
     send_request (ConnectTarget \<lparr>ct_backend = b, ct_gdb_path = gdb_path, ct_elf_path = elf_path,
         ct_endpoint = endpoint, ct_profile = profile, ct_timeout_ms = timeout_ms\<rparr>) tok)"

definition app_disconnect_target ::
  "string \<Rightarrow> bool \<Rightarrow> int \<Rightarrow> string option \<Rightarrow> (service, tool_result) prog" where
  "app_disconnect_target sid kill_backend timeout_ms tok =
     send_request (DisconnectTarget \<lparr>dt_session_id = sid, dt_kill_backend = kill_backend, dt_timeout_ms = timeout_ms\<rparr>) tok"

definition app_halt ::
  "string \<Rightarrow> int \<Rightarrow> string option \<Rightarrow> (service, tool_result) prog" where
  "app_halt sid timeout_ms tok =
     send_request (Halt \<lparr>ht_session_id = sid, ht_timeout_ms = timeout_ms\<rparr>) tok"

definition app_resume ::
  "string \<Rightarrow> int \<Rightarrow> bool \<Rightarrow> string option \<Rightarrow> (service, tool_result) prog" where
  "app_resume sid max_run_ms auto_interrupt tok =
     send_request (Resume \<lparr>rs_session_id = sid, rs_max_run_ms = max_run_ms, rs_auto_interrupt = auto_interrupt\<rparr>) tok"

definition app_step_instruction ::
  "string \<Rightarrow> int \<Rightarrow> int \<Rightarrow> string option \<Rightarrow> (service, tool_result) prog" where
  "app_step_instruction sid count timeout_ms tok =
     send_request (StepInstruction \<lparr>si_session_id = sid, si_count = count, si_timeout_ms = timeout_ms\<rparr>) tok"

definition app_reset_target ::
  "string \<Rightarrow> string \<Rightarrow> int \<Rightarrow> string option \<Rightarrow> (service, tool_result) prog" where
  "app_reset_target sid mode timeout_ms tok =
     andthen (lift_res (enum_of reset_value [RESET_HALT, RESET_RUN] mode)) (\<lambda>m.
     send_request (ResetTarget \<lparr>rt_session_id = sid, rt_mode = m, rt_timeout_ms = timeout_ms\<rparr>) tok)"

definition app_read_registers ::
  "string \<Rightarrow> string \<Rightarrow> (service, tool_result) prog" where
  "app_read_registers sid grp =
     andthen (lift_res (enum_of group_value [GROUP_CORE, GROUP_FAULT, GROUP_ALL] grp)) (\<lambda>g.
     send_request (ReadRegisters \<lparr>rr_session_id = sid, rr_group = g\<rparr>) None)"

definition app_read_memory ::
  "string \<Rightarrow> string \<Rightarrow> int \<Rightarrow> int \<Rightarrow> int \<Rightarrow> (service, tool_result) prog" where
  "app_read_memory sid address len width timeout_ms =
     send_request (ReadMemory \<lparr>rm_session_id = sid, rm_address = address, rm_length = len, rm_width = width,
         rm_timeout_ms = timeout_ms\<rparr>) None"

definition app_write_memory ::
  "string \<Rightarrow> string \<Rightarrow> string \<Rightarrow> string option \<Rightarrow> int \<Rightarrow> string option \<Rightarrow> (service, tool_result) prog" where
  "app_write_memory sid address data_hex expected_old_hex timeout_ms tok =
     send_request (WriteMemory \<lparr>wm_session_id = sid, wm_address = address, wm_data_hex = data_hex,
         wm_expected_old_hex = expected_old_hex, wm_timeout_ms = timeout_ms\<rparr>) tok"

text \<open>A location is a model of its own, built first.\<close>

definition location_of :: "string \<Rightarrow> string \<Rightarrow> breakpoint_location res" where
  "location_of kind v =
     (case enum_of location_kind_value [LOC_SYMBOL, LOC_ADDRESS, LOC_FILE_LINE] kind of
        Inl e \<Rightarrow> Inl (Exc ValidationError ''literal_error'')
      | Inr k \<Rightarrow> if v = [] then Inl (Exc ValidationError ''string_too_short'')
                 else Inr \<lparr>loc_kind = k, loc_value = v\<rparr>)"

definition app_set_breakpoint ::
  "string \<Rightarrow> string \<Rightarrow> string \<Rightarrow> string \<Rightarrow> bool \<Rightarrow> int \<Rightarrow> string option \<Rightarrow> (service, tool_result) prog" where
  "app_set_breakpoint sid kind location bp_type temporary timeout_ms tok =
     andthen (lift_res (location_of kind location)) (\<lambda>l.
     andthen (lift_res (enum_of breakpoint_type_value [HARDWARE, SOFTWARE] bp_type)) (\<lambda>ty.
     send_request (SetBreakpoint \<lparr>sb_session_id = sid, sb_location = l, sb_type = ty, sb_temporary = temporary,
         sb_timeout_ms = timeout_ms\<rparr>) tok))"

definition app_clear_breakpoint ::
  "string \<Rightarrow> string \<Rightarrow> int \<Rightarrow> string option \<Rightarrow> (service, tool_result) prog" where
  "app_clear_breakpoint sid breakpoint_id timeout_ms tok =
     send_request (ClearBreakpoint \<lparr>cb_session_id = sid, cb_breakpoint_id = breakpoint_id, cb_timeout_ms = timeout_ms\<rparr>) tok"

definition app_debug_snapshot ::
  "string \<Rightarrow> string \<Rightarrow> bool \<Rightarrow> bool \<Rightarrow> bool \<Rightarrow> int \<Rightarrow> bool \<Rightarrow> int \<Rightarrow> (service, tool_result) prog" where
  "app_debug_snapshot sid policy core faults stack stack_bytes context instructions =
     andthen (lift_res (enum_of halt_policy_value [REQUIRE_ALREADY_HALTED, HALT_IF_RUNNING] policy)) (\<lambda>p.
     send_request (DebugSnapshot \<lparr>ds_session_id = sid, ds_halt_policy = p, ds_include_core_registers = core,
         ds_include_fault_registers = faults, ds_include_stack = stack, ds_stack_bytes = stack_bytes,
         ds_include_symbol_context = context, ds_disassembly_instructions = instructions\<rparr>) None)"

definition app_analyze_fault ::
  "string option \<Rightarrow> string option \<Rightarrow> (service, tool_result) prog" where
  "app_analyze_fault sid snapshot_id =
     send_request (AnalyzeFault \<lparr>af_session_id = sid, af_snapshot_id = snapshot_id\<rparr>) None"

definition app_inspect_peripheral ::
  "string \<Rightarrow> string \<Rightarrow> string \<Rightarrow> string list option \<Rightarrow> int \<Rightarrow> (service, tool_result) prog" where
  "app_inspect_peripheral sid svd_path peripheral regs timeout_ms =
     send_request (InspectPeripheral \<lparr>ip_session_id = sid, ip_svd_path = svd_path, ip_peripheral = peripheral,
         ip_registers = regs, ip_timeout_ms = timeout_ms\<rparr>) None"

definition app_compare_snapshots ::
  "string \<Rightarrow> string \<Rightarrow> bool \<Rightarrow> (service, tool_result) prog" where
  "app_compare_snapshots before after memory_diffs =
     send_request (CompareSnapshots \<lparr>cs_before_snapshot_id = before, cs_after_snapshot_id = after,
         cs_include_memory_diffs = memory_diffs\<rparr>) None"

definition app_explain_current_state ::
  "string option \<Rightarrow> string option \<Rightarrow> string \<Rightarrow> (service, tool_result) prog" where
  "app_explain_current_state sid snapshot_id detail =
     andthen (lift_res (enum_of detail_value [BRIEF, NORMAL, VERBOSE] detail)) (\<lambda>d.
     send_request (ExplainCurrentState \<lparr>ex_session_id = sid, ex_snapshot_id = snapshot_id, ex_detail_level = d\<rparr>) None)"

definition app_suggest_next_debug_steps ::
  "string \<Rightarrow> string option \<Rightarrow> string option \<Rightarrow> (service, tool_result) prog" where
  "app_suggest_next_debug_steps goal sid snapshot_id =
     send_request (SuggestNextDebugSteps \<lparr>sn_session_id = sid, sn_snapshot_id = snapshot_id, sn_goal = goal\<rparr>) None"

section \<open>Calls of the application\<close>

datatype app_call =
    AppConnectTarget string "string option" string "string option" string int "string option"
  | AppDisconnectTarget string bool int "string option"
  | AppHalt string int "string option"
  | AppResume string int bool "string option"
  | AppStepInstruction string int int "string option"
  | AppResetTarget string string int "string option"
  | AppReadRegisters string string
  | AppReadMemory string string int int int
  | AppWriteMemory string string string "string option" int "string option"
  | AppSetBreakpoint string string string string bool int "string option"
  | AppClearBreakpoint string string int "string option"
  | AppDebugSnapshot string string bool bool bool int bool int
  | AppAnalyzeFault "string option" "string option"
  | AppInspectPeripheral string string string "string list option" int
  | AppCompareSnapshots string string bool
  | AppExplainCurrentState "string option" "string option" string
  | AppSuggestNextDebugSteps string "string option" "string option"

primrec app_run :: "app_call \<Rightarrow> (service, tool_result) prog" where
  "app_run (AppConnectTarget backend endpoint gdb_path elf_path profile timeout_ms tok) = app_connect_target backend endpoint gdb_path elf_path profile timeout_ms tok"
| "app_run (AppDisconnectTarget sid kill_backend timeout_ms tok) = app_disconnect_target sid kill_backend timeout_ms tok"
| "app_run (AppHalt sid timeout_ms tok) = app_halt sid timeout_ms tok"
| "app_run (AppResume sid max_run_ms auto_interrupt tok) = app_resume sid max_run_ms auto_interrupt tok"
| "app_run (AppStepInstruction sid count timeout_ms tok) = app_step_instruction sid count timeout_ms tok"
| "app_run (AppResetTarget sid mode timeout_ms tok) = app_reset_target sid mode timeout_ms tok"
| "app_run (AppReadRegisters sid grp) = app_read_registers sid grp"
| "app_run (AppReadMemory sid address len width timeout_ms) = app_read_memory sid address len width timeout_ms"
| "app_run (AppWriteMemory sid address data_hex expected_old_hex timeout_ms tok) = app_write_memory sid address data_hex expected_old_hex timeout_ms tok"
| "app_run (AppSetBreakpoint sid kind location bp_type temporary timeout_ms tok) = app_set_breakpoint sid kind location bp_type temporary timeout_ms tok"
| "app_run (AppClearBreakpoint sid breakpoint_id timeout_ms tok) = app_clear_breakpoint sid breakpoint_id timeout_ms tok"
| "app_run (AppDebugSnapshot sid policy core faults stack stack_bytes context instructions) = app_debug_snapshot sid policy core faults stack stack_bytes context instructions"
| "app_run (AppAnalyzeFault sid snapshot_id) = app_analyze_fault sid snapshot_id"
| "app_run (AppInspectPeripheral sid svd_path peripheral regs timeout_ms) = app_inspect_peripheral sid svd_path peripheral regs timeout_ms"
| "app_run (AppCompareSnapshots before after memory_diffs) = app_compare_snapshots before after memory_diffs"
| "app_run (AppExplainCurrentState sid snapshot_id detail) = app_explain_current_state sid snapshot_id detail"
| "app_run (AppSuggestNextDebugSteps goal sid snapshot_id) = app_suggest_next_debug_steps goal sid snapshot_id"

fun app_serve :: "app_call list \<Rightarrow> service \<Rightarrow> service" where
  "app_serve [] sv = sv"
| "app_serve (c # cs) sv = app_serve cs (snd (app_run c sv))"

lemmas app_defs =
  app_connect_target_def app_disconnect_target_def app_halt_def app_resume_def app_step_instruction_def app_reset_target_def app_read_registers_def app_read_memory_def app_write_memory_def app_set_breakpoint_def app_clear_breakpoint_def app_debug_snapshot_def app_analyze_fault_def app_inspect_peripheral_def app_compare_snapshots_def app_explain_current_state_def app_suggest_next_debug_steps_def

section \<open>Resources\<close>

definition list_session_summaries :: "service \<Rightarrow> json list" where
  "list_session_summaries sv =
     List.map_filter (\<lambda>sid. case get_session sid (sv_sessions sv) of
         Inl _ \<Rightarrow> None
       | Inr s \<Rightarrow> Some (JObj [(''session_id'', JStr sid), (''state'', JStr (state_value (state_of s)))]))
       (list_ids (sv_sessions sv))"

definition sessions_resource :: "service \<Rightarrow> json" where
  "sessions_resource sv = JObj [(''sessions'', JArr (list_session_summaries sv))]"

text \<open>A found snapshot is printed by its model.\<close>

definition snapshot_resource :: "string \<Rightarrow> service \<Rightarrow> json + debug_snapshot" where
  "snapshot_resource i sv =
     (case get_snapshot (Some i) sv of
        None \<Rightarrow> Inl (JObj [(''error'', JStr ''SNAPSHOT_NOT_FOUND''), (''snapshot_id'', JStr i)])
      | Some snap \<Rightarrow> Inr snap)"

definition list_audit_events :: "service \<Rightarrow> audit_event list" where
  "list_audit_events sv = (case sv_audit sv of None \<Rightarrow> [] | Some es \<Rightarrow> es)"

definition list_supported_tools :: "registry \<Rightarrow> json list" where
  "list_supported_tools reg =
     map (\<lambda>t. JObj [(''name'', JStr (td_name t)), (''operation'', JStr (operation_value (td_operation t))),
                    (''permission'', JStr (permission_value (td_permission t))),
                    (''timeout_ms'', JInt (td_timeout_ms t)), (''description'', JStr (td_description t))])
       (registry_list reg)"

definition audit_resource :: "(audit_event \<Rightarrow> json) \<Rightarrow> service \<Rightarrow> json" where
  "audit_resource dump sv = JObj [(''events'', JArr (map dump (list_audit_events sv)))]"

text \<open>
  \<open>models\<close> are the classes of the module \<open>schemas\<close> that have a JSON Schema, in the order of the
  module, with it.
\<close>

definition endswith :: "string \<Rightarrow> string \<Rightarrow> bool" where
  "endswith s p \<longleftrightarrow> startswith (rev s) (rev p)"

definition public_schema_models :: "json dict \<Rightarrow> json dict" where
  "public_schema_models models =
     filter (\<lambda>(name, schema). endswith name ''Request'' \<or> endswith name ''Data'' \<or> endswith name ''Error'') models"

definition export_public_json_schemas :: "json dict \<Rightarrow> json dict" where
  "export_public_json_schemas models = sort_key fst (public_schema_models models)"

definition schema_resource :: "registry \<Rightarrow> json dict \<Rightarrow> json" where
  "schema_resource reg models =
     JObj [(''schema_version'', JStr ''0.1''),
           (''tools'', JArr (map (\<lambda>t. JStr (td_name t)) (registry_list reg))),
           (''resources'', JArr [JStr ''probemcp://sessions'', JStr ''probemcp://snapshots/{snapshot_id}'',
              JStr ''probemcp://audit'', JStr ''probemcp://schema'']),
           (''json_schemas'', JObj (export_public_json_schemas models))]"

text \<open>The export holds exactly the public models, once each and sorted by name.\<close>

lemma export_public_json_schemas_exact:
  assumes "dict_ok models"
  shows "sorted (dict_keys (export_public_json_schemas models)) \<and> dict_ok (export_public_json_schemas models)"
    and "dict_get (export_public_json_schemas models) name =
      (if endswith name ''Request'' \<or> endswith name ''Data'' \<or> endswith name ''Error''
       then dict_get models name else None)"
proof -
  let ?p = "\<lambda>name. endswith name ''Request'' \<or> endswith name ''Data'' \<or> endswith name ''Error''"
  have f: "public_schema_models models = filter (?p \<circ> fst) models"
    by (simp add: public_schema_models_def case_prod_beta' comp_def)
  have ok: "dict_ok (export_public_json_schemas models)"
    using assms by (auto simp: export_public_json_schemas_def f dict_ok_def distinct_map intro: inj_on_subset)
  moreover have "sorted (dict_keys (export_public_json_schemas models))"
    by (simp add: export_public_json_schemas_def)
  ultimately show "sorted (dict_keys (export_public_json_schemas models)) \<and> dict_ok (export_public_json_schemas models)"
    by blast
  have get: "dict_get (export_public_json_schemas models) name = Some v
      \<longleftrightarrow> ?p name \<and> dict_get models name = Some v" for v
    unfolding dict_get_iff [OF ok] dict_get_iff [OF assms] by (auto simp: export_public_json_schemas_def f)
  have eqI: "x = y" if "\<And>v. x = Some v \<longleftrightarrow> y = Some v" for x y :: "json option"
    using that by (metis not_None_eq)
  show "dict_get (export_public_json_schemas models) name = (if ?p name then dict_get models name else None)"
    by (rule eqI, subst get) (cases "?p name", simp_all)
qed

section \<open>The application only makes valid calls of the service\<close>

definition sends_valid :: "(service, tool_result) prog \<Rightarrow> bool" where
  "sends_valid m \<longleftrightarrow> (\<forall>sv. (\<exists>r tok. valid_request r \<and> m sv = call_tool r tok sv)
     \<or> (\<exists>e. m sv = (Inl e, sv) \<and> (exc_of e = ValueError \<or> exc_of e = ValidationError)))"

lemma sends_request: "sends_valid (send_request r tok)"
  by (auto simp: sends_valid_def send_request_def validated_def andthen_def)

lemma sends_andthen:
  assumes "\<And>e. r = Inl e \<Longrightarrow> exc_of e = ValueError \<or> exc_of e = ValidationError"
    and "\<And>x. sends_valid (k x)"
  shows "sends_valid (andthen (lift_res r) k)"
  using assms by (cases r) (auto simp: sends_valid_def andthen_def)

lemma enum_of_error: "enum_of val members s = Inl e \<Longrightarrow> exc_of e = ValueError"
  by (auto simp: enum_of_def split: option.splits)

lemma location_of_error: "location_of k v = Inl e \<Longrightarrow> exc_of e = ValidationError"
  by (auto simp: location_of_def split: sum.splits if_splits)

lemma app_run_valid: "sends_valid (app_run c)"
  by (cases c)
    (auto simp: app_defs backend_kind_of_value_def dest: enum_of_error location_of_error
      intro!: sends_andthen sends_request)

lemma app_serve_calls:
  "\<exists>calls. app_serve cs sv = serve calls sv \<and> (\<forall>(r, tok) \<in> set calls. valid_request r)"
proof (induction cs sv rule: app_serve.induct)
  case (1 sv)
  have "app_serve [] sv = serve [] sv" by simp
  then show ?case by fastforce
next
  case (2 c cs sv)
  then obtain calls where IH: "app_serve cs (snd (app_run c sv)) = serve calls (snd (app_run c sv))"
    and valid: "\<forall>(r, tok) \<in> set calls. valid_request r" by blast
  consider r tok where "valid_request r" "app_run c sv = call_tool r tok sv" | e where "app_run c sv = (Inl e, sv)"
    using app_run_valid [of c] unfolding sends_valid_def by blast
  then show ?case
  proof cases
    case 1
    then have "app_serve (c # cs) sv = serve ((r, tok) # calls) sv" using IH by simp
    then show ?thesis using valid 1(1) by (metis (no_types, lifting) case_prodI set_ConsD)
  next
    case 2
    then have "app_serve (c # cs) sv = serve calls sv" using IH by simp
    then show ?thesis using valid by blast
  qed
qed

text \<open>The summaries show exactly the registered sessions, with their states.\<close>

lemma list_session_summaries_exact:
  "list_session_summaries sv = map (\<lambda>sid. JObj [(''session_id'', JStr sid),
      (''state'', JStr (state_value (state_of (the (dict_get (sv_sessions sv) sid)))))]) (list_ids (sv_sessions sv))"
proof -
  have "dict_get (sv_sessions sv) sid \<noteq> None" if "sid \<in> set (list_ids (sv_sessions sv))" for sid
    using that by (auto simp: list_ids_get get_session_def split: option.splits)
  then show ?thesis
    unfolding list_session_summaries_def List.map_filter_def
    by (intro arg_cong2 [of _ _ _ _ map] map_cong)
      (fastforce simp: get_session_def filter_id_conv split: option.splits)+
qed

end
