(* ===== verification/Component_Properties.thy ===== *)
theory Component_Properties
  imports Scenarios MI_Cancellation Tool_Registry Lab_Inventory Freertos Command_Line Application
begin

text \<open>
  The main properties of the single components, each stated over the model's definitions and
  followed by its witness: the policy, the MI protocol in both directions, the controller, the
  session and its state machine, snapshots, the analyzers, the privacy and audit code, the tool
  registry, the lab inventory and the task lists.
\<close>

section \<open>Policy\<close>

text \<open>
  C17: the policy engine allows exactly what the declarative specification \<open>permits\<close> allows,
  and a refusal always carries a non-empty reason.
\<close>

theorem policy_meets_specification:
  "pd_allowed (evaluate r) = permits r \<and> (to_error (evaluate r) = None) = permits r
   \<and> pd_reason (evaluate r) \<noteq> []"
  using evaluate_allows [of r] to_error_None [of "evaluate r"] reason_nonempty [of r] by simp

section \<open>Confirmation\<close>

text \<open>
  C18: the canonical text that is fingerprinted always exists and determines the request among
  the requests of its tool.
\<close>

theorem canonical_text_determines_request:
  assumes "tool_index r = tool_index r'"
  shows "(\<exists>t. json_canonical (request_json r) = Some t)
    \<and> (json_canonical (request_json r) = json_canonical (request_json r')) = (r = r')"
  using canonical_text_total canonical_inj [OF assms] by blast

theorem canonical_text_determines_request_witness:
  "json_canonical (request_json halt_1) \<noteq>
   json_canonical (request_json (Halt \<lparr>ht_session_id = ''session_1'', ht_timeout_ms = 2000\<rparr>))"
  using canonical_text_determines_request [of halt_1 "Halt \<lparr>ht_session_id = ''session_1'', ht_timeout_ms = 2000\<rparr>"]
  by (simp add: halt_1_def)

section \<open>The MI protocol\<close>

text \<open>
  C19: the parser always terminates with a record or an exception, and the exception is
  MIParseError, or the bare ValueError of a malformed token number.
\<close>

theorem parser_total:
  "\<exists>x. parse_mi_record line = Some x
     \<and> (case x of Inl e \<Rightarrow> exc_of e = MIParseError \<or> exc_of e = ValueError | Inr r \<Rightarrow> True)"
proof -
  obtain x where x: "parse_mi_record line = Some x" using parse_mi_record_total by blast
  then show ?thesis using parse_line_error_class
    by (auto simp: parse_mi_record_def split: sum.split)
qed

text \<open>
  C20: parsing inverts printing. A record that GDB prints, with any token, class and
  well-formed results and any line ending, is parsed to exactly this record.
\<close>

theorem mi_record_roundtrip:
  assumes "record_marker k = Some m" and "is_identifier cls" and "wf_results res"
    and "\<And>n. t = Some n \<Longrightarrow> length (nat_str n) \<le> 4300" and "list_all is_eol eol"
  shows "parse_mi_record (print_mi_record t m cls res @ eol) = Some (Inr (Record
     \<lparr>rec_kind = k, record_class = cls, results = res, raw = print_mi_record t m cls res, token = t\<rparr>))"
  using assms by (rule parse_mi_record_print)

theorem mi_record_roundtrip_witness:
  "\<exists>r. parse_mi_record (print_mi_record (Some 7) (CHR ''^'') ''done''
     [(''msg'', MIStr ''a b''), (''bkpt'', MIDict [(''number'', MIStr ''1'')])] @ [LF]) = Some (Inr (Record r))
     \<and> token r = Some 7"
proof (intro exI conjI, rule mi_record_roundtrip [of RESULT])
  show "length (nat_str n) \<le> 4300" if "Some 7 = Some n" for n
    using small_token [of 7] that by simp
qed (simp_all add: wf_results_def dict_ok_def is_identifier_def identifier_start_def
    identifier_part_def char_class_defs is_eol_def record_marker_def)

text \<open>
  C21: a serialized command is read back by a GDB/MI reader as the token, the command and the
  arguments, whatever characters the arguments contain.
\<close>

theorem command_roundtrip:
  assumes "\<And>n. tok = Some n \<Longrightarrow> length (nat_str n) \<le> 4300"
  shows "read_line_args (serialize c tok) = Some (tok, command_value (cmd_name c), cmd_args c)"
  using assms by (rule read_line_args_serialize)

theorem command_roundtrip_witness:
  "read_line_args (serialize (data_read_memory_bytes ''a b'' 4) (Some 1)) =
     Some (Some 1, ''data-read-memory-bytes'', [''a b'', ''4''])"
proof -
  have "length (nat_str n) \<le> 4300" if "Some 1 = Some n" for n
    using small_token [of 1] that by simp
  then show ?thesis
    using command_roundtrip [of "Some 1" "data_read_memory_bytes ''a b'' 4"]
    by (simp add: builder_defs int_str_def nat_str_4)
qed

text \<open>
  C22: but the arguments are not confined to one line. An argument with a line feed puts the
  text up to the next line feed on a line of its own on GDB's input, while arguments without
  line feeds keep the command on one line.
\<close>

theorem line_feed_injection:
  assumes "set l \<inter> {DQUOTE, BSLASH, LF} = {}"
  shows "l \<in> set (split_on LF (serialize (data_read_memory_bytes (a @ LF # l @ LF # b) n) tok))
    \<and> (LF \<notin> set addr \<longrightarrow>
        split_on LF (serialize (data_read_memory_bytes addr n) tok) = [serialize (data_read_memory_bytes addr n) tok])"
proof
  show "l \<in> set (split_on LF (serialize (data_read_memory_bytes (a @ LF # l @ LF # b) n) tok))"
    using assms by (rule serialize_lf_argument [of _ a b]) (simp add: builder_defs)
  have "LF \<notin> set (int_str n)" by (rule int_str_no_lf)
  then show "LF \<notin> set addr \<longrightarrow>
        split_on LF (serialize (data_read_memory_bytes addr n) tok) = [serialize (data_read_memory_bytes addr n) tok]"
    by (intro impI serialize_single_line) (simp add: builder_defs)
qed

theorem line_feed_injection_witness:
  "''shell reboot'' \<in> set (split_on LF (serialize (data_read_memory_bytes (''0'' @ LF # ''shell reboot'' @ LF # []) 4) (Some 1)))"
  by (rule line_feed_injection [THEN conjunct1]) code_simp

section \<open>The controller\<close>

text \<open>
  C23: token correlation. When GDB prints a result record for the command's token, whatever
  async, stream and foreign result records come before it, the command returns this record,
  having written one line, and leaves the rest of the output unread.
\<close>

theorem command_answered:
  assumes "queued_commands c < max_queued_commands c" and "0 \<le> queued_commands c"
    and "write_faults (transport_of c) = []"
    and "inbox (transport_of c) =
      map Line ls @ Line (print_mi_record (Some (next_token c)) (CHR ''^'') cls res @ eol) # es"
    and "\<forall>l \<in> set ls. passes (next_token c) l"
    and "is_identifier cls" and "cls \<noteq> ''error''" and "wf_results res"
    and "length (nat_str (next_token c)) \<le> 4300" and "list_all is_eol eol"
  shows "\<exists>d as ss raw. execute cmd t c = (Inr \<lparr>result_record = \<lparr>rec_kind = RESULT, record_class = cls,
      results = res, raw = raw, token = Some (next_token c)\<rparr>, async_records = as,
      stream_records = ss\<rparr>, d)
    \<and> inbox (transport_of d) = es
    \<and> outbox (transport_of d) = outbox (transport_of c) @ [serialize cmd (Some (next_token c))]"
  using assms by (rule execute_answered)

theorem command_answered_witness:
  "\<exists>d as ss raw. execute exec_interrupt 1000
     (new_controller (gdb_lines [''*stopped'', print_mi_record (Some 1) (CHR ''^'') ''done'' []]))
     = (Inr \<lparr>result_record = \<lparr>rec_kind = RESULT, record_class = ''done'', results = [], raw = raw,
          token = Some 1\<rparr>, async_records = as, stream_records = ss\<rparr>, d)
    \<and> inbox (transport_of d) = [] \<and> outbox (transport_of d) = [''1-exec-interrupt'']"
proof -
  let ?c = "new_controller (gdb_lines [''*stopped'', print_mi_record (Some 1) (CHR ''^'') ''done'' []])"
  have p: "passes 1 ''*stopped''" by code_simp
  have s: "serialize exec_interrupt (Some 1) = ''1-exec-interrupt''" by code_simp
  show ?thesis
    using command_answered [of ?c "[''*stopped'']" "''done''" "[]" "[]" "[]" exec_interrupt 1000]
      p s small_token [of 1]
    by (simp add: new_controller_def gdb_lines_def gdb_process_lines_def new_transport_def is_identifier_def identifier_start_def
        identifier_part_def char_class_defs wf_results_def dict_ok_def)
qed

text \<open>
  C24: every command leaves the queue counter as it was, on every exit, writes at most its own
  line, and a result it returns is a non-error result record of its own token.
\<close>

theorem command_frame:
  assumes "execute cmd t c = (r, d)" and "0 \<le> queued_commands c"
  shows "queued_commands d = queued_commands c
    \<and> (outbox (transport_of d) = outbox (transport_of c)
       \<or> outbox (transport_of d) = outbox (transport_of c) @ [serialize cmd (Some (next_token c))])
    \<and> (\<forall>res. r = Inr res \<longrightarrow> rec_kind (result_record res) = RESULT
         \<and> token (result_record res) = Some (next_token c) \<and> record_class (result_record res) \<noteq> ''error'')"
  using execute_effect [OF assms] execute_success [of cmd t c _ d] assms by auto

theorem command_frame_witness:
  "queued_commands (snd (execute exec_interrupt 1000 (new_controller (gdb_lines [])))) = 0"
  using command_frame [of exec_interrupt 1000 "new_controller (gdb_lines [])"
      "fst (execute exec_interrupt 1000 (new_controller (gdb_lines [])))"
      "snd (execute exec_interrupt 1000 (new_controller (gdb_lines [])))"]
  by (simp add: new_controller_def)

text \<open>
  Under every interleaving of coroutines that enter and leave the command queue, the
  counter is the number of those inside and never exceeds the limit, and a coroutine is refused
  only when the queue is full of others.
\<close>

theorem command_queue_bound:
  assumes "pool_run (\<lambda>_. try_reserve) (\<lambda>_. release_slot) (c, {}) (d, K)" and "queued_commands c = 0"
  shows "queued_commands d = int (card K) \<and> int (card K) \<le> max 0 (max_queued_commands c)
    \<and> (try_reserve d = None \<longrightarrow> int (card K) = max 0 (max_queued_commands c))"
  using cmd_queue.pool_bound [OF assms] cmd_queue.refused_full [OF assms] by auto

theorem command_queue_bound_witness:
  "queued_commands (the (try_reserve (new_controller (gdb_lines [])))) = int (card {0::nat})"
proof (rule command_queue_bound [THEN conjunct1])
  let ?c = "new_controller (gdb_lines [])"
  have "try_reserve ?c = Some (the (try_reserve ?c))" by (simp add: try_reserve_def new_controller_def)
  then show "pool_run (\<lambda>_. try_reserve) (\<lambda>_. release_slot) (?c, {}) (the (try_reserve ?c), {0})"
    by (intro pool_run.step [OF pool_run.start] pool_step.enter) simp_all
qed (simp add: new_controller_def)

text \<open>
  C25: concurrent commands complete, also when some of them are cancelled. Whatever the interleaving
  of the coroutines, and wherever they are cancelled while they wait, a run takes at most six steps
  for each and one for each read; when no command can go on, every one has returned or was refused by
  the full queue, and the lock and all slots of the queue are free. A result that a command returns
  carries the token the command was given when it took the lock, so no answer goes to another command.
\<close>

theorem commands_complete:
  assumes "(mi_event n cmd tmo ^^ k) (start c, {}) (w, given_up)" and "queued_commands c = 0"
  shows "k \<le> 6 * n + length (inbox (transport_of c))
    \<and> ((\<nexists>w'. mi_step n cmd tmo w w') \<longrightarrow>
         (\<forall>i < n. returned (phases w i)) \<and> queued_commands (ctl w) = 0 \<and> holder w = None)
    \<and> distinct (order w)
    \<and> (\<forall>i r. phases w i = Returned (Inr r) \<longrightarrow>
         (\<exists>tok. token (result_record r) = Some tok \<and> token_at (next_token c) (order w) i tok))"
proof (intro conjI)
  have run: "(mi_event n cmd tmo)\<^sup>*\<^sup>* (start c, {}) (w, given_up)" using assms(1) by (metis rtranclp_power)
  show "k \<le> 6 * n + length (inbox (transport_of c))"
    using events_bounded [OF assms(1)] by (simp add: work_start)
  show "(\<nexists>w'. mi_step n cmd tmo w w') \<longrightarrow>
      (\<forall>i < n. returned (phases w i)) \<and> queued_commands (ctl w) = 0 \<and> holder w = None"
    using calls_end [OF run assms(2)] by blast
  show "distinct (order w)" using reached_ok [OF run assms(2)] by (simp add: tokens_ok_def)
  show "\<forall>i r. phases w i = Returned (Inr r) \<longrightarrow>
      (\<exists>tok. token (result_record r) = Some tok \<and> token_at (next_token c) (order w) i tok)"
    using own_answers [OF run assms(2)] by blast
qed

definition two_answers :: controller where
  "two_answers = new_controller (gdb_lines [''1^done'', ''2^done''])"

text \<open>Coroutine 1 queues while 0 runs its command.\<close>

definition two_commands :: world where
  "two_commands = the (run_schedule (\<lambda>_. exec_interrupt) (\<lambda>_. 1000) [0, 0, 1, 0, 0, 0, 0, 1, 1, 1, 1, 1]
     (start two_answers))"

lemma two_commands_run:
  "(mi_step 2 (\<lambda>_. exec_interrupt) (\<lambda>_. 1000) ^^ 12) (start two_answers) two_commands"
  "\<forall>i < 2. returned (phases two_commands i)"
proof -
  let ?is = "[0, 0, 1, 0, 0, 0, 0, 1, 1, 1, 1, 1 :: nat]"
  have "\<not> Option.is_none (run_schedule (\<lambda>_. exec_interrupt) (\<lambda>_. 1000) ?is (start two_answers))" by code_simp
  then have "run_schedule (\<lambda>_. exec_interrupt) (\<lambda>_. 1000) ?is (start two_answers) = Some two_commands"
    by (simp add: Option.is_none_def two_commands_def)
  from run_schedule_steps [OF this, of 2]
  have "(mi_step 2 (\<lambda>_. exec_interrupt) (\<lambda>_. 1000) ^^ length ?is) (start two_answers) two_commands"
    by (simp del: relpowp.simps)
  moreover have "length ?is = 12" by simp
  ultimately show "(mi_step 2 (\<lambda>_. exec_interrupt) (\<lambda>_. 1000) ^^ 12) (start two_answers) two_commands"
    by (simp only:)
  have "returned (phases two_commands 0)" "returned (phases two_commands 1)" by code_simp+
  then show "\<forall>i < 2. returned (phases two_commands i)" by (auto simp: less_2_cases_iff)
qed

text \<open>Coroutine 0 is cancelled while it waits for its answer, which then comes late, before that of 1.\<close>

definition late_answer :: "world \<times> nat set" where
  "late_answer = the (run_events (\<lambda>_. exec_interrupt) (\<lambda>_. 1000)
     [(False, 0), (False, 0), (False, 1), (False, 0), (True, 0), (False, 0), (False, 0),
      (False, 1), (False, 1), (False, 1), (False, 1), (False, 1), (False, 1)] (start two_answers, {}))"

lemma late_answer_run: "(mi_event 2 (\<lambda>_. exec_interrupt) (\<lambda>_. 1000) ^^ 13) (start two_answers, {}) late_answer"
proof -
  let ?es = "[(False, 0), (False, 0), (False, 1), (False, 0), (True, 0), (False, 0), (False, 0),
      (False, 1), (False, 1), (False, 1), (False, 1), (False, 1), (False, 1)] :: (bool \<times> nat) list"
  have "\<not> Option.is_none (run_events (\<lambda>_. exec_interrupt) (\<lambda>_. 1000) ?es (start two_answers, {}))" by code_simp
  then have "run_events (\<lambda>_. exec_interrupt) (\<lambda>_. 1000) ?es (start two_answers, {}) = Some late_answer"
    unfolding late_answer_def Option.is_none_def by (rule option.collapse [symmetric])
  from run_events_steps [OF this, of 2]
  have "(mi_event 2 (\<lambda>_. exec_interrupt) (\<lambda>_. 1000) ^^ length ?es) (start two_answers, {}) late_answer"
    by (simp del: relpowp.simps)
  moreover have "length ?es = 13" by simp
  ultimately show ?thesis by (simp only:)
qed

theorem commands_complete_witness:
  "\<exists>tok. token (result_record (projr (result_of (phases (fst late_answer) 1)))) = Some tok
    \<and> token_at (next_token two_answers) (order (fst late_answer)) 1 tok"
proof -
  let ?w = "fst late_answer"
  have "(case phases ?w 1 of Returned (Inr r) \<Rightarrow> True | _ \<Rightarrow> False)" by code_simp
  then obtain r where r: "phases ?w 1 = Returned (Inr r)" by (auto split: phase.splits sum.splits)
  have "(mi_event 2 (\<lambda>_. exec_interrupt) (\<lambda>_. 1000) ^^ 13) (start two_answers, {}) (?w, snd late_answer)"
    using late_answer_run by simp
  from commands_complete [OF this] r show ?thesis
    by (simp add: two_answers_def new_controller_def result_of_def)
qed

text \<open>
  C26: concurrent commands are serialized. When no command is under way any more, the controller
  and all results are those of \<open>execute\<close> called for the same commands one after the other, in the
  order in which the coroutines took the lock; the others were refused by the full queue.
\<close>

theorem commands_serialize:
  assumes "(mi_step n cmd tmo)\<^sup>*\<^sup>* (start c) w" and "queued_commands c = 0"
    and "0 < max_queued_commands c" and "\<forall>i < n. returned (phases w i)"
  shows "\<exists>is. distinct is \<and> set is \<subseteq> {..<n} \<and> (\<forall>i < n. i \<in> set is \<or> (\<exists>e. phases w i = Refused e))
    \<and> execute_all cmd tmo is c = (map (\<lambda>i. result_of (phases w i)) is, ctl w)"
  using assms by (rule serialized)

theorem commands_serialize_witness:
  "\<exists>is. distinct is \<and> set is \<subseteq> {..<2}
    \<and> snd (execute_all (\<lambda>_. exec_interrupt) (\<lambda>_. 1000) is two_answers) = ctl two_commands"
proof -
  have "(mi_step 2 (\<lambda>_. exec_interrupt) (\<lambda>_. 1000))\<^sup>*\<^sup>* (start two_answers) two_commands"
    using two_commands_run(1) by (metis rtranclp_power)
  from commands_serialize [OF this _ _ two_commands_run(2)] show ?thesis
    by (auto simp: two_answers_def new_controller_def)
qed

section \<open>The debug session\<close>

text \<open>
  C27: the state machine. A transition either is legal, moves to the requested state and is
  recorded at the end of the history, or raises and changes nothing; and a session that was
  ever taken out of DISCONNECTED went through CONNECTING.
\<close>

theorem transitions_guarded:
  "(if allowed (sm_state sm) to
    then transition to why sm = (let tr = \<lparr>from_state = sm_state sm, to_state = to, reason = why\<rparr>
         in (Inr tr, sm\<lparr>sm_state := to, sm_history := sm_history sm @ [tr]\<rparr>))
    else snd (transition to why sm) = sm \<and> isl (fst (transition to why sm)))
   \<and> (linked DISCONNECTED sm \<and> sm_state sm \<noteq> DISCONNECTED \<longrightarrow>
       (\<exists>tr \<in> set (sm_history sm). to_state tr = CONNECTING))"
  using path_through_connecting by (auto simp: transition_def can_transition_def linked_def)

theorem transitions_guarded_witness:
  "\<exists>tr \<in> set (sm_history (snd (transition CONNECTING ''c'' (new_state_machine DISCONNECTED)))). to_state tr = CONNECTING"
  by (rule transitions_guarded [THEN conjunct2, rule_format]) code_simp


text \<open>
  C29: a memory write with an expected old value sends the write command only after GDB has
  reported exactly the expected bytes; when the check fails the session has only read.
\<close>

theorem guarded_write:
  assumes "write_memory a d (Some old) t s = (r, s')"
  shows "(case r of
      Inr x \<Rightarrow> \<exists>bs res c res'. bytes_fromhex old = Inr bs
        \<and> execute (data_read_memory_bytes a (int (length bs))) t (controller_of s) = (Inr res, c)
        \<and> lower (parse_memory_contents (result_record res)) = lower old
        \<and> execute (data_write_memory_bytes a d) t c = (Inr res', controller_of s')
    | Inl e \<Rightarrow> fst (check_old_value a (Some old) t s) = Inl e \<longrightarrow> session_extends reading s s')"
proof (cases r)
  case (Inl e)
  have "session_extends reading s s'" if "fst (check_old_value a (Some old) t s) = Inl e"
  proof -
    have "check_old_value a (Some old) t s = (Inl e, snd (check_old_value a (Some old) t s))"
      using that by (metis prod.collapse)
    then show ?thesis using write_memory_refused assms by (metis prod.inject)
  qed
  then show ?thesis using Inl by simp
next
  case (Inr x)
  with assms have "write_memory a d (Some old) t s = (Inr x, s')" by simp
  then obtain bs res c res' where "bytes_fromhex old = Inr bs"
    and "execute (data_read_memory_bytes a (int (length bs))) t (controller_of s) = (Inr res, c)"
    and "lower (parse_memory_contents (result_record res)) = lower old"
    and "execute (data_write_memory_bytes a d) t c = (Inr res', controller_of s')"
    by (rule write_memory_success)
  then show ?thesis using Inr by auto
qed

theorem guarded_write_witness:
  "session_extends reading (example_session HALTED [''1^done''])
     (snd (write_memory ''0'' ''00'' (Some ''01'') 1000 (example_session HALTED [''1^done''])))"
proof -
  let ?s = "example_session HALTED [''1^done'']"
  let ?w = "write_memory ''0'' ''00'' (Some ''01'') 1000 ?s"
  have c: "isl (fst (check_old_value ''0'' (Some ''01'') 1000 ?s))" by code_simp
  let ?e = "projl (fst (check_old_value ''0'' (Some ''01'') 1000 ?s))"
  have e: "check_old_value ''0'' (Some ''01'') 1000 ?s = (Inl ?e, snd (check_old_value ''0'' (Some ''01'') 1000 ?s))"
    using run_Inl [OF c] .
  have "?w = (Inl ?e, snd (check_old_value ''0'' (Some ''01'') 1000 ?s))"
    unfolding write_memory_def by (rule andthen_Inl) (rule e)
  then have w: "?w = (Inl ?e, snd ?w)" by simp
  have "fst (check_old_value ''0'' (Some ''01'') 1000 ?s) = Inl ?e" using e by (metis fst_conv)
  then show ?thesis using guarded_write [OF w] by simp
qed

text \<open>
  C30: disconnecting always, also when GDB does not answer or the exit fails, closes the
  transport and leaves the session DISCONNECTED.
\<close>

theorem disconnect_always_closes:
  "closed (transport_of (controller_of (snd (disconnect t s)))) \<and> state_of (snd (disconnect t s)) = DISCONNECTED"
  by (rule disconnect_outcome) (rule prod.collapse [symmetric])

section \<open>Snapshots\<close>

text \<open>
  C31: capturing a snapshot. On every exit the session has only sent reading commands and its state
  machine is as it was. A snapshot that is returned has the new id, the session's id and state, and
  holds what was asked for and nothing else, each from its own read, one after the other: the core
  registers under their canonical names; the five fault registers, each the little-endian word at its
  address; the bytes at the stack pointer; the symbols at the program counter. A section that was not
  asked for is empty, and nothing is read for it.
\<close>

theorem snapshot_records_sections:
  "case capture_session fresh sid q s of
     (Inl e, s') \<Rightarrow> reads_only s s'
   | (Inr snap, s') \<Rightarrow> reads_only s s' \<and> captured q s snap s'
       \<and> snap_id snap = fresh \<and> snap_session_id snap = sid \<and> snap_state snap = state_of s"
proof -
  obtain r s' where run: "capture_session fresh sid q s = (r, s')" by fastforce
  have reads: "reads_only s s'" using ensures_run [OF reads_capture run] .
  show ?thesis
  proof (cases r)
    case (Inl e)
    then show ?thesis using run reads by simp
  next
    case (Inr snap)
    have "capture read_registers read_memory (Some symbol_context) state_of fresh sid q s = (Inr snap, s')"
      using run Inr by (simp add: capture_session_def)
    then show ?thesis
      using run reads Inr captured_sections [of fresh sid q s snap s'] session_target.capture_snapshot by auto
  qed
qed

text \<open>
  C36: the comparison of two snapshots. For every register, a fault register before a core register of
  the same name, the result holds the pair of its values before and after exactly when they differ,
  each name once and in order, and the summary counts them; a snapshot that is not there is an error.
\<close>

definition register_of :: "debug_snapshot \<Rightarrow> string \<Rightarrow> string option" where
  "register_of snap name =
     (case dict_get (dict_of (snap_fault_registers snap)) name of
        Some v \<Rightarrow> Some v
      | None \<Rightarrow> dict_get (dict_of (snap_core_registers snap)) name)"

lemma all_registers_get: "dict_get (all_registers snap) = register_of snap"
proof
  fix k
  have "dict_get (dict_of d) k = dict_get (rev d) k" for d :: "string dict"
    by (simp add: dict_of_def dict_get_merge split: option.split)
  then show "dict_get (all_registers snap) k = register_of snap k"
    by (simp add: all_registers_def register_of_def dict_get_merge)
qed

lemma success_result:
  "\<exists>res sv'. success tool r d sid st b w sv = (Inr res, sv') \<and> res_ok res \<and> res_data res = d
     \<and> res_session_id res = sid \<and> res_target_state res = st"
  using success_returns [of tool r d sid st b w sv]
  by (auto simp: success_def audit_def andthen_def draw_id_def mk_tool_result_def split: option.splits)

theorem snapshots_compared:
  "case (get_snapshot (Some (cs_before_snapshot_id r)) sv, get_snapshot (Some (cs_after_snapshot_id r)) sv) of
     (Some older, Some newer) \<Rightarrow>
       \<exists>res sv' d. call_tool (CompareSnapshots r) tok sv = (Inr res, sv') \<and> res_ok res
         \<and> res_session_id res = Some (snap_session_id newer) \<and> res_target_state res = snap_state newer
         \<and> res_data res = SnapshotDiffData d
         \<and> (\<forall>k. dict_get (sdd_register_diffs d) k =
              (if register_of older k = register_of newer k then None
               else Some (register_of older k, register_of newer k)))
         \<and> dict_ok (sdd_register_diffs d) \<and> sorted (dict_keys (sdd_register_diffs d))
         \<and> sdd_summary d =
              (if register_of older = register_of newer then ''No register or fault-register differences detected.''
               else nat_str (length (sdd_register_diffs d)) @ '' register or fault-register differences detected.'')
   | _ \<Rightarrow> \<exists>res sv' e. call_tool (CompareSnapshots r) tok sv = (Inr res, sv') \<and> \<not> res_ok res
         \<and> res_error res = Some e \<and> code e = SNAPSHOT_NOT_FOUND"
proof (cases "get_snapshot (Some (cs_before_snapshot_id r)) sv = None
    \<or> get_snapshot (Some (cs_after_snapshot_id r)) sv = None")
  case True
  obtain x sv' where f: "call_tool (CompareSnapshots r) tok sv = (x, sv')" by fastforce
  let ?e = "make_error SNAPSHOT_NOT_FOUND ''one or both snapshots were not found'' CAT_VALIDATION False None
      [(''before_snapshot_id'', JStr (cs_before_snapshot_id r)),
       (''after_snapshot_id'', JStr (cs_after_snapshot_id r))] None"
  have "failure ''compare_snapshots'' ?e (CompareSnapshots r) None [] sv = (x, sv')"
    using f True by (auto simp: tool_compare_snapshots_def andthen_def split: option.splits)
  from failure_envelope [OF this]
  obtain res where "x = Inr res" "\<not> res_ok res" "res_error res = Some ?e" by blast
  moreover have "code ?e = SNAPSHOT_NOT_FOUND" by (simp add: make_error_def)
  ultimately have "\<exists>res e. x = Inr res \<and> \<not> res_ok res \<and> res_error res = Some e \<and> code e = SNAPSHOT_NOT_FOUND"
    by blast
  then show ?thesis using True f by (auto split: option.splits)
next
  case False
  then obtain older newer where found: "get_snapshot (Some (cs_before_snapshot_id r)) sv = Some older"
      "get_snapshot (Some (cs_after_snapshot_id r)) sv = Some newer" by auto
  let ?d = "compare_data older newer"
  obtain res sv' where "call_tool (CompareSnapshots r) tok sv = (Inr res, sv')" "res_ok res"
      "res_session_id res = Some (snap_session_id newer)" "res_target_state res = snap_state newer"
      "res_data res = SnapshotDiffData ?d"
    using success_result [of "''compare_snapshots''" "CompareSnapshots r" "SnapshotDiffData ?d"
        "Some (snap_session_id newer)" "snap_state newer" UNKNOWN "[]" sv] found
    by (auto simp: tool_compare_snapshots_def andthen_def)
  moreover have "\<forall>k. dict_get (sdd_register_diffs ?d) k =
      (if register_of older k = register_of newer k then None else Some (register_of older k, register_of newer k))"
    by (simp add: compare_data_def Let_def diff_fields_get all_registers_get)
  moreover have "dict_ok (sdd_register_diffs ?d) \<and> sorted (dict_keys (sdd_register_diffs ?d))"
    by (simp add: compare_data_def Let_def diff_fields_ok diff_fields_sorted)
  moreover have "sdd_summary ?d =
      (if register_of older = register_of newer then ''No register or fault-register differences detected.''
       else nat_str (length (sdd_register_diffs ?d)) @ '' register or fault-register differences detected.'')"
    by (simp add: compare_data_def Let_def diff_fields_empty all_registers_get)
  ultimately show ?thesis using found by (auto intro!: exI [of _ ?d])
qed

section \<open>Fault analysis\<close>

text \<open>
  C32: the stacked exception frame. Eight words in the memory of the stack are decoded to the
  eight registers of the frame in their order, each as the eight-digit hexadecimal of the word.
\<close>

theorem stacked_frame_decoded:
  assumes "length ws = 8"
  shows "decode_stacked_frame (bytes_hex (concat (map word_bytes ws) @ later)) =
    Some (zip frame_names (map (\<lambda>w. hex08 (uint w)) ws))"
  using assms by (rule decode_stacked_frame_words)

theorem stacked_frame_decoded_witness:
  "decode_stacked_frame (bytes_hex (concat (map word_bytes (replicate 8 (7 :: 32 word))) @ [])) =
    Some (zip frame_names (map (\<lambda>w. hex08 (uint w)) (replicate 8 (7 :: 32 word))))"
  by (rule stacked_frame_decoded) simp

text \<open>
  C33: the fault class is read off the status flags. With the flags of CFSR named by their architectural
  positions, usage faults (bits 16 up) come before bus faults (8 to 15), memory faults (0 to 7) and the
  hard fault flags FORCED and VECTTBL of HFSR; the class names exactly the flags that are set, in the
  order of their positions, and the evidence has one sentence for each. Other bits change nothing, so
  the flag DEBUGEVT of HFSR, which \<open>docs/cortex-m-fault-analysis.md\<close> asks for, is not reported.
\<close>

theorem fault_classification:
  "classify_fault cfsr hfsr =
     (let c = or_zero cfsr; h = or_zero hfsr;
          usage = set_flags 16 32 c; bus = set_flags 8 16 c; mem = set_flags 0 8 c
      in if usage \<noteq> []
         then (''UsageFault: '' @ join '', '' usage, map (\<lambda>n. ''CFSR.UFSR.'' @ n @ '' is set.'') usage)
         else if bus \<noteq> []
         then (''BusFault: '' @ join '', '' bus, map (\<lambda>n. ''CFSR.BFSR.'' @ n @ '' is set.'') bus)
         else if mem \<noteq> []
         then (''MemManageFault: '' @ join '', '' mem, map (\<lambda>n. ''CFSR.MMFSR.'' @ n @ '' is set.'') mem)
         else if bit h 30 then (''HardFault: FORCED'', [''HFSR.FORCED is set.''])
         else if bit h 1 then (''HardFault: VECTTBL'', [''HFSR.VECTTBL is set.''])
         else (''No Cortex-M fault bits set'', []))"
  by (rule classify_flags)

section \<open>Registers and peripherals\<close>

text \<open>
  C34: the fields of a register are its bits. A decoded field holds exactly the bits of its
  range and stays below the power of its width, and when the fields cover the register, the
  decoded fields determine its value.
\<close>

theorem fields_are_bits:
  assumes "covers r width" and "dict_ok (reg_fields r)"
  shows "(bit (decode_field f v) n \<longleftrightarrow> n < nat (bit_width f) \<and> bit v (nat (bit_offset f) + n))
    \<and> 0 \<le> decode_field f v \<and> decode_field f v < 2 ^ nat (bit_width f)
    \<and> (decode_register r v = decode_register r w \<longrightarrow> take_bit width v = take_bit width w)"
  using decode_field_bits decode_field_bounds decode_register_inj [OF assms] by blast

definition nibble_register :: svd_register where
  "nibble_register = \<lparr>reg_name = ''R'', address_offset = 0, reg_fields =
     [(''LO'', \<lparr>fld_name = ''LO'', bit_offset = 0, bit_width = 4\<rparr>)]\<rparr>"

theorem fields_are_bits_witness:
  "decode_register nibble_register 19 = decode_register nibble_register 3 \<and> take_bit 4 (19 :: int) = take_bit 4 3"
proof
  show d: "decode_register nibble_register 19 = decode_register nibble_register 3" by code_simp
  show "take_bit 4 (19 :: int) = take_bit 4 3"
    using fields_are_bits [of nibble_register 4] d by (simp add: covers_def nibble_register_def dict_ok_def)
qed

text \<open>
  C35: a document that loads yields a well-formed device: names are keys, addresses and offsets
  are not negative, and every field is at least one bit wide.
\<close>

theorem loaded_device_ok:
  assumes "load_svd doc stem = Inr d"
  shows "device_ok d"
  using assms by (rule load_svd_ok)

theorem loaded_device_ok_witness: "device_ok (projr (load_svd example_svd ''b''))"
proof (rule loaded_device_ok)
  have "\<not> isl (load_svd example_svd ''b'')" by code_simp
  then show "load_svd example_svd ''b'' = Inr (projr (load_svd example_svd ''b''))"
    by (cases "load_svd example_svd ''b''") simp_all
qed

section \<open>Privacy and audit\<close>

text \<open>
  C37: redaction hides secrets. Two requests that agree on everything public have the same
  redacted summary, so the audit log does not depend on the values under sensitive keys, the
  directories of paths and the tails of long memory dumps.
\<close>

theorem redaction_hides_secrets:
  assumes "list_all2 (\<lambda>a b. fst a = fst b \<and> same_public (fst a) (snd a) (snd b)) d e"
  shows "redact_mapping d = redact_mapping e"
  using assms by (rule redact_mapping_same_public)

theorem redaction_hides_secrets_witness:
  "redact_mapping [(''elf_path'', JStr ''/home/a/fw.elf'')] = redact_mapping [(''elf_path'', JStr ''/root/fw.elf'')]"
proof (rule redaction_hides_secrets)
  have "sensitive ''elf_path''" and "path_name ''/home/a/fw.elf'' = path_name ''/root/fw.elf''" by code_simp+
  then show "list_all2 (\<lambda>a b. fst a = fst b \<and> same_public (fst a) (snd a) (snd b))
      [(''elf_path'', JStr ''/home/a/fw.elf'')] [(''elf_path'', JStr ''/root/fw.elf'')]"
    by (simp add: same_public.path)
qed

text \<open>
  C38: the audit logs keep every event. The JSONL file of a sequence of events reads back as
  this sequence, and a row that the table accepts is read back last.
\<close>

theorem audit_log_reads_back:
  assumes "\<forall>e \<in> set (es @ [e]). codec_ok encode decode e" and "table_ok tbl"
    and "sqlite_append encode e tbl = (Inr (), tbl')" and "sqlite_read decode tbl = Inr es"
  shows "jsonl_read decode (jsonl_file encode (es @ [e])) = Inr (es @ [e])
    \<and> sqlite_read decode tbl' = Inr (es @ [e])"
  using jsonl_read_file [OF assms(1)] sqlite_read_append [OF assms(2) _ assms(3,4)] assms(1)
  by (simp add: codec_ok_def)

definition example_event :: audit_event where
  "example_event = \<lparr>ae_audit_id = ''audit_0'', ae_correlation_id = ''call_0'', ae_session_id = None,
     ae_tool_name = ''halt'', ae_permission_mode = READONLY, ae_state_before = UNKNOWN,
     ae_state_after = UNKNOWN, ae_outcome = ERROR, ae_request_summary = [], ae_result_summary = [],
     ae_warnings = [], ae_error = None\<rparr>"

theorem audit_log_reads_back_witness:
  "jsonl_read (\<lambda>_. Inr example_event) (jsonl_file (\<lambda>_. ''{}'') ([] @ [example_event])) = Inr ([] @ [example_event])"
proof (rule audit_log_reads_back [of _ _ _ _ new_table, THEN conjunct1])
  have "codec_ok (\<lambda>_. ''{}'') (\<lambda>_. Inr example_event) example_event"
    by (simp add: codec_ok_def) code_simp
  then show "\<forall>e \<in> set ([] @ [example_event]). codec_ok (\<lambda>_. ''{}'') (\<lambda>_. Inr example_event) e" by simp
qed (rule new_table_ok, simp_all add: sqlite_append_def new_table_def sqlite_read_def)

section \<open>The registry, the lab and the tasks\<close>

text \<open>
  C39: the tool registry agrees with the policy engine and the tool contracts. Every operation has one
  tool, under the operation's name, there are no others, the permission the tool advertises is that of
  \<open>docs/tool-contracts.md\<close>, and it is the least mode in which the engine allows the operation, with a
  token, on a target without guardrails. The contracts also promise readonly for attaching to an
  emulator; the last clause says that the engine refuses it.
\<close>

theorem registry_agrees_with_policy:
  "(\<exists>t. registry_get new_registry (operation_value op) = Inr t \<and> td_operation t = op
      \<and> td_permission t = documented_permission op
      \<and> pd_allowed (evaluate (open_request op mode)) = (td_permission t \<le> mode))
   \<and> isl (registry_get new_registry name) = (name \<notin> range operation_value)
   \<and> pr_target_class (open_request OP_CONNECT_TARGET READONLY) = EMULATOR
   \<and> \<not> pd_allowed (evaluate (open_request OP_CONNECT_TARGET READONLY))"
proof (intro conjI)
  obtain t where t: "t \<in> set default_tools" "td_operation t = op" using default_tools_complete by blast
  then have "registry_get new_registry (operation_value op) = Inr t"
    using default_tools_names by (simp add: registry_get_default)
  then show "\<exists>t. registry_get new_registry (operation_value op) = Inr t \<and> td_operation t = op
      \<and> td_permission t = documented_permission op
      \<and> pd_allowed (evaluate (open_request op mode)) = (td_permission t \<le> mode)"
    using t registry_permission default_tools_documented by blast
  show "isl (registry_get new_registry name) = (name \<notin> range operation_value)"
    by (rule registry_get_unknown)
  show "pr_target_class (open_request OP_CONNECT_TARGET READONLY) = EMULATOR" by (simp add: open_request_def)
qed (rule emulator_attach_refused)

text \<open>
  C40: a lab lease excludes others. From its grant until it expires, whatever clients do except
  releasing it, nobody else is granted the target; and releasing it at any time frees the target.
\<close>

theorem lab_lease_excludes:
  assumes "inventory_ok ivt" and "fresh \<notin> set (lock_ids ivt)"
    and "acquire fresh now now' tid owner ttl ivt = (Inr l, ivt1)"
    and "(lease_step l)\<^sup>*\<^sup>* ivt1 ivt2" and "later < now' + of_int ttl"
  shows "isl (fst (acquire fresh' later later' tid owner' ttl' ivt2))
    \<and> snd (acquire fresh' later later' tid owner' ttl' ivt2) = ivt2
    \<and> fst (release_lock (lk_lock_id l) ivt2) = Inr ()
    \<and> dict_get (inv_locks (snd (release_lock (lk_lock_id l) ivt2))) tid = None"
proof -
  have ok: "inventory_ok ivt1"
    using keeps_acquire [OF assms(1,2), of now now' tid owner ttl] assms(3) by simp
  have l: "dict_get (inv_locks ivt1) tid = Some l" "lk_expires_at l = now' + of_int ttl"
    using acquire_lock [OF assms(3)] by simp_all
  then have "holds_lock l tid ivt1" using ok by (simp add: holds_lock_def inventory_ok_def)
  then have "holds_lock l tid ivt2" by (rule lease_steps_hold [OF assms(4)])
  moreover have "inventory_ok ivt2" using lease_steps_ok assms(4) ok by blast
  ultimately show ?thesis using held_refused release_frees l(2) assms(5) by simp
qed

definition board :: lab_target where
  "board = \<lparr>lt_target_id = ''b'', lt_backend = QEMU, lt_endpoint = ''e'', lt_profile = ''p'',
     lt_target_class = EMULATOR\<rparr>"

theorem lab_lease_excludes_witness:
  "isl (fst (acquire ''k'' 100 100 ''b'' ''u'' 60 (snd (acquire ''l'' 50 50 ''b'' ''v'' 60 (new_inventory [board])))))"
proof (rule lab_lease_excludes [THEN conjunct1])
  show "inventory_ok (new_inventory [board])" by (rule new_inventory_ok)
  show "''l'' \<notin> set (lock_ids (new_inventory [board]))" by (simp add: lock_ids_def new_inventory_def)
  show "acquire ''l'' 50 50 ''b'' ''v'' 60 (new_inventory [board]) =
      (Inr \<lparr>lk_lock_id = ''l'', lk_target_id = ''b'', lk_owner = ''v'', lk_expires_at = 110\<rparr>,
       snd (acquire ''l'' 50 50 ''b'' ''v'' 60 (new_inventory [board])))"
    by (simp add: acquire_def new_inventory_def board_def dict_of_def Let_def)
qed simp_all

text \<open>
  The summary of a decoded task list counts every record once: the number of tasks is the
  number of records, the counts by state add up to it, and a state is listed exactly when some
  task is in it, with the number of these tasks.
\<close>

lemma tasks_counted:
  assumes "decode_task_records c ds = Inr ts"
  shows "ts_task_count (summarize_tasks ts) = length ds
    \<and> sum_list (map snd (ts_states (summarize_tasks ts))) = length ds
    \<and> dict_get (ts_states (summarize_tasks ts)) (task_state_value st) =
        (if count_state ts st = 0 then None else Some (count_state ts st))
    \<and> list_all valid_task ts"
  using decode_records [OF assms] states_counted [of ts] states_get [of ts st]
  by (simp add: summarize_tasks_def list_all_iff)

end
