(* ===== verification/Coroutine.thy ===== *)
theory Coroutine
  imports Py_Base
begin

text \<open>
  Coroutines of \<open>asyncio\<close>, as resumptions. A coroutine is done, was cancelled, or waits: resumed, it
  runs without interruption up to its next await. A coroutine that is suspended inside a call to the
  world outside can also be cancelled there; the number says how far this call had come. The
  CancelledError is no \<open>Exception\<close>, so \<open>except Exception\<close> lets it pass and only \<open>finally\<close> runs.

  The combinators mirror those of \<open>prog\<close>, and \<open>run\<close>, which resumes a coroutine until it is done,
  takes each to its counterpart. \<open>keeps_to I R\<close> says that from states of \<open>I\<close> every segment, resumed
  or cancelled, is a step of \<open>R\<close>; it has one rule per combinator.
\<close>

datatype (dead 's, 'a) co =
    Done "'a res"
  | Cancelled
  | Await "'s \<Rightarrow> ('s, 'a) co \<times> 's" "(nat \<times> 's \<Rightarrow> ('s, 'a) co \<times> 's) option"

lemma co_induct [case_names Done Cancelled Await]:
  assumes "\<And>r. P (Done r)" and "P Cancelled"
    and "\<And>f c. (\<And>s. P (fst (f s))) \<Longrightarrow> (\<And>g p. c = Some g \<Longrightarrow> P (fst (g p))) \<Longrightarrow> P (Await f c)"
  shows "P m"
proof (induction m)
  case (Await f c)
  have "P (fst (f s))" for s using Await(1) [of "f s" "fst (f s)"] by (simp add: fsts.simps)
  moreover have "P (fst (g p))" if "c = Some g" for g p
    using Await(2) [of g "g p" "fst (g p)"] that by (simp add: fsts.simps)
  ultimately show ?case by (rule assms(3))
qed (rule assms)+

text \<open>A synchronous segment, and a suspension that can be cancelled.\<close>

definition seg :: "('s, 'a) prog \<Rightarrow> ('s, 'a) co" where
  "seg m = Await (\<lambda>s. case m s of (r, s') \<Rightarrow> (Done r, s')) None"

definition await :: "('s, 'a) prog \<Rightarrow> (nat \<Rightarrow> 's \<Rightarrow> 's) \<Rightarrow> ('s, 'a) co" where
  "await m broken = Await (\<lambda>s. case m s of (r, s') \<Rightarrow> (Done r, s')) (Some (\<lambda>(n, s). (Cancelled, broken n s)))"

abbreviation co_ret :: "'a \<Rightarrow> ('s, 'a) co" where
  "co_ret x \<equiv> Done (Inr x)"

primrec co_try_else :: "('s, 'a) co \<Rightarrow> (py_exc \<Rightarrow> ('s, 'b) co) \<Rightarrow> ('a \<Rightarrow> ('s, 'b) co) \<Rightarrow> ('s, 'b) co" where
  "co_try_else (Done r) h k = (case r of Inl e \<Rightarrow> h e | Inr x \<Rightarrow> k x)"
| "co_try_else Cancelled h k = Cancelled"
| "co_try_else (Await f c) h k =
     Await (\<lambda>s. map_prod (\<lambda>m. co_try_else m h k) id (f s))
       (map_option ((\<circ>) (map_prod (\<lambda>m. co_try_else m h k) id)) c)"

definition co_andthen :: "('s, 'a) co \<Rightarrow> ('a \<Rightarrow> ('s, 'b) co) \<Rightarrow> ('s, 'b) co" where
  "co_andthen m k = co_try_else m (\<lambda>e. Done (Inl e)) k"

definition co_catch :: "('s, 'a) co \<Rightarrow> (py_exc \<Rightarrow> ('s, 'a) co) \<Rightarrow> ('s, 'a) co" where
  "co_catch m h = co_try_else m h co_ret"

text \<open>An exception of \<open>fin\<close> replaces also a cancellation.\<close>

primrec co_finally :: "('s, 'a) co \<Rightarrow> ('s, unit) co \<Rightarrow> ('s, 'a) co" where
  "co_finally (Done r) fin = co_andthen fin (\<lambda>_. Done r)"
| "co_finally Cancelled fin = co_andthen fin (\<lambda>_. Cancelled)"
| "co_finally (Await f c) fin =
     Await (\<lambda>s. map_prod (\<lambda>m. co_finally m fin) id (f s))
       (map_option ((\<circ>) (map_prod (\<lambda>m. co_finally m fin) id)) c)"

primrec co_for_each :: "'x list \<Rightarrow> ('x \<Rightarrow> 'a \<Rightarrow> ('s, 'a) co) \<Rightarrow> 'a \<Rightarrow> ('s, 'a) co" where
  "co_for_each [] body acc = co_ret acc"
| "co_for_each (x # xs) body acc = co_andthen (body x acc) (co_for_each xs body)"

section \<open>Running alone\<close>

text \<open>Nothing cancels a coroutine that runs alone; \<open>calm\<close> ones never come to \<open>Cancelled\<close> by themselves.\<close>

primrec run :: "('s, 'a) co \<Rightarrow> ('s, 'a) prog" where
  "run (Done r) s = (r, s)"
| "run Cancelled s = (Inl (Exc AssertionError []), s)"
| "run (Await f c) s = (case map_prod run id (f s) of (m, s') \<Rightarrow> m s')"

primrec calm :: "('s, 'a) co \<Rightarrow> bool" where
  "calm (Done r) \<longleftrightarrow> True"
| "calm Cancelled \<longleftrightarrow> False"
| "calm (Await f c) \<longleftrightarrow> (\<forall>s. fst (map_prod calm id (f s)))"

lemma run_seg [simp]: "run (seg m) = m" and run_await [simp]: "run (await m c) = m"
  by (rule ext, simp add: seg_def await_def split: prod.split)+

lemma run_Done [simp]: "run (Done r) = lift_res r"
  by (rule ext) simp

lemma calm_basic [simp, intro]: "calm (seg m)" "calm (await m c)"
  by (simp_all add: seg_def await_def split: prod.split)

lemma run_Await: "run (Await f c) s = run (fst (f s)) (snd (f s))"
  by (cases "f s") simp

lemma run_try_else: "calm m \<Longrightarrow> run (co_try_else m h k) s = try_else (run m) (\<lambda>e. run (h e)) (\<lambda>x. run (k x)) s"
  by (induction m arbitrary: s rule: co_induct)
    (simp_all add: try_else_def run_Await del: run.simps(3) split: sum.split)

lemma calm_try_else:
  "calm m \<Longrightarrow> (\<And>e. calm (h e)) \<Longrightarrow> (\<And>x. calm (k x)) \<Longrightarrow> calm (co_try_else m h k)"
  by (induction m rule: co_induct) (simp_all split: sum.split)

lemma run_andthen: "calm m \<Longrightarrow> run (co_andthen m k) = andthen (run m) (\<lambda>x. run (k x))"
  by (rule ext) (simp add: co_andthen_def run_try_else andthen_def try_else_def split: prod.split sum.split)

lemma run_catch: "calm m \<Longrightarrow> run (co_catch m h) = catch (run m) (\<lambda>e. run (h e))"
  by (rule ext) (simp add: co_catch_def run_try_else catch_def try_else_def split: prod.split sum.split)

lemma calm_andthen: "calm m \<Longrightarrow> (\<And>x. calm (k x)) \<Longrightarrow> calm (co_andthen m k)"
  by (simp add: co_andthen_def calm_try_else)

lemma calm_catch: "calm m \<Longrightarrow> (\<And>e. calm (h e)) \<Longrightarrow> calm (co_catch m h)"
  by (simp add: co_catch_def calm_try_else)

lemma run_finally:
  "calm m \<Longrightarrow> calm fin \<Longrightarrow> run (co_finally m fin) s = finally_do (run m) (run fin) s"
  by (induction m arbitrary: s rule: co_induct)
    (simp_all add: finally_do_def run_andthen andthen_def run_Await del: run.simps(3) split: prod.split sum.split)

lemma calm_finally: "calm m \<Longrightarrow> calm fin \<Longrightarrow> calm (co_finally m fin)"
  by (induction m rule: co_induct) (simp_all add: calm_andthen)

lemma calm_for_each: "(\<And>x acc. calm (body x acc)) \<Longrightarrow> calm (co_for_each xs body acc)"
  by (induction xs arbitrary: acc) (simp_all add: calm_andthen)

lemma run_for_each:
  "(\<And>x acc. calm (body x acc)) \<Longrightarrow>
   run (co_for_each xs body acc) = for_each xs (\<lambda>x acc. run (body x acc)) acc"
proof (induction xs arbitrary: acc)
  case (Cons x xs)
  then show ?case by (simp add: run_andthen)
qed (rule ext, simp)

lemma calm_cases:
  "calm m \<Longrightarrow> calm n \<Longrightarrow> calm (if b then m else n)"
  "calm m \<Longrightarrow> (\<And>y. calm (no y)) \<Longrightarrow> calm (case x of None \<Rightarrow> m | Some y \<Rightarrow> no y)"
  "(\<And>e. calm (l e)) \<Longrightarrow> (\<And>y. calm (r y)) \<Longrightarrow> calm (case z of Inl e \<Rightarrow> l e | Inr y \<Rightarrow> r y)"
  "(\<And>a b. calm (p a b)) \<Longrightarrow> calm (case w of (a, b) \<Rightarrow> p a b)"
  by (simp_all split: option.split sum.split prod.split)

lemma calm_Done: "calm (Done r)"
  by simp

lemmas calm_intros =
  calm_Done calm_basic calm_andthen calm_try_else calm_catch calm_finally calm_for_each calm_cases

section \<open>Segments that are steps\<close>

primrec keeps_to :: "('s \<Rightarrow> bool) \<Rightarrow> ('s \<Rightarrow> 's \<Rightarrow> bool) \<Rightarrow> ('s, 'a) co \<Rightarrow> bool" where
  "keeps_to I R (Done r) \<longleftrightarrow> True"
| "keeps_to I R Cancelled \<longleftrightarrow> True"
| "keeps_to I R (Await f c) \<longleftrightarrow>
     (\<forall>s. I s \<longrightarrow> R s (snd (f s)) \<and> fst (map_prod (keeps_to I R) id (f s)))
     \<and> (case map_option ((\<circ>) (map_prod (keeps_to I R) id)) c of
          None \<Rightarrow> True
        | Some g \<Rightarrow> \<forall>p. I (snd p) \<longrightarrow> R (snd p) (snd (g p)) \<and> fst (g p))"

lemma keeps_to_Await:
  "keeps_to I R (Await f c) \<longleftrightarrow>
     (\<forall>s. I s \<longrightarrow> R s (snd (f s)) \<and> keeps_to I R (fst (f s)))
     \<and> (\<forall>g n s. c = Some g \<longrightarrow> I s \<longrightarrow> R s (snd (g (n, s))) \<and> keeps_to I R (fst (g (n, s))))"
  by (cases c) auto

lemma keeps_to_seg: "(\<And>s. I s \<Longrightarrow> R s (snd (m s))) \<Longrightarrow> keeps_to I R (seg m)"
  by (simp add: seg_def split: prod.split) (metis snd_conv)

lemma keeps_to_await:
  "(\<And>s. I s \<Longrightarrow> R s (snd (m s))) \<Longrightarrow> (\<And>n s. I s \<Longrightarrow> R s (broken n s)) \<Longrightarrow> keeps_to I R (await m broken)"
  by (auto simp: await_def split: prod.split) (metis snd_conv)

lemma keeps_to_Done: "keeps_to I R (Done r)"
  by simp

lemma keeps_to_try_else:
  "keeps_to I R m \<Longrightarrow> (\<And>e. keeps_to I R (h e)) \<Longrightarrow> (\<And>x. keeps_to I R (k x)) \<Longrightarrow>
   keeps_to I R (co_try_else m h k)"
  by (induction m rule: co_induct) (auto simp: keeps_to_Await simp del: keeps_to.simps(3) split: sum.split)

lemma keeps_to_andthen:
  "keeps_to I R m \<Longrightarrow> (\<And>x. keeps_to I R (k x)) \<Longrightarrow> keeps_to I R (co_andthen m k)"
  unfolding co_andthen_def by (intro keeps_to_try_else keeps_to_Done)

lemma keeps_to_catch:
  "keeps_to I R m \<Longrightarrow> (\<And>e. keeps_to I R (h e)) \<Longrightarrow> keeps_to I R (co_catch m h)"
  unfolding co_catch_def by (intro keeps_to_try_else keeps_to_Done)

lemma keeps_to_finally: "keeps_to I R m \<Longrightarrow> keeps_to I R fin \<Longrightarrow> keeps_to I R (co_finally m fin)"
proof (induction m rule: co_induct)
  case (Await f c)
  then show ?case by (auto simp: keeps_to_Await simp del: keeps_to.simps(3))
qed (simp_all add: keeps_to_andthen)

lemma keeps_to_for_each:
  "(\<And>x acc. keeps_to I R (body x acc)) \<Longrightarrow> keeps_to I R (co_for_each xs body acc)"
  by (induction xs arbitrary: acc) (simp_all add: keeps_to_andthen)

text \<open>What follows a segment may rely on the result of the segment.\<close>

lemma keeps_to_seg_andthen:
  assumes "ensures R m" and "\<And>s x s'. I s \<Longrightarrow> m s = (Inr x, s') \<Longrightarrow> keeps_to I R (k x)"
  shows "keeps_to I R (co_andthen (seg m) k)"
proof -
  have "R s s'" if "m s = (r, s')" for s r s' using assms(1) that by (rule ensures_run)
  then show ?thesis using assms(2)
    by (auto simp: co_andthen_def seg_def split: prod.split sum.split)
qed

lemma keeps_to_await_andthen:
  assumes "ensures R m" and "\<And>n s. R s (broken n s)"
    and "\<And>s x s'. I s \<Longrightarrow> m s = (Inr x, s') \<Longrightarrow> keeps_to I R (k x)"
  shows "keeps_to I R (co_andthen (await m broken) k)"
proof -
  have "R s s'" if "m s = (r, s')" for s r s' using assms(1) that by (rule ensures_run)
  then show ?thesis using assms(2,3)
    by (auto simp: co_andthen_def await_def split: prod.split sum.split)
qed

lemma keeps_to_cases:
  "keeps_to I R m \<Longrightarrow> keeps_to I R n \<Longrightarrow> keeps_to I R (if b then m else n)"
  "keeps_to I R m \<Longrightarrow> (\<And>y. keeps_to I R (no y)) \<Longrightarrow> keeps_to I R (case x of None \<Rightarrow> m | Some y \<Rightarrow> no y)"
  "(\<And>e. keeps_to I R (l e)) \<Longrightarrow> (\<And>y. keeps_to I R (r y)) \<Longrightarrow>
   keeps_to I R (case z of Inl e \<Rightarrow> l e | Inr y \<Rightarrow> r y)"
  "(\<And>a b. keeps_to I R (p a b)) \<Longrightarrow> keeps_to I R (case w of (a, b) \<Rightarrow> p a b)"
  by (simp_all split: option.split sum.split prod.split)

lemmas keeps_to_intros =
  keeps_to_Done keeps_to_andthen keeps_to_try_else keeps_to_catch keeps_to_finally keeps_to_for_each
  keeps_to_cases

lemma keeps_to_mono:
  "keeps_to I R m \<Longrightarrow> (\<And>s t. R s t \<Longrightarrow> Q s t) \<Longrightarrow> keeps_to I Q m"
  by (induction m rule: co_induct) (auto simp: keeps_to_Await simp del: keeps_to.simps(3))

text \<open>Alone, the segments add up.\<close>

context effect_order
begin

lemma run_keeps: "keeps_to (\<lambda>_. True) R m \<Longrightarrow> R s (snd (run m s))"
proof (induction m arbitrary: s rule: co_induct)
  case (Await f c)
  have "R s (snd (f s))" "R (snd (f s)) (snd (run (fst (f s)) (snd (f s))))"
    using Await.prems Await.IH(1) [of s] by (simp_all add: keeps_to_Await del: keeps_to.simps(3))
  then show ?case using R_trans by (simp add: run_Await del: run.simps(3))
qed (simp_all add: R_refl)

end

section \<open>A part of the state\<close>

text \<open>
  A coroutine on a part of a shared state: every segment reads the part, as others left it, and
  writes it back.
\<close>

definition enter :: "('t \<Rightarrow> 's option) \<Rightarrow> ('s \<Rightarrow> 't \<Rightarrow> 't) \<Rightarrow> ('t, 'a) co \<Rightarrow> ('s \<Rightarrow> ('t, 'a) co \<times> 's) \<Rightarrow>
  't \<Rightarrow> ('t, 'a) co \<times> 't" where
  "enter get put lost f t =
     (case get t of None \<Rightarrow> (lost, t) | Some s \<Rightarrow> (case f s of (m, s') \<Rightarrow> (m, put s' t)))"

definition enter_broken :: "('t \<Rightarrow> 's option) \<Rightarrow> ('s \<Rightarrow> 't \<Rightarrow> 't) \<Rightarrow> (nat \<times> 's \<Rightarrow> ('t, 'a) co \<times> 's) \<Rightarrow>
  nat \<times> 't \<Rightarrow> ('t, 'a) co \<times> 't" where
  "enter_broken get put g p = enter get put Cancelled (\<lambda>s. g (fst p, s)) (snd p)"

primrec co_within ::
  "('t \<Rightarrow> 's option) \<Rightarrow> ('s \<Rightarrow> 't \<Rightarrow> 't) \<Rightarrow> py_exc \<Rightarrow> ('s, 'a) co \<Rightarrow> ('t, 'a) co" where
  "co_within get put lost (Done r) = Done r"
| "co_within get put lost Cancelled = Cancelled"
| "co_within get put lost (Await f c) =
     Await (enter get put (Done (Inl lost)) (\<lambda>s. map_prod (co_within get put lost) id (f s)))
       (map_option (enter_broken get put) (map_option ((\<circ>) (map_prod (co_within get put lost) id)) c))"

lemma calm_within: "calm m \<Longrightarrow> calm (co_within get put lost m)"
  by (induction m rule: co_induct) (auto simp: enter_def split_beta split: option.split)

lemma keeps_to_within:
  assumes "keeps_to (\<lambda>_. True) Q m"
    and "\<And>t s s'. get t = Some s \<Longrightarrow> Q s s' \<Longrightarrow> R t (put s' t)" and "\<And>t. R t t"
  shows "keeps_to I R (co_within get put lost m)"
  using assms(1)
proof (induction m rule: co_induct)
  case (Await f c)
  have f: "R t (snd (enter get put (Done (Inl lost)) (\<lambda>s. map_prod (co_within get put lost) id (f s)) t))
      \<and> keeps_to I R (fst (enter get put (Done (Inl lost)) (\<lambda>s. map_prod (co_within get put lost) id (f s)) t))" for t
  proof (cases "get t")
    case (Some s)
    have "Q s (snd (f s)) \<and> keeps_to (\<lambda>_. True) Q (fst (f s))" using Await.prems by (simp add: keeps_to_Await del: keeps_to.simps(3))
    then show ?thesis using Some Await.IH(1) assms(2) by (cases "f s") (simp add: enter_def, metis fst_conv)
  qed (simp add: enter_def assms(3))
  have g: "R t (snd (enter_broken get put ((\<circ>) (map_prod (co_within get put lost) id) g) (n, t)))
      \<and> keeps_to I R (fst (enter_broken get put ((\<circ>) (map_prod (co_within get put lost) id) g) (n, t)))"
    if c: "c = Some g" for g n t
  proof (cases "get t")
    case (Some s)
    have "Q s (snd (g (n, s))) \<and> keeps_to (\<lambda>_. True) Q (fst (g (n, s)))"
      using Await.prems c by (simp add: keeps_to_Await del: keeps_to.simps(3))
    then show ?thesis using Some Await.IH(2) [OF c, of "(n, s)"] assms(2)
      by (cases "g (n, s)") (simp add: enter_broken_def enter_def)
  qed (simp add: enter_broken_def enter_def assms(3))
  show ?case using f g by (auto simp: keeps_to_Await simp del: keeps_to.simps(3))
qed simp_all

text \<open>Alone, it is the call on the part.\<close>

lemma run_within:
  assumes "calm m" and "keeps_to (\<lambda>_. True) same m" and "get t = Some s"
    and "\<And>t s s'. get t = Some s \<Longrightarrow> same s s' \<Longrightarrow> get (put s' t) = Some s'"
    and "\<And>t s s' s''. get t = Some s \<Longrightarrow> same s s' \<Longrightarrow> put s'' (put s' t) = put s'' t" and "\<And>t s. get t = Some s \<Longrightarrow> put s t = t"
  shows "run (co_within get put lost m) t = (case run m s of (r, s') \<Rightarrow> (r, put s' t))"
  using assms(1-3)
proof (induction m arbitrary: t s rule: co_induct)
  case (Await f c)
  obtain m s' where f: "f s = (m, s')" by fastforce
  have s: "same s s'" "keeps_to (\<lambda>_. True) same m"
    using Await.prems(2) f by (auto simp: keeps_to_Await simp del: keeps_to.simps(3)) (metis fst_conv snd_conv)+
  have "calm m" using Await.prems(1) f by (simp, metis fst_conv)
  then have "run (co_within get put lost m) (put s' t) = (case run m s' of (r, s'') \<Rightarrow> (r, put s'' (put s' t)))"
    using Await.IH(1) [of s "put s' t" s'] f s assms(4) [OF Await.prems(3) s(1)] by simp
  then show ?case using f Await.prems(3) assms(5) [OF Await.prems(3) s(1)]
    by (simp add: enter_def split: prod.split)
qed (simp_all add: assms(6))

end
