(* ===== verification/Session_Coroutines.thy ===== *)
theory Session_Coroutines
  imports Coroutine Tool_Handlers
begin

text \<open>
  The operations of a session as coroutines (\<open>debug/session.py\<close>, \<open>snapshots/service.py\<close> and the
  session parts of \<open>mcp_server/service.py\<close>), cut at every command of GDB, where they can be
  cancelled. A command itself is one segment: commands of one controller are serialized by its lock
  (\<open>MI_Concurrency.serialized\<close>).

  Alone, each coroutine is the operation of \<open>Debug_Session\<close> (the \<open>run_\<close> lemmas), and every segment of
  it, resumed or cancelled, keeps the session's invariant and sends only commands of \<open>P\<close> (\<open>moves P\<close>).
\<close>

section \<open>A command that is cancelled\<close>

text \<open>Lines that are not the answer, read before the cancellation.\<close>

fun skip_passing :: "nat \<Rightarrow> nat \<Rightarrow> read_event list \<Rightarrow> read_event list" where
  "skip_passing tok (Suc n) (Line l # es) = (if passes tok l then skip_passing tok n es else Line l # es)"
| "skip_passing tok n es = es"

text \<open>
  Cancelled while it waits for the lock, or after the command was written and \<open>k\<close> lines were read; the
  \<open>finally\<close> gives the slot of the queue back. A command that the full queue refuses or whose write fails
  raises before it could be cancelled.
\<close>

definition execute_cancelled :: "nat \<Rightarrow> mi_command \<Rightarrow> controller \<Rightarrow> controller" where
  "execute_cancelled n cmd c =
     (case n of
        0 \<Rightarrow> c
      | Suc k \<Rightarrow>
          if try_reserve c = None then c
          else (case write_line (serialize cmd (Some (next_token c))) (transport_of c) of
                  (Inl e, tr) \<Rightarrow> c
                | (Inr _, tr) \<Rightarrow> c\<lparr>next_token := next_token c + 1,
                    transport_of := tr\<lparr>inbox := skip_passing (next_token c) k (inbox tr)\<rparr>\<rparr>))"

lemma execute_cancelled_ok: "controller_ok c \<Longrightarrow> controller_ok (execute_cancelled n cmd c)"
  by (simp add: execute_cancelled_def controller_ok_def split: nat.split prod.split sum.split)

lemma execute_cancelled_extends: "P cmd \<Longrightarrow> extends P c (execute_cancelled n cmd c)"
proof (cases n)
  case (Suc k)
  assume P: "P cmd"
  obtain r tr where w: "write_line (serialize cmd (Some (next_token c))) (transport_of c) = (r, tr)" by fastforce
  show ?thesis
  proof (cases "try_reserve c = None \<or> isl r")
    case False
    then obtain u where u: "r = Inr u" by (cases r) auto
    then have "outbox tr = outbox (transport_of c) @ [serialize cmd (Some (next_token c))]"
      using write_line_outbox [OF w] by simp
    then show ?thesis using False Suc w u P by (auto simp: execute_cancelled_def intro!: extends_one)
  qed (use w Suc written.R_refl in \<open>auto simp: execute_cancelled_def split: sum.split\<close>)
qed (simp add: execute_cancelled_def written.R_refl)

text \<open>
  The command that follows a cancelled one is not confused: the late answer carries a token of its own,
  so it passes as an asynchronous record.
\<close>

lemma cancelled_next_token:
  "next_token c \<le> next_token (execute_cancelled n cmd c)
   \<and> (outbox (transport_of (execute_cancelled n cmd c)) \<noteq> outbox (transport_of c)
      \<longrightarrow> next_token c < next_token (execute_cancelled n cmd c))"
  by (simp add: execute_cancelled_def split: nat.split prod.split sum.split)

section \<open>The operations\<close>

definition broken_at :: "mi_command \<Rightarrow> nat \<Rightarrow> debug_session \<Rightarrow> debug_session" where
  "broken_at cmd n s = s\<lparr>controller_of := execute_cancelled n cmd (controller_of s)\<rparr>"

definition co_gdb :: "mi_command \<Rightarrow> int \<Rightarrow> (debug_session, mi_command_result) co" where
  "co_gdb cmd timeout_ms = await (gdb cmd timeout_ms) (broken_at cmd)"

text \<open>Cancelled while it waits for the process to end, the transition is not made.\<close>

definition co_disconnect :: "int \<Rightarrow> (debug_session, unit) co" where
  "co_disconnect timeout_ms =
     co_finally (co_andthen (co_gdb gdb_exit timeout_ms) (\<lambda>_. co_ret ()))
       (co_andthen (await (on_controller close_controller) (\<lambda>n s. snd (on_controller close_controller s))) (\<lambda>_.
        co_andthen (seg (goto_state DISCONNECTED ''disconnect requested'')) (\<lambda>_. co_ret ())))"

definition co_halt :: "int \<Rightarrow> (debug_session, halt_data) co" where
  "co_halt timeout_ms =
     co_andthen (co_gdb exec_interrupt timeout_ms) (\<lambda>result.
     co_andthen (seg (goto_state HALTED ''target interrupted'')) (\<lambda>_.
     co_ret \<lparr>hd_stop_reason = first_stop_reason (async_records result),
             hd_pc = first_frame_addr (async_records result)\<rparr>))"

definition co_after_timeout :: "bool \<Rightarrow> (debug_session, target_state) co" where
  "co_after_timeout auto_interrupt =
     (if auto_interrupt
      then co_catch (co_andthen (co_halt 2000) (\<lambda>_. seg (gets state_of)))
             (\<lambda>e. co_andthen (seg (goto_state DEGRADED (''interrupt failed: '' @ exc_msg e)))
                (\<lambda>_. seg (gets state_of)))
      else co_andthen (seg (goto_state UNKNOWN ''resume timed out'')) (\<lambda>_. seg (gets state_of)))"

definition co_resume :: "int \<Rightarrow> bool \<Rightarrow> (debug_session, target_state) co" where
  "co_resume max_run_ms auto_interrupt =
     co_try_else (co_gdb exec_continue max_run_ms)
       (\<lambda>e. if exc_of e = MITimeoutError then co_after_timeout auto_interrupt else Done (Inl e))
       (\<lambda>_. co_andthen (seg (goto_state RUNNING ''target resumed'')) (\<lambda>_. seg (gets state_of)))"

definition co_step_instruction :: "int \<Rightarrow> (debug_session, step_instruction_data) co" where
  "co_step_instruction timeout_ms =
     co_andthen (co_gdb exec_step_instruction timeout_ms) (\<lambda>result.
     co_andthen (seg (goto_state HALTED ''instruction stepped'')) (\<lambda>_.
     co_ret \<lparr>sid_pc = first_frame_addr (async_records result)\<rparr>))"

definition co_step_many :: "int \<Rightarrow> int \<Rightarrow> (debug_session, step_instruction_data) co" where
  "co_step_many count timeout_ms =
     co_for_each [0..<nat count] (\<lambda>_ _. co_step_instruction timeout_ms) \<lparr>sid_pc = None\<rparr>"

definition co_read_registers :: "register_group \<Rightarrow> (debug_session, string dict) co" where
  "co_read_registers grp =
     co_andthen (co_gdb (data_list_register_values ''x'') 3000) (\<lambda>result.
     co_andthen (seg (gets connection)) (\<lambda>conn.
     co_ret (normalize_registers (parse_register_values (result_record result))
            (case conn of None \<Rightarrow> ''cortex-m'' | Some cn \<Rightarrow> bc_profile cn))))"

definition co_read_memory :: "string \<Rightarrow> int \<Rightarrow> int \<Rightarrow> int \<Rightarrow> (debug_session, read_memory_data) co" where
  "co_read_memory address len width timeout_ms =
     co_andthen (co_gdb (data_read_memory_bytes address len) timeout_ms) (\<lambda>result.
     co_ret \<lparr>rmd_address = address, rmd_length = len, rmd_width = width,
             rmd_data_hex = parse_memory_contents (result_record result)\<rparr>)"

definition co_check_old_value :: "string \<Rightarrow> string option \<Rightarrow> int \<Rightarrow> (debug_session, unit) co" where
  "co_check_old_value address expected timeout_ms =
     (case expected of
        None \<Rightarrow> co_ret ()
      | Some old \<Rightarrow>
          co_andthen (seg (lift_res (bytes_fromhex old))) (\<lambda>bs.
          co_andthen (co_read_memory address (int (length bs)) 1 timeout_ms) (\<lambda>current.
          if lower (rmd_data_hex current) \<noteq> lower old
          then Done (Inl (Exc DebugSessionError ''expected_old_hex did not match current memory''))
          else co_ret ())))"

definition co_write_memory ::
  "string \<Rightarrow> string \<Rightarrow> string option \<Rightarrow> int \<Rightarrow> (debug_session, write_memory_data) co" where
  "co_write_memory address data_hex expected timeout_ms =
     co_andthen (co_check_old_value address expected timeout_ms) (\<lambda>_.
     co_andthen (co_gdb (data_write_memory_bytes address data_hex) timeout_ms) (\<lambda>_.
     co_andthen (seg (lift_res (bytes_fromhex data_hex))) (\<lambda>bs.
     co_ret \<lparr>wmd_address = address, wmd_bytes_written = int (length bs),
             wmd_verified_old_value = (expected \<noteq> None)\<rparr>)))"

definition co_set_breakpoint ::
  "breakpoint_location \<Rightarrow> breakpoint_type \<Rightarrow> bool \<Rightarrow> int \<Rightarrow> (debug_session, breakpoint_data) co" where
  "co_set_breakpoint location btype temporary timeout_ms =
     co_andthen (co_gdb (break_insert (loc_value location) btype temporary) timeout_ms) (\<lambda>result.
     co_ret \<lparr>bd_breakpoint_id = parse_breakpoint_id (result_record result), bd_location = location,
             bd_type = btype, bd_temporary = temporary\<rparr>)"

definition co_clear_breakpoint :: "string \<Rightarrow> int \<Rightarrow> (debug_session, clear_breakpoint_data) co" where
  "co_clear_breakpoint breakpoint_id timeout_ms =
     co_andthen (co_gdb (break_delete breakpoint_id) timeout_ms) (\<lambda>_.
     co_ret \<lparr>cbd_breakpoint_id = breakpoint_id, cbd_removed = True\<rparr>)"

definition co_reset_target :: "reset_mode \<Rightarrow> int \<Rightarrow> (debug_session, target_state) co" where
  "co_reset_target mode timeout_ms =
     co_andthen (seg (gets (\<lambda>s. backend_resetter (backend_of s)))) (\<lambda>resetter.
       case resetter of
         Some reset \<Rightarrow>
           co_andthen (await (on_controller (reset mode timeout_ms)) (broken_at (reset_command mode))) (\<lambda>st.
           co_andthen (seg (goto_state st (''backend reset '' @ reset_value mode @ '' requested''))) (\<lambda>_.
           seg (gets state_of)))
       | None \<Rightarrow>
           co_andthen (seg (if mode = RESET_HALT then goto_state HALTED ''reset halt requested''
                            else goto_state RUNNING ''reset run requested'')) (\<lambda>_.
           seg (gets state_of)))"

definition co_symbol_context :: "string \<Rightarrow> int \<Rightarrow> int \<Rightarrow> (debug_session, symbol_context) co" where
  "co_symbol_context address instruction_count timeout_ms =
     co_andthen
       (co_catch (co_andthen (co_gdb stack_info_frame timeout_ms)
                    (\<lambda>r. co_ret (dict_get (results (result_record r)) ''frame'')))
              (\<lambda>_. co_ret None)) (\<lambda>frame.
     co_andthen
       (if 0 < instruction_count
        then co_catch (co_andthen (co_gdb (data_disassemble address instruction_count) timeout_ms)
                     (\<lambda>r. co_ret (dict_get (results (result_record r)) ''asm_insns'')))
               (\<lambda>_. co_ret None)
        else co_ret None) (\<lambda>asm_insns.
     co_ret (symbol_context_from_mi address frame asm_insns)))"

section \<open>Snapshots and peripherals\<close>

definition co_read_fault_registers :: "(debug_session, string dict) co" where
  "co_read_fault_registers =
     co_for_each fault_register_addresses (\<lambda>reg acc.
       co_andthen (co_read_memory (snd reg) 4 1 3000) (\<lambda>memory.
       co_andthen (seg (lift_res (little_endian_hex (rmd_data_hex memory)))) (\<lambda>v.
       co_ret (dict_set (fst reg) v acc)))) []"

definition co_read_stack ::
  "debug_snapshot_request \<Rightarrow> string dict \<Rightarrow> (debug_session, string option \<times> string option) co" where
  "co_read_stack request core =
     (if ds_include_stack request \<and> 0 < ds_stack_bytes request
      then (case select_stack_pointer core of
              None \<Rightarrow> co_ret (None, None)
            | Some address \<Rightarrow>
                co_andthen (co_read_memory address (ds_stack_bytes request) 1 3000) (\<lambda>memory.
                co_ret (Some address, Some (rmd_data_hex memory))))
      else co_ret (None, None))"

definition co_capture :: "string \<Rightarrow> string \<Rightarrow> debug_snapshot_request \<Rightarrow> (debug_session, debug_snapshot) co" where
  "co_capture fresh sid request =
     co_andthen (if ds_include_core_registers request
              then co_andthen (co_read_registers GROUP_CORE) (\<lambda>regs. co_ret (normalize_registers regs ''cortex-m''))
              else co_ret []) (\<lambda>core.
     co_andthen (if ds_include_fault_registers request then co_read_fault_registers else co_ret []) (\<lambda>faults.
     co_andthen (co_read_stack request core) (\<lambda>stack.
     co_andthen (case program_counter core of
                None \<Rightarrow> co_ret None
              | Some pc \<Rightarrow>
                  if ds_include_symbol_context request
                  then co_andthen (co_symbol_context pc (ds_disassembly_instructions request) 3000) (\<lambda>c. co_ret (Some c))
                  else co_ret None) (\<lambda>context.
     co_andthen (seg (gets state_of)) (\<lambda>st.
     co_ret \<lparr>snap_id = fresh, snap_session_id = sid, snap_state = st, snap_core_registers = core,
          snap_fault_registers = faults, snap_stack_address = fst stack,
          snap_stack_data_hex = snd stack, snap_symbol_context = context,
          snap_summary = build_summary core faults context\<rparr>)))))"

definition co_inspect_register ::
  "svd_peripheral \<Rightarrow> int \<Rightarrow> string \<Rightarrow> (debug_session, peripheral_register_data) co" where
  "co_inspect_register p timeout_ms name =
     (case dict_get (registers p) name of
        None \<Rightarrow> Done (Inl (key_error name))
      | Some reg \<Rightarrow>
          co_andthen (seg (lift_res (register_address p name))) (\<lambda>address.
          co_andthen (co_read_memory (hex08 address) 4 4 timeout_ms) (\<lambda>memory.
          co_andthen (seg (lift_res (bytes_fromhex (rmd_data_hex memory)))) (\<lambda>bs.
          co_ret \<lparr>prd_name = reg_name reg, prd_address = hex08 address,
               prd_value = hex08 (from_bytes_le bs),
               prd_fields = decode_register reg (from_bytes_le bs)\<rparr>))))"

definition co_inspect_registers ::
  "svd_peripheral \<Rightarrow> int \<Rightarrow> string list \<Rightarrow> (debug_session, peripheral_register_data list) co" where
  "co_inspect_registers p timeout_ms names =
     co_for_each names (\<lambda>name acc. co_andthen (co_inspect_register p timeout_ms name)
       (\<lambda>d. co_ret (acc @ [d]))) []"

section \<open>Alone they are the operations\<close>

lemmas co_defs =
  co_gdb_def co_disconnect_def co_halt_def co_after_timeout_def co_resume_def
  co_step_instruction_def co_read_registers_def co_read_memory_def co_check_old_value_def
  co_write_memory_def co_set_breakpoint_def co_clear_breakpoint_def co_reset_target_def
  co_symbol_context_def co_read_fault_registers_def co_read_stack_def co_capture_def co_inspect_register_def

lemma calm_operations [simp]:
  "calm (co_gdb cmd t)" "calm (co_disconnect t)" "calm (co_halt t)"
  "calm (co_after_timeout b)" "calm (co_resume t b)" "calm (co_step_instruction t)" "calm (co_step_many k t)"
  "calm (co_read_registers g)" "calm (co_read_memory a l w t)" "calm (co_check_old_value a e t)"
  "calm (co_write_memory a d e t)" "calm (co_set_breakpoint loc bt tmp t)" "calm (co_clear_breakpoint i t)"
  "calm (co_reset_target m t)" "calm (co_symbol_context a n t)" "calm co_read_fault_registers"
  "calm (co_read_stack q core)" "calm (co_capture fresh sid q)" "calm (co_inspect_register p t nm)"
  "calm (co_inspect_registers p t nms)"
  unfolding co_defs co_step_many_def co_inspect_registers_def by (intro calm_intros)+

lemmas run_co = run_andthen run_catch run_for_each calm_intros

lemma run_gdb [simp]: "run (co_gdb cmd t) = gdb cmd t"
  by (simp add: co_gdb_def)

lemma run_cases:
  "run (if b then m else n) = (if b then run m else run n)"
  "run (case x of None \<Rightarrow> m | Some y \<Rightarrow> no y) = (case x of None \<Rightarrow> run m | Some y \<Rightarrow> run (no y))"
  "run (case z of Inl e \<Rightarrow> l e | Inr y \<Rightarrow> r y) = (case z of Inl e \<Rightarrow> run (l e) | Inr y \<Rightarrow> run (r y))"
  "run (case w of (a, b) \<Rightarrow> p a b) = (case w of (a, b) \<Rightarrow> run (p a b))"
  by (simp_all split: option.split sum.split prod.split)

lemma lift_ret: "lift_res (Inr x) = ret x" "lift_res (Inl e) = throw e"
  by (rule ext, simp)+

lemma run_disconnect [simp]: "run (co_disconnect t) = disconnect t"
  by (rule ext) (simp add: co_disconnect_def disconnect_def run_finally run_co lift_ret)

lemma run_halt [simp]: "run (co_halt t) = halt t"
  by (simp add: co_halt_def halt_def run_co lift_ret)

lemma run_after_timeout [simp]: "run (co_after_timeout b) = after_timeout b"
  by (simp add: co_after_timeout_def after_timeout_def run_cases run_co lift_ret)

lemma run_resume [simp]: "run (co_resume t b) = resume t b"
  by (rule ext) (simp add: co_resume_def resume_def run_try_else run_cases run_co lift_ret cong: if_cong)

lemma run_step [simp]: "run (co_step_instruction t) = step_instruction t"
  by (simp add: co_step_instruction_def step_instruction_def run_co lift_ret)

lemma run_step_many [simp]: "run (co_step_many k t) = step_many k t"
  by (simp add: co_step_many_def step_many_def run_co)

lemma run_read_registers [simp]: "run (co_read_registers g) = read_registers g"
  by (simp add: co_read_registers_def read_registers_def run_co lift_ret)

lemma run_read_memory [simp]: "run (co_read_memory a l w t) = read_memory a l w t"
  by (simp add: co_read_memory_def read_memory_def run_co lift_ret)

lemma run_check_old_value [simp]: "run (co_check_old_value a e t) = check_old_value a e t"
  by (simp add: co_check_old_value_def check_old_value_def run_cases(1) run_co lift_ret cong: if_cong split: option.split)

lemma run_write_memory [simp]: "run (co_write_memory a d e t) = write_memory a d e t"
  by (simp add: co_write_memory_def write_memory_def run_co lift_ret)

lemma run_breakpoints [simp]:
  "run (co_set_breakpoint loc bt tmp t) = set_breakpoint loc bt tmp t"
  "run (co_clear_breakpoint i t) = clear_breakpoint i t"
  by (simp_all add: co_set_breakpoint_def set_breakpoint_def co_clear_breakpoint_def clear_breakpoint_def
      run_co lift_ret)

lemma run_reset_target [simp]: "run (co_reset_target m t) = reset_target m t"
  by (rule ext)
    (simp add: co_reset_target_def reset_target_def reset_with_def run_cases run_co andthen_def split: option.split)

lemma run_symbol_context [simp]: "run (co_symbol_context a n t) = symbol_context a n t"
  by (simp add: co_symbol_context_def symbol_context_def run_cases run_co lift_ret cong: if_cong)

lemma run_read_fault_registers: "run co_read_fault_registers = read_fault_registers read_memory"
  by (simp add: co_read_fault_registers_def read_fault_registers_def run_co lift_ret split_beta')

lemma run_read_stack: "run (co_read_stack q core) = read_stack read_memory q core"
  by (simp add: co_read_stack_def read_stack_def run_co lift_ret split: option.split)

lemma run_capture [simp]: "run (co_capture fresh sid q) = capture_session fresh sid q"
proof -
  have ctx: "run (case program_counter core of
                None \<Rightarrow> co_ret None
              | Some pc \<Rightarrow>
                  if ds_include_symbol_context q
                  then co_andthen (co_symbol_context pc (ds_disassembly_instructions q) 3000) (\<lambda>c. co_ret (Some c))
                  else co_ret None) = (case (ds_include_symbol_context q, program_counter core, Some symbol_context) of
                (True, Some pc, Some resolve) \<Rightarrow>
                  andthen (resolve pc (ds_disassembly_instructions q) 3000) (\<lambda>c. ret (Some c))
              | _ \<Rightarrow> ret None)" for core
    by (simp add: run_co lift_ret split: option.split bool.split)
  show ?thesis
    unfolding co_capture_def capture_session_def capture_def
    by (simp add: run_co run_read_fault_registers run_read_stack ctx run_cases(1) lift_ret cong: if_cong)
qed

lemma run_inspect_registers [simp]: "run (co_inspect_registers p t nms) = inspect_registers p t nms"
proof -
  have "run (co_inspect_register p t nm) = inspect_register p t nm" for nm
    by (simp add: co_inspect_register_def inspect_register_def run_co lift_ret split: option.split)
  then show ?thesis
    by (simp add: co_inspect_registers_def inspect_registers_def run_co lift_ret)
qed

section \<open>Every segment moves the session\<close>

definition moves :: "(mi_command \<Rightarrow> bool) \<Rightarrow> debug_session \<Rightarrow> debug_session \<Rightarrow> bool" where
  "moves P s t \<longleftrightarrow> session_extends P s t \<and> (session_ok s \<longrightarrow> session_ok t)"

lemma moves_refl: "moves P s s"
  by (simp add: moves_def session_order.R_refl)

interpretation moves_order: effect_order "moves P" for P
  by unfold_locales (simp add: moves_refl, meson moves_def session_order.R_trans)

lemma moves_same_id: "moves P s t \<Longrightarrow> session_id t = session_id s"
  by (simp add: moves_def session_extends_def)

lemma moves_call: "keeps session_ok m \<Longrightarrow> ensures (session_extends P) m \<Longrightarrow> moves P s (snd (m s))"
  by (simp add: moves_def keepsD ensuresD)

lemma moves_seg:
  "keeps session_ok m \<Longrightarrow> ensures (session_extends P) m \<Longrightarrow> keeps_to I (moves P) (seg m)"
  by (intro keeps_to_seg moves_call)

lemma moves_broken: "P cmd \<Longrightarrow> moves P s (broken_at cmd n s)"
  using execute_cancelled_extends [of P cmd "controller_of s" n] execute_cancelled_ok [of "controller_of s" n cmd]
  by (simp add: moves_def broken_at_def session_extends_def session_ok_def history.R_refl)

lemma moves_gdb: "P cmd \<Longrightarrow> keeps_to I (moves P) (co_gdb cmd t)"
  unfolding co_gdb_def by (intro keeps_to_await moves_call moves_broken keeps_intros ensures_gdb)

lemma moves_parts:
  "keeps_to I (moves P) (seg (goto_state to why))" "keeps_to I (moves P) (seg (gets f))"
  "keeps_to I (moves P) (seg (lift_res r))" "keeps_to I (moves P) (seg (modify (\<lambda>s. s\<lparr>connection := cn\<rparr>)))"
  by (intro moves_seg keeps_intros session_ensures)+

lemmas moves_intros = keeps_to_intros moves_parts moves_gdb

lemma moves_disconnect: "P gdb_exit \<Longrightarrow> keeps_to I (moves P) (co_disconnect t)"
  unfolding co_disconnect_def
  by (intro moves_intros keeps_to_await moves_call keeps_intros session_ensures)

lemma moves_halt: "P exec_interrupt \<Longrightarrow> keeps_to I (moves P) (co_halt t)"
  unfolding co_halt_def by (intro moves_intros)

lemma moves_resume:
  "P exec_continue \<Longrightarrow> P exec_interrupt \<Longrightarrow> keeps_to I (moves P) (co_resume t b)"
  unfolding co_resume_def co_after_timeout_def by (intro moves_intros moves_halt)

lemma moves_step_many: "P exec_step_instruction \<Longrightarrow> keeps_to I (moves P) (co_step_many k t)"
  unfolding co_step_many_def co_step_instruction_def by (intro moves_intros)

lemma moves_read_registers:
  "P (data_list_register_values ''x'') \<Longrightarrow> keeps_to I (moves P) (co_read_registers g)"
  unfolding co_read_registers_def by (intro moves_intros)

lemma moves_read_memory: "P (data_read_memory_bytes a l) \<Longrightarrow> keeps_to I (moves P) (co_read_memory a l w t)"
  unfolding co_read_memory_def by (intro moves_intros)

lemma moves_write_memory:
  assumes "\<And>l. P (data_read_memory_bytes a l)" and "P (data_write_memory_bytes a d)"
  shows "keeps_to I (moves P) (co_write_memory a d e t)"
  unfolding co_write_memory_def co_check_old_value_def by (intro moves_intros moves_read_memory assms)

lemma moves_set_breakpoint:
  "P (break_insert (loc_value loc) bt tmp) \<Longrightarrow> keeps_to I (moves P) (co_set_breakpoint loc bt tmp t)"
  unfolding co_set_breakpoint_def by (intro moves_intros)

lemma moves_clear_breakpoint: "P (break_delete i) \<Longrightarrow> keeps_to I (moves P) (co_clear_breakpoint i t)"
  unfolding co_clear_breakpoint_def by (intro moves_intros)

text \<open>Only OpenOCD resets; what it sends is known from the adapter that the session has.\<close>

lemma moves_reset_target:
  assumes "P (reset_command m)"
  shows "keeps_to I (moves P) (co_reset_target m t)"
  unfolding co_reset_target_def
proof (rule keeps_to_seg_andthen)
  show "ensures (moves P) (gets (\<lambda>s. backend_resetter (backend_of s)))"
    by (simp add: ensures_def moves_refl)
  fix s r s' assume "gets (\<lambda>s. backend_resetter (backend_of s)) s = (Inr r, s')"
  then have "r = None \<or> r = Some openocd_reset" using resetter_cases by auto
  then show "keeps_to I (moves P) (case r of
         Some reset \<Rightarrow>
           co_andthen (await (on_controller (reset m t)) (broken_at (reset_command m))) (\<lambda>st.
           co_andthen (seg (goto_state st (''backend reset '' @ reset_value m @ '' requested''))) (\<lambda>_.
           seg (gets state_of)))
       | None \<Rightarrow>
           co_andthen (seg (if m = RESET_HALT then goto_state HALTED ''reset halt requested''
                            else goto_state RUNNING ''reset run requested'')) (\<lambda>_.
           seg (gets state_of)))"
    by (elim disjE; simp only: option.case)
      (intro moves_intros moves_seg keeps_to_await moves_call moves_broken keeps_intros keeps_openocd_reset
        session_ensures assms)+
qed

lemma moves_symbol_context:
  "P stack_info_frame \<Longrightarrow> P (data_disassemble a n) \<Longrightarrow> keeps_to I (moves P) (co_symbol_context a n t)"
  unfolding co_symbol_context_def by (intro moves_intros)

lemma moves_capture:
  assumes "\<And>c. reading c \<Longrightarrow> P c"
  shows "keeps_to I (moves P) (co_capture fresh sid q)"
  unfolding co_capture_def co_read_fault_registers_def co_read_stack_def
  by (intro moves_intros moves_read_registers moves_read_memory moves_symbol_context assms reading_commands)

lemma moves_inspect_registers:
  "(\<And>a. P (data_read_memory_bytes a 4)) \<Longrightarrow> keeps_to I (moves P) (co_inspect_registers p t nms)"
  unfolding co_inspect_registers_def co_inspect_register_def by (intro moves_intros moves_read_memory)

text \<open>Operations do not look at the id a snapshot is given.\<close>

lemma capture_renamed:
  "capture_session fresh sid q = andthen (capture_session any sid q) (\<lambda>snap. ret (snap\<lparr>snap_id := fresh\<rparr>))"
  unfolding capture_session_def capture_def
  by (simp only: andthen_assoc andthen_ret debug_snapshot.update_convs)

end
