(* ===== verification/Handler_Coroutines.thy ===== *)
theory Handler_Coroutines
  imports Session_Coroutines Service_Effects
begin

text \<open>
  The tool handlers as coroutines (\<open>mcp_server/service.py\<close> under \<open>asyncio\<close>), cut at every await of
  their code and also between their synchronous parts, which only adds interleavings. A session is
  shared: every segment of a call finds it as other calls left it, also when the configuration lets
  several calls work on it. Where a handler waits for GDB it can be cancelled.

  Run alone, a handler does exactly what \<open>call_tool\<close> does (\<open>run_handler\<close>).
\<close>

section \<open>Calls on a session\<close>

type_synonym handler = "(service, tool_result) co"

definition session_state :: "string \<Rightarrow> (service, target_state) prog" where
  "session_state sid sv =
     (case held_session sid sv of
        None \<Rightarrow> (Inl (Exc SessionNotFoundError (py_repr sid)), sv)
      | Some s \<Rightarrow> (Inr (state_of s), sv))"

definition co_session :: "string \<Rightarrow> (debug_session, 'a) co \<Rightarrow> (service, 'a \<times> target_state) co" where
  "co_session sid m =
     co_andthen (co_within (held_session sid) (put_session sid) (Exc SessionNotFoundError (py_repr sid)) m) (\<lambda>x.
     co_andthen (seg (session_state sid)) (\<lambda>st. co_ret (x, st)))"

definition co_call :: "string \<Rightarrow> (debug_session, 'a) co \<Rightarrow> ('a \<Rightarrow> tool_data) \<Rightarrow> (service, tool_data \<times> target_state) co" where
  "co_call sid m wrap = co_andthen (co_session sid m) (\<lambda>(x, state). co_ret (wrap x, state))"

definition co_disconnect_call :: "disconnect_target_request \<Rightarrow> (service, tool_data \<times> target_state) co" where
  "co_disconnect_call r =
     co_andthen (co_session (dt_session_id r) (co_disconnect (dt_timeout_ms r))) (\<lambda>(_, state).
     co_andthen (seg (retire (dt_session_id r))) (\<lambda>_.
     co_ret (NoData, state)))"

text \<open>The snapshot object, and with it its id, is made when the capture is complete.\<close>

definition co_snapshot_call :: "debug_snapshot_request \<Rightarrow> (service, tool_data \<times> target_state) co" where
  "co_snapshot_call r =
     co_andthen (co_session (ds_session_id r) (co_capture [] (ds_session_id r) r)) (\<lambda>(captured, state).
     co_andthen (seg (draw_id ''snapshot_'')) (\<lambda>i.
     let snap = captured\<lparr>snap_id := i\<rparr> in
     co_andthen (seg (modify (\<lambda>sv. sv\<lparr>sv_snapshots := dict_set (snap_id snap) snap (sv_snapshots sv)\<rparr>))) (\<lambda>_.
     co_ret (DebugSnapshotData \<lparr>dsd_snapshot_id = snap_id snap, dsd_state = snap_state snap,
                                dsd_summary = snap_summary snap\<rparr>, state))))"

section \<open>The handlers\<close>

definition co_guarded_call ::
  "string \<Rightarrow> tool_request \<Rightarrow> string \<Rightarrow> (service, tool_data \<times> target_state) co
   \<Rightarrow> (service, tool_result + tool_data \<times> target_state) co" where
  "co_guarded_call tool request sid call =
     co_finally
       (co_try_else call
          (\<lambda>e. co_andthen (seg (exception_failure tool request e (Some sid))) (\<lambda>r. co_ret (Inl r)))
          (\<lambda>x. co_ret (Inr x)))
       (seg (modify (release_operation (Some sid))))"

definition co_run_on_session ::
  "string \<Rightarrow> tool_request \<Rightarrow> string \<Rightarrow> string list \<Rightarrow> (service, tool_data \<times> target_state) co \<Rightarrow> handler" where
  "co_run_on_session tool request sid warns call =
     co_andthen (seg (gets (\<lambda>sv. get_session sid (sv_sessions sv)))) (\<lambda>found.
       case found of
         Inl _ \<Rightarrow> seg (failure tool (session_not_found sid) request None [])
       | Inr session \<Rightarrow>
           co_andthen (seg (reserve (Some sid))) (\<lambda>limited.
             case limited of
               Some e \<Rightarrow> seg (failure tool e request (Some sid) [])
             | None \<Rightarrow>
                 co_andthen (co_guarded_call tool request sid call) (\<lambda>x.
                   case x of
                     Inl r \<Rightarrow> co_ret r
                   | Inr (d, state) \<Rightarrow>
                       seg (success tool request d (Some sid) state (state_of session) warns))))"

definition start_with_session ::
  "string \<Rightarrow> debug_operation \<Rightarrow> tool_request \<Rightarrow> string \<Rightarrow> string option
   \<Rightarrow> (service, tool_data \<times> target_state) co \<Rightarrow> handler" where
  "start_with_session tool op request sid tok call =
     co_andthen (seg (decide op request tok)) (\<lambda>decision.
       if \<not> pd_allowed decision
       then seg (policy_failure tool op (to_error decision) request (pd_warnings decision))
       else co_run_on_session tool request sid (pd_warnings decision) call)"

definition start_guarded ::
  "string \<Rightarrow> (service \<Rightarrow> debug_error option) \<Rightarrow> tool_request \<Rightarrow> string option \<Rightarrow> handler \<Rightarrow> handler" where
  "start_guarded tool limit request sid h =
     co_andthen (seg (gets limit)) (\<lambda>limited.
       case limited of Some e \<Rightarrow> seg (failure tool e request sid []) | None \<Rightarrow> h)"

text \<open>
  The body of the \<open>try\<close> of \<open>connect_target\<close>: GDB is spawned, then connected, then registered. Until
  then no other handler can reach the session, so connecting is one segment; cancelled, the session is
  dropped with the process still running.
\<close>

definition spawn_cancelled :: "connect_target_request \<Rightarrow> service \<Rightarrow> service" where
  "spawn_cancelled r sv = sv\<lparr>env_spawned := env_spawned sv @ [gdb_args (ct_gdb_path r) (ct_elf_path r)]\<rparr>"

definition connect_cancelled :: "debug_session \<Rightarrow> connect_target_request \<Rightarrow> nat \<Rightarrow> service \<Rightarrow> service" where
  "connect_cancelled s0 r n sv =
     sv\<lparr>sv_retired := (case ct_endpoint r of
          None \<Rightarrow> s0
        | Some e \<Rightarrow> broken_at (target_select e True) n (snd (goto_state CONNECTING ''connect requested'' s0)))
        # sv_retired sv\<rparr>"

definition start_opening ::
  "(nat \<Rightarrow> string list \<Rightarrow> gdb_io res) \<Rightarrow> connect_target_request \<Rightarrow> string list \<Rightarrow> handler" where
  "start_opening spawn r warns =
     co_andthen (await (create_gdb_debug_session spawn r) (\<lambda>_. spawn_cancelled r)) (\<lambda>s0.
     co_andthen (await (connect_new s0 r) (connect_cancelled s0 r)) (\<lambda>(conn, s).
     co_andthen (seg (register_session s)) (\<lambda>_.
     seg (success ''connect_target'' (ConnectTarget r)
       (ConnectTargetData
          \<lparr>ctd_session_id = session_id s, ctd_backend = bc_backend conn,
           ctd_architecture = bc_architecture conn, ctd_profile = bc_profile conn,
           ctd_state = state_of s\<rparr>)
       (Some (session_id s)) (state_of s) UNKNOWN warns))))"

definition start_connect :: "connect_target_request \<Rightarrow> string option \<Rightarrow> handler" where
  "start_connect r tok =
     start_guarded ''connect_target''
       (\<lambda>sv. check_session_count (sv_limits sv) (int (length (list_ids (sv_sessions sv)))))
       (ConnectTarget r) None
       (co_andthen (seg (gets env_spawn)) (\<lambda>factory.
          case factory of
            None \<Rightarrow> seg (failure ''connect_target''
              (make_error SESSION_FACTORY_UNAVAILABLE ''connect_target requires a configured session factory.''
                 CAT_INTERNAL False None [] None) (ConnectTarget r) None [])
          | Some spawn \<Rightarrow>
              co_andthen (seg (decide OP_CONNECT_TARGET (ConnectTarget r) tok)) (\<lambda>decision.
                if \<not> pd_allowed decision
                then seg (policy_failure ''connect_target'' OP_CONNECT_TARGET (to_error decision)
                       (ConnectTarget r) (pd_warnings decision))
                else co_catch (start_opening spawn r (pd_warnings decision))
                       (\<lambda>e. seg (exception_failure ''connect_target'' (ConnectTarget r) e None)))))"

text \<open>\<open>write_memory\<close> checks its bytes, and their number, before the decision.\<close>

definition start_write :: "write_memory_request \<Rightarrow> string option \<Rightarrow> handler" where
  "start_write r tok =
     (case bytes_fromhex (wm_data_hex r) of
        Inl e \<Rightarrow> seg (failure ''write_memory''
          (make_error VALIDATION_FAILED (''data_hex must be valid hexadecimal bytes: '' @ exc_msg e)
             CAT_VALIDATION False None [] None) (WriteMemory r) (Some (wm_session_id r)) [])
      | Inr bs \<Rightarrow>
          start_guarded ''write_memory'' (\<lambda>sv. check_memory_write (sv_limits sv) (int (length bs)))
            (WriteMemory r) (Some (wm_session_id r))
            (start_with_session ''write_memory'' OP_WRITE_MEMORY (WriteMemory r) (wm_session_id r) tok
              (co_call (wm_session_id r)
                (co_write_memory (wm_address r) (wm_data_hex r) (wm_expected_old_hex r) (wm_timeout_ms r))
                WriteMemoryData)))"

definition start_inspect :: "inspect_peripheral_request \<Rightarrow> handler" where
  "start_inspect r =
     co_andthen (seg (load_document (ip_svd_path r))) (\<lambda>device.
     co_andthen (seg (lift_res (device_peripheral device (ip_peripheral r)))) (\<lambda>peripheral.
     let names = (case ip_registers r of
                    Some (n # ns) \<Rightarrow> n # ns
                  | _ \<Rightarrow> sorted_keys (registers peripheral))
     in start_with_session ''inspect_peripheral'' OP_INSPECT_PERIPHERAL (InspectPeripheral r)
          (ip_session_id r) None
          (co_call (ip_session_id r) (co_inspect_registers peripheral (ip_timeout_ms r) names)
            (\<lambda>regs. InspectPeripheralData
               \<lparr>ipd_device = dev_name device, ipd_peripheral = per_name peripheral,
                ipd_registers = regs\<rparr>))))"

primrec handler_of :: "tool_request \<Rightarrow> string option \<Rightarrow> handler" where
  "handler_of (ConnectTarget r) tok = start_connect r tok"
| "handler_of (DisconnectTarget r) tok =
     start_with_session ''disconnect_target'' OP_DISCONNECT_TARGET (DisconnectTarget r) (dt_session_id r)
       tok (co_disconnect_call r)"
| "handler_of (Halt r) tok =
     start_with_session ''halt'' OP_HALT (Halt r) (ht_session_id r) tok
       (co_call (ht_session_id r) (co_halt (ht_timeout_ms r)) HaltData)"
| "handler_of (Resume r) tok =
     start_with_session ''resume'' OP_RESUME (Resume r) (rs_session_id r) tok
       (co_call (rs_session_id r) (co_resume (rs_max_run_ms r) (rs_auto_interrupt r))
         (\<lambda>state. ResumeData \<lparr>rd_interrupted = (state = HALTED)\<rparr>))"
| "handler_of (StepInstruction r) tok =
     start_with_session ''step_instruction'' OP_STEP_INSTRUCTION (StepInstruction r) (si_session_id r) tok
       (co_call (si_session_id r) (co_step_many (si_count r) (si_timeout_ms r)) StepInstructionData)"
| "handler_of (ResetTarget r) tok =
     start_with_session ''reset_target'' OP_RESET_TARGET (ResetTarget r) (rt_session_id r) tok
       (co_call (rt_session_id r) (co_reset_target (rt_mode r) (rt_timeout_ms r))
         (\<lambda>state. ResetTargetData \<lparr>rtd_mode = rt_mode r, rtd_state = state\<rparr>))"
| "handler_of (ReadRegisters r) tok =
     start_with_session ''read_registers'' OP_READ_REGISTERS (ReadRegisters r) (rr_session_id r) None
       (co_call (rr_session_id r) (co_read_registers (rr_group r)) ReadRegistersData)"
| "handler_of (ReadMemory r) tok =
     start_guarded ''read_memory'' (\<lambda>sv. check_memory_read (sv_limits sv) (rm_length r))
       (ReadMemory r) (Some (rm_session_id r))
       (start_with_session ''read_memory'' OP_READ_MEMORY (ReadMemory r) (rm_session_id r) None
         (co_call (rm_session_id r)
           (co_read_memory (rm_address r) (rm_length r) (rm_width r) (rm_timeout_ms r)) ReadMemoryData))"
| "handler_of (WriteMemory r) tok = start_write r tok"
| "handler_of (SetBreakpoint r) tok =
     start_with_session ''set_breakpoint'' OP_SET_BREAKPOINT (SetBreakpoint r) (sb_session_id r) tok
       (co_call (sb_session_id r)
         (co_set_breakpoint (sb_location r) (sb_type r) (sb_temporary r) (sb_timeout_ms r)) BreakpointData)"
| "handler_of (ClearBreakpoint r) tok =
     start_with_session ''clear_breakpoint'' OP_CLEAR_BREAKPOINT (ClearBreakpoint r) (cb_session_id r) tok
       (co_call (cb_session_id r) (co_clear_breakpoint (cb_breakpoint_id r) (cb_timeout_ms r))
         ClearBreakpointData)"
| "handler_of (DebugSnapshot r) tok =
     start_guarded ''debug_snapshot''
       (\<lambda>sv. if ds_include_stack r then check_snapshot_stack (sv_limits sv) (ds_stack_bytes r) else None)
       (DebugSnapshot r) (Some (ds_session_id r))
       (start_with_session ''debug_snapshot'' OP_DEBUG_SNAPSHOT (DebugSnapshot r) (ds_session_id r) None
         (co_snapshot_call r))"
| "handler_of (AnalyzeFault r) tok = seg (tool_analyze_fault r)"
| "handler_of (InspectPeripheral r) tok = start_inspect r"
| "handler_of (CompareSnapshots r) tok = seg (tool_compare_snapshots r)"
| "handler_of (ExplainCurrentState r) tok = seg (tool_explain_current_state r)"
| "handler_of (SuggestNextDebugSteps r) tok = seg (tool_suggest_next_debug_steps r)"

section \<open>Run alone\<close>

lemma find_replaced:
  "List.find (\<lambda>s. session_id s = sid) ss = Some s \<Longrightarrow> session_id s' = sid \<Longrightarrow>
   List.find (\<lambda>s. session_id s = sid) (replace_session sid s' ss) = Some s'"
  by (induction ss) (auto split: if_splits)

lemma replace_twice:
  "session_id s' = sid \<Longrightarrow> replace_session sid s'' (replace_session sid s' ss) = replace_session sid s'' ss"
  by (induction ss) simp_all

lemma replace_same: "List.find (\<lambda>s. session_id s = sid) ss = Some s \<Longrightarrow> replace_session sid s ss = ss"
  by (induction ss) (simp_all split: if_splits)

lemma dict_set_twice: "dict_set k w (dict_set k v d) = dict_set k w d"
  by (induction d) auto

lemma dict_set_same: "dict_get d k = Some v \<Longrightarrow> dict_set k v d = d"
  by (induction d) auto

lemma held_put:
  assumes "held_session sid sv = Some s" and "session_id s' = session_id s"
  shows "held_session sid (put_session sid s' sv) = Some s'"
proof (cases "dict_get (sv_sessions sv) sid")
  case None
  then have f: "List.find (\<lambda>s. session_id s = sid) (sv_retired sv) = Some s"
    using assms(1) by (simp add: held_session_def)
  then have "session_id s' = sid" using find_session_id assms(2) by fastforce
  from find_replaced [OF f this] show ?thesis using None by (simp add: held_session_def put_session_def)
qed (simp add: held_session_def put_session_def)

lemma put_put:
  assumes "held_session sid sv = Some s" and "session_id s' = session_id s"
  shows "put_session sid s'' (put_session sid s' sv) = put_session sid s'' sv"
proof (cases "dict_get (sv_sessions sv) sid")
  case None
  then have "List.find (\<lambda>s. session_id s = sid) (sv_retired sv) = Some s"
    using assms(1) by (simp add: held_session_def)
  then have "session_id s' = sid" using find_session_id assms(2) by fastforce
  from replace_twice [OF this] show ?thesis using None by (simp add: put_session_def)
qed (simp add: put_session_def dict_set_twice)

lemma put_held: "held_session sid sv = Some s \<Longrightarrow> put_session sid s sv = sv"
  by (simp add: put_session_def held_session_def replace_same dict_set_same split: option.splits)

text \<open>A coroutine on a session, run alone on a session that is held.\<close>

lemma calm_session: "calm m \<Longrightarrow> calm (co_session sid m)"
  unfolding co_session_def by (intro calm_intros calm_within)

lemma run_session:
  assumes "calm m" and "keeps_to (\<lambda>_. True) (moves (\<lambda>_. True)) m" and "held_session sid sv = Some s"
  shows "run (co_session sid m) sv = on_session sid (run m) sv"
proof -
  obtain r s' where m: "run m s = (r, s')" by fastforce
  let ?m = "co_within (held_session sid) (put_session sid) (Exc SessionNotFoundError (py_repr sid)) m"
  have w: "run ?m sv = (r, put_session sid s' sv)"
    using m run_within [where get = "held_session sid" and put = "put_session sid"
        and lost = "Exc SessionNotFoundError (py_repr sid)", OF assms]
    by (simp add: held_put put_put put_held moves_same_id)
  have "session_id s' = session_id s"
    using moves_same_id [OF moves_order.run_keeps [OF assms(2), of s]] m by simp
  then have h: "held_session sid (put_session sid s' sv) = Some s'" using held_put assms(3) by blast
  have "calm ?m" by (rule calm_within [OF assms(1)])
  then show ?thesis
    unfolding co_session_def
    using w h m assms(3)
    by (cases r) (simp_all add: run_andthen calm_intros andthen_def session_state_def on_session_def)
qed

text \<open>The calls of the tools. A session that is found is held until the call begins.\<close>

lemma run_call:
  assumes "calm m" and "keeps_to (\<lambda>_. True) (moves (\<lambda>_. True)) m" and "held_session sid sv \<noteq> None"
  shows "run (co_call sid m wrap) sv = session_call sid (run m) wrap sv"
proof -
  have "run (co_session sid m) sv = on_session sid (run m) sv" using run_session assms by blast
  then show ?thesis
    by (simp add: co_call_def session_call_def run_andthen calm_session assms(1) andthen_def lift_ret
        split: prod.split sum.split)
qed

lemma run_disconnect_call:
  assumes "held_session (dt_session_id r) sv \<noteq> None"
  shows "run (co_disconnect_call r) sv = disconnect_call r sv"
proof -
  have "run (co_session (dt_session_id r) (co_disconnect (dt_timeout_ms r))) sv
      = on_session (dt_session_id r) (disconnect (dt_timeout_ms r)) sv"
    using run_session [OF calm_operations(2) moves_disconnect [OF TrueI]] assms by fastforce
  then show ?thesis
    by (simp add: co_disconnect_call_def disconnect_call_def run_andthen calm_session calm_intros andthen_def
        lift_ret split: prod.split sum.split)
qed

lemma on_session_env:
  "on_session sid m sv = (x, sv') \<Longrightarrow> env_id sv' = env_id sv \<and> env_ids_drawn sv' = env_ids_drawn sv"
  by (auto simp: on_session_def put_session_def split: option.splits prod.splits)

lemma on_session_andthen_ret:
  "on_session sid (andthen m (\<lambda>x. ret (f x))) =
   andthen (on_session sid m) (\<lambda>(x, state). ret (f x, state))"
  by (rule ext) (auto simp: on_session_def andthen_def split: option.split prod.split sum.split)

lemma run_snapshot_call:
  assumes "held_session (ds_session_id r) sv \<noteq> None"
  shows "run (co_snapshot_call r) sv = snapshot_call r sv"
proof -
  let ?capture = "capture_session [] (ds_session_id r) r"
  have run: "run (co_session (ds_session_id r) (co_capture [] (ds_session_id r) r)) sv
      = on_session (ds_session_id r) ?capture sv"
    using run_session [OF calm_operations(18) moves_capture [OF TrueI]] assms by fastforce
  let ?fresh = "''snapshot_'' @ env_id sv (env_ids_drawn sv)"
  have named: "on_session (ds_session_id r) (capture_session ?fresh (ds_session_id r) r) =
      andthen (on_session (ds_session_id r) ?capture) (\<lambda>(snap, state). ret (snap\<lparr>snap_id := ?fresh\<rparr>, state))"
    by (subst capture_renamed [where any = "[]"]) (rule on_session_andthen_ret)
  obtain x sv' where s: "on_session (ds_session_id r) ?capture sv = (x, sv')" by fastforce
  show ?thesis
    using on_session_env [OF s]
    by (cases x) (simp_all add: co_snapshot_call_def snapshot_call_def run_andthen calm_session calm_intros andthen_def
        lift_ret split_beta run named s Let_def draw_id_def del: append_Cons)
qed

section \<open>Alone, the handler is the call\<close>

lemma calm_guarded_call: "calm call \<Longrightarrow> calm (co_guarded_call tool q sid call)"
  unfolding co_guarded_call_def by (intro calm_intros)

lemma run_guarded_call:
  assumes "calm callc" and "run callc sv = call sv"
  shows "run (co_guarded_call tool q sid callc) sv = guarded_call tool q sid call sv"
  using assms
  by (simp add: co_guarded_call_def guarded_call_def run_finally calm_intros finally_do_def run_try_else
      try_else_def run_andthen lift_ret split: prod.split sum.split)

lemma run_run_on_session:
  assumes "calm callc" and "\<And>sv. held_session sid sv \<noteq> None \<Longrightarrow> run callc sv = call sv"
  shows "run (co_run_on_session tool q sid w callc) sv = run_on_session tool q sid w call sv"
proof (cases "get_session sid (sv_sessions sv)")
  case (Inr session)
  then have "dict_get (sv_sessions sv) sid \<noteq> None" by (auto simp: get_session_def split: option.splits)
  then have "held_session sid sv' \<noteq> None" if "reserve (Some sid) sv = (x, sv')" for x sv'
    using that by (auto simp: reserve_def try_reserve_operation_def held_session_def split: option.splits if_splits)
  then have "run (co_guarded_call tool q sid callc) sv' = guarded_call tool q sid call sv'"
    if "reserve (Some sid) sv = (x, sv')" for x sv'
    using that by (intro run_guarded_call assms) blast
  then show ?thesis using Inr
    by (auto simp: co_run_on_session_def run_on_session_def run_andthen calm_guarded_call assms(1) andthen_def
        run_cases lift_ret split: prod.split sum.split option.split)
qed (simp add: co_run_on_session_def run_on_session_def run_andthen run_cases andthen_def)

lemma run_with_session:
  assumes "calm callc" and "\<And>sv. held_session sid sv \<noteq> None \<Longrightarrow> run callc sv = call sv"
  shows "run (start_with_session tool op q sid tok callc) = with_session tool op q sid tok call"
proof -
  have "run (co_run_on_session tool q sid w callc) = run_on_session tool q sid w call" for w
    by (rule ext) (rule run_run_on_session [OF assms])
  then show ?thesis
    by (simp add: start_with_session_def with_session_def run_andthen run_cases(1) cong: if_cong)
qed

lemma run_guarded:
  "run (start_guarded tool limit q sid h) =
   andthen (gets limit) (\<lambda>limited. guard_limit tool limited q sid (run h))"
  by (simp add: start_guarded_def guard_limit_def run_andthen run_cases(2) cong: option.case_cong)

lemma run_opening: "run (start_opening spawn r warns) = open_session spawn r warns"
  by (simp add: start_opening_def open_session_def run_andthen run_cases(4))

lemma calm_opening: "calm (start_opening spawn r warns)"
  unfolding start_opening_def by (intro calm_intros)

lemma run_connect: "run (start_connect r tok) = tool_connect_target r tok"
  by (simp add: start_connect_def tool_connect_target_def run_guarded run_andthen run_cases(1,2) run_catch
      calm_opening run_opening cong: if_cong option.case_cong)

lemmas run_held_call = run_with_session [OF _ run_call]

lemma calm_call: "calm m \<Longrightarrow> calm (co_call sid m wrap)"
  unfolding co_call_def by (intro calm_intros calm_session)

lemma calm_calls: "calm (co_disconnect_call d)" "calm (co_snapshot_call e)"
  unfolding co_disconnect_call_def co_snapshot_call_def Let_def
  by (intro calm_intros calm_session calm_operations)+

theorem run_handler: "run (handler_of r tok) = call_tool r tok"
proof (cases r)
  case (DisconnectTarget a)
  then show ?thesis
    by (simp add: tool_disconnect_target_def run_with_session [OF calm_calls(1) run_disconnect_call])
next
  case (DebugSnapshot a)
  then show ?thesis
    by (simp add: tool_debug_snapshot_def run_guarded run_with_session [OF calm_calls(2) run_snapshot_call])
next
  case (InspectPeripheral a)
  then show ?thesis
    by (simp add: start_inspect_def tool_inspect_peripheral_def run_andthen Let_def run_held_call calm_call
        moves_inspect_registers)
next
  case (WriteMemory a)
  then show ?thesis
    by (simp add: start_write_def tool_write_memory_def run_guarded run_held_call calm_call moves_write_memory
        split: sum.split)
qed (simp_all add: run_connect run_guarded run_held_call calm_call tool_halt_def tool_resume_def
    tool_step_instruction_def tool_reset_target_def tool_read_registers_def tool_read_memory_def
    tool_set_breakpoint_def tool_clear_breakpoint_def moves_halt moves_resume moves_step_many moves_reset_target
    moves_read_registers moves_read_memory moves_set_breakpoint moves_clear_breakpoint)

lemma calm_frame: "calm call \<Longrightarrow> calm (start_with_session tool op q sid tok call)"
  unfolding start_with_session_def co_run_on_session_def by (intro calm_intros calm_guarded_call)

lemma calm_start: "calm h \<Longrightarrow> calm (start_guarded tool limit q sid h)" "calm (start_connect r tok)"
  unfolding start_connect_def start_guarded_def by (intro calm_intros calm_opening, assumption) (intro calm_intros calm_opening)

lemma calm_handler: "calm (handler_of r tok)"
  by (cases r) (auto simp: start_write_def start_inspect_def Let_def calm_andthen calm_start calm_frame calm_call
      calm_calls split: sum.split)

end
