(* ===== verification/Interleaving.thy ===== *)
theory Interleaving
  imports Confirmation_Flow Handler_Coroutines
begin

text \<open>
  Handlers that run at the same time (\<open>mcp_server/service.py\<close> under \<open>asyncio\<close>). The event loop resumes
  a waiting handler up to its next await, or cancels one that waits for GDB, as a client does that
  gives up a request; a schedule is any sequence of these.

  \<open>settles\<close> describes a handler by its segments: each is a step of a relation \<open>R\<close>, or the reservation
  of a slot, or its release, and the handler owes a slot exactly between the two, whether it is
  resumed or cancelled. The locale \<open>segment_parts\<close> proves it of every handler from what \<open>R\<close> holds of
  the parts of the service; \<open>segment_steps\<close> adds what \<open>R\<close> holds of the slots, and carries \<open>R\<close> through
  every schedule. Its interpretation \<open>steps\<close> gives mediation, the service invariant and the fate of
  tokens; \<open>Slot_Settlement\<close> counts the slots.

  A sequence of calls is one of the schedules (\<open>serve_interleaved\<close>).
\<close>

section \<open>The event loop\<close>

datatype loop_event = Continue nat | Abandon nat nat

primrec segment_of :: "loop_event \<Rightarrow> ('s, 'a) co \<Rightarrow> ('s \<Rightarrow> ('s, 'a) co \<times> 's) option" where
  "segment_of (Continue i) h = (case h of Await f c \<Rightarrow> Some f | _ \<Rightarrow> None)"
| "segment_of (Abandon i n) h =
     (case h of Await f c \<Rightarrow> (case c of None \<Rightarrow> None | Some g \<Rightarrow> Some (\<lambda>sv. g (n, sv))) | _ \<Rightarrow> None)"

primrec handler_index :: "loop_event \<Rightarrow> nat" where
  "handler_index (Continue i) = i"
| "handler_index (Abandon i n) = i"

definition loop_step :: "loop_event \<Rightarrow> service \<times> handler list \<Rightarrow> service \<times> handler list" where
  "loop_step e w =
     (case w of (sv, hs) \<Rightarrow>
        if handler_index e < length hs
        then (case segment_of e (hs ! handler_index e) of
                None \<Rightarrow> (sv, hs)
              | Some f \<Rightarrow> (case f sv of (h, sv') \<Rightarrow> (sv', hs[handler_index e := h])))
        else (sv, hs))"

definition play :: "loop_event list \<Rightarrow> service \<times> handler list \<Rightarrow> service \<times> handler list" where
  "play schedule w = foldl (\<lambda>w e. loop_step e w) w schedule"

definition handlers :: "(tool_request \<times> string option) list \<Rightarrow> handler list" where
  "handlers calls = map (\<lambda>(r, tok). handler_of r tok) calls"

definition interleaved :: "loop_event list \<Rightarrow> (tool_request \<times> string option) list \<Rightarrow> service \<Rightarrow> service" where
  "interleaved schedule calls sv = fst (play schedule (sv, handlers calls))"

lemma play_simps [simp]: "play [] w = w" "play (e # es) w = play es (loop_step e w)"
  by (simp_all add: play_def)

lemma play_append: "play (xs @ ys) w = play ys (play xs w)"
  by (simp add: play_def)

section \<open>Segments that settle\<close>

text \<open>A step, with the slot that is owed before and after.\<close>

definition slot_step ::
  "(service \<Rightarrow> service \<Rightarrow> bool) \<Rightarrow> string option \<Rightarrow> string option \<Rightarrow> service \<Rightarrow> service \<Rightarrow> bool" where
  "slot_step R owed owed' a b \<longleftrightarrow>
     owed' = owed \<and> R a b
     \<or> (\<exists>sid. owed = None \<and> owed' = Some sid \<and> try_reserve_operation (Some sid) a = Inr b)
     \<or> (\<exists>sid. owed = Some sid \<and> owed' = None \<and> b = release_operation (Some sid) a)"

primrec settles ::
  "(service \<Rightarrow> bool) \<Rightarrow> (service \<Rightarrow> service \<Rightarrow> bool) \<Rightarrow> (service, 'a) co \<Rightarrow> string option \<Rightarrow> bool" where
  "settles I R (Done r) owed \<longleftrightarrow> owed = None"
| "settles I R Cancelled owed \<longleftrightarrow> owed = None"
| "settles I R (Await f c) owed \<longleftrightarrow>
     (\<forall>s. I s \<longrightarrow> (\<exists>owed'. slot_step R owed owed' s (snd (f s)) \<and> fst (map_prod (settles I R) id (f s)) owed'))
     \<and> (case map_option ((\<circ>) (map_prod (settles I R) id)) c of
          None \<Rightarrow> True
        | Some g \<Rightarrow> \<forall>p. I (snd p) \<longrightarrow> (\<exists>owed'. slot_step R owed owed' (snd p) (snd (g p)) \<and> fst (g p) owed'))"

lemma settles_Await:
  "settles I R (Await f c) owed \<longleftrightarrow>
     (\<forall>s. I s \<longrightarrow> (\<exists>owed'. slot_step R owed owed' s (snd (f s)) \<and> settles I R (fst (f s)) owed'))
     \<and> (\<forall>g n s. c = Some g \<longrightarrow> I s \<longrightarrow>
          (\<exists>owed'. slot_step R owed owed' s (snd (g (n, s))) \<and> settles I R (fst (g (n, s))) owed'))"
  by (cases c) auto

lemma settles_segment:
  assumes "settles I R h owed" and "segment_of e h = Some f" and "I sv"
  shows "\<exists>owed'. slot_step R owed owed' sv (snd (f sv)) \<and> settles I R (fst (f sv)) owed'"
  using assms
  by (cases e; cases h) (auto simp: settles_Await simp del: settles.simps(3) split: option.splits)

lemma slot_step_same: "R a b \<Longrightarrow> slot_step R owed owed a b"
  by (simp add: slot_step_def)

lemma settles_steady: "keeps_to I R m \<Longrightarrow> settles I R m None"
proof (induction m rule: co_induct)
  case (Await f c)
  then show ?case
    by (auto simp: settles_Await keeps_to_Await simp del: settles.simps(3) keeps_to.simps(3)
        intro!: exI [of _ None] slot_step_same)
qed simp_all

lemma settles_try_else:
  "settles I R m owed \<Longrightarrow> (\<And>e. settles I R (h e) None) \<Longrightarrow> (\<And>x. settles I R (k x) None) \<Longrightarrow>
   settles I R (co_try_else m h k) owed"
proof (induction m arbitrary: owed rule: co_induct)
  case (Await f c)
  have "\<exists>owed'. slot_step R owed owed' s (snd (f s)) \<and> settles I R (co_try_else (fst (f s)) h k) owed'" if "I s" for s
    using Await.prems(1) that Await.IH(1) [OF _ Await.prems(2,3)]
    by (simp add: settles_Await del: settles.simps(3)) blast
  moreover have "\<exists>owed'. slot_step R owed owed' s (snd (g (n, s))) \<and> settles I R (co_try_else (fst (g (n, s))) h k) owed'"
    if "I s" "c = Some g" for g n s
    using Await.prems(1) that Await.IH(2) [OF that(2) _ Await.prems(2,3)]
    by (simp add: settles_Await del: settles.simps(3)) blast
  ultimately show ?case by (auto simp: settles_Await simp del: settles.simps(3))
qed (auto split: sum.split)

lemma settles_andthen:
  "settles I R m owed \<Longrightarrow> (\<And>x. settles I R (k x) None) \<Longrightarrow> settles I R (co_andthen m k) owed"
  unfolding co_andthen_def by (intro settles_try_else) simp_all

text \<open>What runs between a reservation and the release of its \<open>finally\<close>.\<close>

lemma settles_finally_release:
  "keeps_to I R m \<Longrightarrow> settles I R (co_finally m (seg (modify (release_operation (Some sid))))) (Some sid)"
proof (induction m rule: co_induct)
  case (Await f c)
  then show ?case
    by (auto simp: settles_Await keeps_to_Await simp del: settles.simps(3) keeps_to.simps(3)
        intro!: exI [of _ "Some sid"] slot_step_same)
qed (auto simp: co_andthen_def seg_def slot_step_def)

lemma settles_reserve:
  assumes "\<And>s. R s s" and "\<And>e. settles I R (k (Some e)) None" and "settles I R (k None) (Some sid)"
  shows "settles I R (co_andthen (seg (reserve (Some sid))) k) None"
  using assms
  by (auto simp: co_andthen_def seg_def reserve_def slot_step_def split: sum.split)

lemma settles_seg_andthen:
  assumes "ensures R m" and "\<And>s x s'. I s \<Longrightarrow> m s = (Inr x, s') \<Longrightarrow> settles I R (k x) None"
  shows "settles I R (co_andthen (seg m) k) None"
proof -
  have "R s s'" if "m s = (r, s')" for s r s' using assms(1) that by (rule ensures_run)
  then show ?thesis using assms(2)
    by (auto simp: co_andthen_def seg_def slot_step_def split: prod.split sum.split)
qed

text \<open>A schedule takes a service and the slots that are owed to another one by such steps.\<close>

lemma settled_step:
  assumes "list_all2 (settles I R) hs oweds" and "I sv" and "loop_step e (sv, hs) = (sv1, hs1)"
  shows "sv1 = sv \<and> hs1 = hs
    \<or> (\<exists>i owed'. i < length oweds \<and> slot_step R (oweds ! i) owed' sv sv1
         \<and> list_all2 (settles I R) hs1 (oweds[i := owed']))"
proof (cases "handler_index e < length hs \<and> segment_of e (hs ! handler_index e) \<noteq> None")
  case True
  let ?i = "handler_index e"
  obtain f where f: "segment_of e (hs ! ?i) = Some f" using True by blast
  have i: "?i < length oweds" using True list_all2_lengthD [OF assms(1)] by simp
  have "settles I R (hs ! ?i) (oweds ! ?i)" using assms(1) True by (simp add: list_all2_nthD)
  then obtain owed' where "slot_step R (oweds ! ?i) owed' sv (snd (f sv))" "settles I R (fst (f sv)) owed'"
    using settles_segment f assms(2) by blast
  moreover have "sv1 = snd (f sv) \<and> hs1 = hs[?i := fst (f sv)]"
    using assms(3) True f by (auto simp: loop_step_def split: prod.splits)
  ultimately show ?thesis using i list_all2_update_cong [OF assms(1)] by blast
next
  case False
  then show ?thesis using assms(3) by (auto simp: loop_step_def split: if_splits)
qed

lemma settled_play:
  assumes "list_all2 (settles I R) hs oweds" and "J sv oweds"
    and "\<And>sv oweds. J sv oweds \<Longrightarrow> I sv"
    and "\<And>sv sv' oweds i owed'. J sv oweds \<Longrightarrow> i < length oweds \<Longrightarrow> slot_step R (oweds ! i) owed' sv sv' \<Longrightarrow>
      J sv' (oweds[i := owed'])"
  shows "\<exists>oweds'. list_all2 (settles I R) (snd (play schedule (sv, hs))) oweds'
    \<and> J (fst (play schedule (sv, hs))) oweds'"
  using assms(1,2)
proof (induction schedule arbitrary: sv hs oweds)
  case (Cons e es)
  obtain sv1 hs1 where w: "loop_step e (sv, hs) = (sv1, hs1)" by fastforce
  obtain oweds1 where "list_all2 (settles I R) hs1 oweds1" and "J sv1 oweds1"
    using settled_step [OF Cons.prems(1) assms(3) [OF Cons.prems(2)] w] Cons.prems assms(4) by blast
  from Cons.IH [OF this] show ?case using w by simp
qed auto

section \<open>The parts of the handlers\<close>

text \<open>
  The interface for interleavings: besides the parts of \<open>call_parts\<close>, the relation holds of what
  connecting does to the service, and it does not change the configuration \<open>base\<close>, under which the
  policy decides.
\<close>

locale segment_parts = call_parts R P for R P +
  fixes base :: service
  assumes config: "R a b \<Longrightarrow> same_config a b"
    and spawns: "R sv (sv\<lparr>env_spawned := started\<rparr>)"
    and drops: "session_ok s \<Longrightarrow> fresh_session P s \<Longrightarrow> R sv (sv\<lparr>sv_retired := s # sv_retired sv\<rparr>)"
    and adds: "session_ok s \<Longrightarrow> fresh_session P s \<Longrightarrow>
      R sv (sv\<lparr>sv_sessions := add_session s (sv_sessions sv)\<rparr>)"
begin

abbreviation steady :: "(service, 'a) co \<Rightarrow> bool" where
  "steady \<equiv> keeps_to (same_config base) R"

abbreviation settled :: "(service, 'a) co \<Rightarrow> string option \<Rightarrow> bool" where
  "settled \<equiv> settles (same_config base) R"

lemma steady_seg: "ensures R m \<Longrightarrow> steady (seg m)"
  by (rule keeps_to_seg) (rule ensuresD)

lemmas steady_intros =
  keeps_to_intros steady_seg of_envelopes of_parts of_decide of_policy_failure ensures_basic

text \<open>A call on a session.\<close>

lemma of_session:
  assumes "keeps_to (\<lambda>_. True) (moves P) m"
  shows "steady (co_session sid m)"
proof -
  have "R t (put_session sid s' t)" if "held_session sid t = Some s" "moves P s s'" for t s s'
    using that by (intro sessions) (auto simp: moves_def)
  moreover have "ensures R (session_state sid)"
    by (rule ensuresI) (simp add: session_state_def R_refl split: option.split)
  ultimately have "steady (co_within (held_session sid) (put_session sid) e m)" "steady (seg (session_state sid))" for e
    by (blast intro: keeps_to_within [OF assms] R_refl, blast intro: steady_seg)
  then show ?thesis
    unfolding co_session_def by (intro keeps_to_andthen keeps_to_Done)
qed

lemma of_co_call: "keeps_to (\<lambda>_. True) (moves P) m \<Longrightarrow> steady (co_call sid m wrap)"
  unfolding co_call_def by (intro steady_intros of_session)

lemma of_co_disconnect: "P gdb_exit \<Longrightarrow> steady (co_disconnect_call r)"
  unfolding co_disconnect_call_def by (intro steady_intros of_session moves_disconnect retires)

lemma of_co_snapshot: "(\<And>c. reading c \<Longrightarrow> P c) \<Longrightarrow> steady (co_snapshot_call r)"
  unfolding co_snapshot_call_def Let_def
  by (intro steady_intros of_session moves_capture ensures_modify snaps)

lemmas of_co_calls = of_co_disconnect of_co_snapshot
  of_co_call [OF moves_halt] of_co_call [OF moves_resume] of_co_call [OF moves_step_many]
  of_co_call [OF moves_reset_target] of_co_call [OF moves_read_registers] of_co_call [OF moves_read_memory]
  of_co_call [OF moves_write_memory] of_co_call [OF moves_set_breakpoint] of_co_call [OF moves_clear_breakpoint]
  of_co_call [OF moves_inspect_registers]

text \<open>
  The frame of a session tool: the slot that is reserved is released, however the call ends. The call
  runs only when the policy permits its operation.
\<close>

lemma of_run_on_session:
  assumes "steady call"
  shows "settled (co_run_on_session tool q sid w call) None"
proof -
  have guarded: "settled (co_guarded_call tool q sid call) (Some sid)"
    unfolding co_guarded_call_def by (intro settles_finally_release steady_intros assms)
  have limited: "settled (seg (failure tool e q (Some sid) [])) None"
    and missing: "settled (seg (failure tool e q None [])) None" for e
    by (intro settles_steady steady_intros)+
  have answer: "settled (case x of Inl r \<Rightarrow> co_ret r
      | Inr (d, state) \<Rightarrow> seg (success tool q d (Some sid) state b w)) None" for x b
    by (intro settles_steady steady_intros)
  show ?thesis
    unfolding co_run_on_session_def
    by (rule settles_seg_andthen [OF ensures_basic(3)])
      (auto intro!: settles_reserve settles_andthen [OF guarded] limited missing answer R_refl split: sum.split)
qed

lemma permits_decided:
  assumes "same_config base sv" and "decide op q tok sv = (Inr dec, sv')" and "pd_allowed dec"
  shows "permits (policy_request_of base op tok)"
  using decide_grants [OF assms(2,3)] policy_request_config [OF assms(1)] by (simp add: granted_def)

lemma of_start_with_session:
  assumes "permits (policy_request_of base op tok) \<Longrightarrow> steady call"
  shows "settled (start_with_session tool op q sid tok call) None"
  unfolding start_with_session_def
proof (rule settles_seg_andthen [OF of_decide])
  fix sv dec sv' assume d: "same_config base sv" "decide op q tok sv = (Inr dec, sv')"
  have "settled (seg (policy_failure tool op (to_error dec) q (pd_warnings dec))) None"
    by (intro settles_steady steady_intros)
  then show "settled (if \<not> pd_allowed dec then seg (policy_failure tool op (to_error dec) q (pd_warnings dec))
      else co_run_on_session tool q sid (pd_warnings dec) call) None"
    using of_run_on_session assms permits_decided [OF d] by auto
qed

lemma of_start_guarded: "settled h None \<Longrightarrow> settled (start_guarded tool limit q sid h) None"
  unfolding start_guarded_def
  by (intro settles_seg_andthen ensures_basic)
    (auto intro: settles_steady steady_intros split: option.split)

text \<open>Connecting. The session is new, and what it has sent comes from here.\<close>

lemma of_create: "ensures R (create_gdb_debug_session spawn r)"
  unfolding create_gdb_debug_session_def
  by (intro ensures_andthen ensures_basic ensures_modify spawns of_parts)

lemma connected_session:
  assumes "\<And>e. P (target_select e True)" and "connect r (new_session (new_controller (new_transport process)) b sid) = (x, s)"
  shows "session_ok s \<and> fresh_session P s"
proof
  have "session_ok (new_session (new_controller (new_transport process)) b sid)" by (simp add: new_session_ok new_controller_ok)
  then show "session_ok s" using keeps_run [OF keeps_connect assms(2)] by blast
  show "fresh_session P s"
    using ensures_run [OF ensures_connect assms(2), of P] assms(1) by (intro fresh_after) blast
qed

lemma of_connect_new:
  assumes "\<And>e. P (target_select e True)"
  shows "ensures R (connect_new (new_session (new_controller (new_transport process)) b sid) r)"
  using connected_session [OF assms] drops R_refl
  by (auto intro!: ensuresI simp: connect_new_def split: prod.split sum.split)

lemma of_connect_cancelled:
  assumes "\<And>e. P (target_select e True)"
  shows "R sv (connect_cancelled (new_session (new_controller (new_transport process)) b sid) r n sv)"
proof -
  let ?new = "new_session (new_controller (new_transport process)) b sid"
  let ?sent = "\<lambda>e. broken_at (target_select e True) n (snd (goto_state CONNECTING ''connect requested'' ?new))"
  have "moves P ?new (snd (goto_state CONNECTING ''connect requested'' ?new))"
    by (intro moves_call keeps_intros session_ensures)
  then have "moves P ?new (?sent e)" for e using moves_order.R_trans moves_broken assms by blast
  moreover have "session_ok ?new" by (simp add: new_session_ok new_controller_ok)
  ultimately have "session_ok (?sent e) \<and> fresh_session P (?sent e)" for e
    unfolding moves_def by (blast intro: fresh_after)
  moreover have "fresh_session P ?new" by (rule fresh_after) (rule session_order.R_refl)
  ultimately show ?thesis using \<open>session_ok ?new\<close> drops
    by (cases "ct_endpoint r") (simp_all add: connect_cancelled_def)
qed

lemma of_register:
  assumes "session_ok s" and "fresh_session P s"
  shows "ensures R (register_session s)"
  unfolding register_session_def by (intro ensures_modify adds assms)

lemma of_opening:
  assumes P: "\<And>e. P (target_select e True)"
  shows "steady (start_opening spawn r w)"
  unfolding start_opening_def
proof (rule keeps_to_await_andthen [OF of_create])
  show "R sv (spawn_cancelled r sv)" for sv by (simp add: spawn_cancelled_def spawns)
  fix sv s0 sv1 assume "create_gdb_debug_session spawn r sv = (Inr s0, sv1)"
  then obtain process sid where s0: "s0 = new_session (new_controller (new_transport process)) (create_backend (ct_backend r)) sid"
    using create_shape by blast
  let ?answer = "\<lambda>conn s. success ''connect_target'' (ConnectTarget r)
      (ConnectTargetData
         \<lparr>ctd_session_id = session_id s, ctd_backend = bc_backend conn,
          ctd_architecture = bc_architecture conn, ctd_profile = bc_profile conn,
          ctd_state = state_of s\<rparr>)
      (Some (session_id s)) (state_of s) UNKNOWN w"
  show "steady (co_andthen (await (connect_new s0 r) (connect_cancelled s0 r)) (\<lambda>(conn, s).
     co_andthen (seg (register_session s)) (\<lambda>_. seg (?answer conn s))))"
    unfolding s0
  proof (rule keeps_to_await_andthen [OF of_connect_new [OF P] of_connect_cancelled [OF P]])
    fix sv x sv' assume "connect_new (new_session (new_controller (new_transport process)) (create_backend (ct_backend r)) sid) r sv
      = (Inr x, sv')"
    then have "session_ok (snd x) \<and> fresh_session P (snd x)"
      using connected_session [OF P] by (auto simp: connect_new_def split: prod.splits sum.splits)
    then show "steady (case x of (conn, s) \<Rightarrow>
        co_andthen (seg (register_session s)) (\<lambda>_. seg (?answer conn s)))"
      by (cases x) (auto intro!: keeps_to_andthen steady_seg of_register of_envelopes)
  qed
qed

lemma of_start_connect:
  assumes "\<And>e. permits (policy_request_of base OP_CONNECT_TARGET tok) \<Longrightarrow> P (target_select e True)"
  shows "settled (start_connect r tok) None"
proof -
  have connecting: "steady (co_catch (start_opening spawn r (pd_warnings dec))
      (\<lambda>e. seg (exception_failure ''connect_target'' (ConnectTarget r) e None)))"
    if "same_config base sv" "decide OP_CONNECT_TARGET (ConnectTarget r) tok sv = (Inr dec, sv')" "pd_allowed dec"
    for spawn sv dec sv'
    using permits_decided [OF that] assms by (intro keeps_to_catch of_opening steady_intros) blast
  have decided: "steady (co_andthen (seg (decide OP_CONNECT_TARGET (ConnectTarget r) tok)) (\<lambda>decision.
      if \<not> pd_allowed decision
      then seg (policy_failure ''connect_target'' OP_CONNECT_TARGET (to_error decision)
             (ConnectTarget r) (pd_warnings decision))
      else co_catch (start_opening spawn r (pd_warnings decision))
             (\<lambda>e. seg (exception_failure ''connect_target'' (ConnectTarget r) e None))))" for spawn
    by (rule keeps_to_seg_andthen [OF of_decide]) (auto intro: connecting steady_seg of_policy_failure)
  show ?thesis
    unfolding start_connect_def
    by (intro of_start_guarded settles_steady keeps_to_andthen keeps_to_cases(2) decided steady_seg
        of_envelopes ensures_basic)
qed

text \<open>Every handler whose commands satisfy \<open>P\<close> where the policy permits its operation.\<close>

theorem of_handler:
  assumes "\<And>c. permitted base r tok \<Longrightarrow> may_send r c \<Longrightarrow> P c"
  shows "settled (handler_of r tok) None"
proof (cases r)
  case (ConnectTarget a)
  then show ?thesis using assms by (auto simp: permitted_def intro!: of_start_connect)
next
  case (InspectPeripheral a)
  then show ?thesis using assms
    by (auto simp: permitted_def start_inspect_def Let_def
        intro!: settles_seg_andthen ensures_basic of_load_document of_start_with_session of_co_calls)
next
  case (WriteMemory a)
  then show ?thesis using assms
    by (auto simp: permitted_def start_write_def
        intro!: settles_steady [OF steady_seg] of_envelopes of_start_guarded of_start_with_session of_co_calls
        split: sum.split)
qed (use assms in \<open>auto simp: permitted_def
    intro!: of_start_guarded of_start_with_session of_co_calls settles_steady [OF steady_seg] of_lookup_tools\<close>)

lemma of_handlers:
  assumes "\<And>r tok c. (r, tok) \<in> set calls \<Longrightarrow> permitted base r tok \<Longrightarrow> may_send r c \<Longrightarrow> P c"
  shows "list_all2 settled (handlers calls) (replicate (length calls) None)"
proof -
  have "settled (handler_of (fst c) (snd c)) None" if "c \<in> set calls" for c
    using that by (intro of_handler assms) auto
  then show ?thesis by (simp add: handlers_def list_all2_conv_all_nth split_beta)
qed

end

text \<open>A relation that holds of the slots too holds of every schedule.\<close>

locale segment_steps = segment_parts R P base for R P base +
  assumes reserves: "try_reserve_operation (Some sid) sv = Inr sv' \<Longrightarrow> R sv sv'"
    and releases: "R sv (release_operation (Some sid) sv)"
begin

lemma of_slot_step: "slot_step R owed owed' sv sv' \<Longrightarrow> R sv sv'"
  using reserves releases by (auto simp: slot_step_def)

lemma of_interleaved:
  assumes "\<And>r tok c. (r, tok) \<in> set calls \<Longrightarrow> permitted base r tok \<Longrightarrow> may_send r c \<Longrightarrow> P c"
    and "same_config base sv"
  shows "R sv (interleaved schedule calls sv)"
proof -
  have "\<exists>oweds'. list_all2 settled (snd (play schedule (sv, handlers calls))) oweds'
      \<and> R sv (fst (play schedule (sv, handlers calls)))"
    by (rule settled_play [where J = "\<lambda>sv' _. R sv sv'", OF of_handlers])
      (use assms R_refl R_trans of_slot_step config same_config_trans in blast)+
  then show ?thesis by (auto simp: interleaved_def)
qed

end

section \<open>What every interleaving keeps\<close>

text \<open>
  The commands that are sent, the service invariant and the tokens that are gone, in one
  relation. The number of sessions is not among them: see \<open>Divergences\<close>.
\<close>

definition progresses :: "(mi_command \<Rightarrow> bool) \<Rightarrow> service \<Rightarrow> service \<Rightarrow> bool" where
  "progresses P a b \<longleftrightarrow>
     service_extends P a b \<and> (service_ok a \<longrightarrow> service_ok b) \<and> store_forward a b"

lemma ensures_progresses:
  "ensures (service_extends P) m \<Longrightarrow> ensures (\<lambda>a b. service_ok a \<longrightarrow> service_ok b) m \<Longrightarrow>
   ensures store_forward m \<Longrightarrow> ensures (progresses P) m"
  by (simp add: ensures_def progresses_def)

interpretation steps: segment_steps "progresses P" P base for P base
proof unfold_locales
  fix a b c :: service
  show "progresses P a a" by (simp add: progresses_def service_order.R_refl store_calls.R_refl)
  show "progresses P a c" if "progresses P a b" "progresses P b c"
    using that service_extends_trans store_calls.R_trans unfolding progresses_def by blast
  show "same_config a b" if "progresses P a b" using that by (simp add: progresses_def service_extends_def)
next
  fix sid sv s s' assume "held_session sid sv = Some s" "session_ok s \<longrightarrow> session_ok s'" "session_extends P s s'"
  then show "progresses P sv (put_session sid s' sv)"
    using put_session_extends service_ok_put
    by (simp add: progresses_def) (simp add: put_session_def store_forward_frame)
next
  fix s sv assume "session_ok s" and "fresh_session P s"
  then show "progresses P sv (sv\<lparr>sv_retired := s # sv_retired sv\<rparr>)"
    "progresses P sv (sv\<lparr>sv_sessions := add_session s (sv_sessions sv)\<rparr>)"
    by (simp_all add: progresses_def drop_session_effect add_session_effect store_forward_frame service_ok_def
        manager_ok_add)
next
  fix sid show "ensures (progresses P) (retire sid)"
    by (intro ensures_progresses ensures_retire ok_calls.retires store_calls.retires)
next
  fix op q show "ensures (progresses P) (issue_token op q)"
    by (intro ensures_progresses ensures_issue_token ok_calls.issues store_calls.issues)
next
  fix d tok now op q show "ensures (progresses P) (on_store (verify d tok now op q))"
    by (intro ensures_progresses ensures_on_store ok_calls.verifies store_calls.verifies)
next
  fix sid sv sv' assume "try_reserve_operation (Some sid) sv = Inr sv'"
  then show "progresses P sv sv'" using ensuresD [OF ensures_reserve_op [of P "Some sid"], of sv]
    by (auto simp: progresses_def reserve_def)
      (auto simp: try_reserve_operation_def service_ok_def store_forward_frame split: option.splits)
next
  fix sid sv show "progresses P sv (release_operation (Some sid) sv)"
    using ensuresD [OF ensures_release_op [of P "Some sid"], of sv]
    by (simp add: progresses_def service_ok_def released_fields)
      (simp add: release_operation_def Let_def store_forward_frame)
qed (auto simp: progresses_def service_ok_def snapshots_ok_set store_forward_frame service_extends_subset
    same_config_def sessions_of_def)

lemma interleaved_progresses:
  "progresses (\<lambda>c. \<exists>(r, tok) \<in> set calls. may_send r c \<and> permitted sv r tok) sv (interleaved schedule calls sv)"
  by (rule steps.of_interleaved [where base = sv]) auto

lemma interleaved_extends:
  assumes "\<And>r tok c. (r, tok) \<in> set calls \<Longrightarrow> may_send r c \<Longrightarrow> permitted sv r tok \<Longrightarrow> P c"
  shows "service_extends P sv (interleaved schedule calls sv)"
  using service_extends_mono [of _ sv "interleaved schedule calls sv" P] interleaved_progresses [of calls sv schedule] assms
  unfolding progresses_def by blast

section \<open>Calls one after the other\<close>

text \<open>Every sequence of calls is one of the schedules: each handler is resumed until it is done.\<close>

lemma play_alone:
  "hs ! i = h \<Longrightarrow> i < length hs \<Longrightarrow> calm h \<Longrightarrow>
   \<exists>n. play (replicate n (Continue i)) (sv, hs) = (snd (run h sv), hs[i := Done (fst (run h sv))])"
proof (induction h arbitrary: sv hs rule: co_induct)
  case (Done r)
  then have "hs[i := Done r] = hs" by (simp add: list_update_same_conv)
  then have "play (replicate 0 (Continue i)) (sv, hs) = (snd (run (Done r) sv), hs[i := Done (fst (run (Done r) sv))])"
    by simp
  then show ?case by blast
next
  case (Await f c)
  obtain g sv1 where f: "f sv = (g, sv1)" by fastforce
  have "calm (fst (f sv))" using Await.prems(3) by simp
  then obtain n where n: "play (replicate n (Continue i)) (sv1, hs[i := g])
      = (snd (run g sv1), (hs[i := g])[i := Done (fst (run g sv1))])"
    using Await.IH(1) [of "hs[i := g]" sv sv1] Await.prems f by auto
  have "play (replicate (Suc n) (Continue i)) (sv, hs) = play (replicate n (Continue i)) (sv1, hs[i := g])"
    using Await.prems f by (simp add: loop_step_def)
  also have "\<dots> = (snd (run (Await f c) sv), hs[i := Done (fst (run (Await f c) sv))])"
    using n f by simp
  finally show ?case by blast
qed simp

lemma serve_played: "\<exists>schedule. fst (play schedule (sv, done @ handlers calls)) = serve calls sv"
proof (induction calls sv arbitrary: "done" rule: serve.induct)
  case (1 sv)
  have "fst (play [] (sv, done @ handlers [])) = serve [] sv" by simp
  then show ?case by blast
next
  case (2 r tok calls sv)
  let ?hs = "done @ handlers ((r, tok) # calls)" and ?i = "length done"
  obtain n where n: "play (replicate n (Continue ?i)) (sv, ?hs) =
      (snd (call_tool r tok sv), ?hs[?i := Done (fst (call_tool r tok sv))])"
    using play_alone [of ?hs ?i "handler_of r tok" sv] calm_handler by (auto simp: handlers_def run_handler)
  have hs: "?hs[?i := Done x] = (done @ [Done x]) @ handlers calls" for x
    by (simp add: handlers_def)
  obtain schedule where "fst (play schedule (snd (call_tool r tok sv),
      (done @ [Done (fst (call_tool r tok sv))]) @ handlers calls)) = serve calls (snd (call_tool r tok sv))"
    using 2 by blast
  then have "fst (play (replicate n (Continue ?i) @ schedule) (sv, ?hs)) = serve ((r, tok) # calls) sv"
    using n hs by (simp add: play_append)
  then show ?case by blast
qed

lemma serve_interleaved: "\<exists>schedule. interleaved schedule calls sv = serve calls sv"
  using serve_played [of sv "[]" calls] by (simp add: interleaved_def)

section \<open>No schedule goes on for ever\<close>

definition sub_handler :: "(handler \<times> handler) set" where
  "sub_handler = {(fst (f sv), h) | e h f sv. segment_of e h = Some f}"

lemma wf_sub_handler: "wf sub_handler"
proof (rule wfUNIVI)
  fix Q h assume step: "\<forall>h. (\<forall>g. (g, h) \<in> sub_handler \<longrightarrow> Q g) \<longrightarrow> Q h"
  have leaf: "Q h" if "\<And>e. segment_of e h = None" for h using step that by (auto simp: sub_handler_def)
  show "Q h"
  proof (induction h rule: co_induct)
    case (Done r)
    show ?case by (rule leaf) (case_tac e; simp)
  next
    case Cancelled
    show ?case by (rule leaf) (case_tac e; simp)
  next
    case (Await f c)
    have "Q (fst (k sv))" if "segment_of e (Await f c) = Some k" for e k sv
      using that Await by (cases e) (auto split: option.splits)
    then have "\<forall>g. (g, Await f c) \<in> sub_handler \<longrightarrow> Q g" by (auto simp: sub_handler_def)
    then show ?case using step by blast
  qed
qed

definition resumption :: "((service \<times> handler list) \<times> service \<times> handler list) set" where
  "resumption = {(loop_step e w, w) | e w.
     handler_index e < length (snd w) \<and> segment_of e (snd w ! handler_index e) \<noteq> None}"

lemma wf_resumption: "wf resumption"
proof -
  have "(hs', hs) \<in> listrel1 sub_handler"
    if w: "loop_step e (sv, hs) = (sv', hs')" and i: "handler_index e < length hs"
      and f: "segment_of e (hs ! handler_index e) = Some f"
    for e sv hs sv' hs' f
  proof -
    let ?i = "handler_index e"
    have "hs' = hs[?i := fst (f sv)]" using w i f by (auto simp: loop_step_def split: prod.splits)
    moreover have "(fst (f sv), hs ! ?i) \<in> sub_handler" using f by (auto simp: sub_handler_def)
    ultimately show ?thesis using i id_take_nth_drop [OF i] upd_conv_take_nth_drop [OF i, of "fst (f sv)"]
      by (metis listrel1I)
  qed
  then have "resumption \<subseteq> inv_image (listrel1 sub_handler) snd"
    unfolding resumption_def by (clarsimp) (metis prod.collapse)
  moreover have "wf (listrel1 sub_handler)" using wf_sub_handler by (simp add: wf_listrel1_iff)
  ultimately show ?thesis using wf_subset wf_inv_image by blast
qed

end
