(* ===== verification/Slot_Settlement.thy ===== *)
theory Slot_Settlement
  imports Interleaving "HOL-Library.Multiset"
begin

text \<open>
  The slots of concurrent calls under every schedule, cancellations included
  (\<open>_try_reserve_operation\<close> and \<open>_release_operation\<close> in \<open>mcp_server/service.py\<close>). Between a
  reservation and its release a handler leaves the counters alone (\<open>same_slots\<close>), so they count exactly
  the handlers that owe a slot: they keep their limits, and they are zero when no handler waits.
\<close>

definition same_slots :: "service \<Rightarrow> service \<Rightarrow> bool" where
  "same_slots a b \<longleftrightarrow> service_extends (\<lambda>_. True) a b
     \<and> sv_active_tool_calls b = sv_active_tool_calls a
     \<and> sv_active_session_operations b = sv_active_session_operations a"

lemma same_slotsI:
  "ensures (service_extends (\<lambda>_. True)) m \<Longrightarrow>
   (\<And>sv. sv_active_tool_calls (snd (m sv)) = sv_active_tool_calls sv
      \<and> sv_active_session_operations (snd (m sv)) = sv_active_session_operations sv) \<Longrightarrow>
   ensures same_slots m"
  by (simp add: ensures_def same_slots_def)

interpretation slots: segment_parts same_slots "\<lambda>_. True" base for base
proof unfold_locales
  fix a b c :: service
  show "same_slots a a" by (simp add: same_slots_def service_order.R_refl)
  show "same_slots a c" if "same_slots a b" "same_slots b c"
    using that service_extends_trans unfolding same_slots_def by metis
  show "same_config a b" if "same_slots a b" using that by (simp add: same_slots_def service_extends_def)
next
  fix sid sv s s' assume "held_session sid sv = Some s" "session_extends (\<lambda>_. True) s s'"
  then show "same_slots sv (put_session sid s' sv)"
    using put_session_extends by (simp add: same_slots_def) (simp add: put_session_def)
next
  fix s sv assume "session_ok s" and "fresh_session (\<lambda>_. True) s"
  then show "same_slots sv (sv\<lparr>sv_retired := s # sv_retired sv\<rparr>)"
    "same_slots sv (sv\<lparr>sv_sessions := add_session s (sv_sessions sv)\<rparr>)"
    by (simp_all add: same_slots_def drop_session_effect add_session_effect)
next
  fix sid show "ensures same_slots (retire sid)"
    by (intro same_slotsI ensures_retire) (simp add: retire_def split: prod.split sum.split)
next
  fix op q show "ensures same_slots (issue_token op q)"
    by (intro same_slotsI ensures_issue_token) (simp add: issue_token_steps)
next
  fix d tok now op q show "ensures same_slots (on_store (verify d tok now op q))"
    by (intro same_slotsI ensures_on_store) (simp add: store_after_verify)
qed (simp_all add: same_slots_def service_extends_subset same_config_def sessions_of_def)

section \<open>Counting\<close>

definition slots_match :: "service \<Rightarrow> service \<Rightarrow> string option list \<Rightarrow> bool" where
  "slots_match base sv oweds \<longleftrightarrow>
     same_config base sv
     \<and> sv_active_tool_calls sv = int (size (filter_mset (\<lambda>x. x \<noteq> None) (mset oweds)))
     \<and> sv_active_tool_calls sv \<le> max 0 (max_concurrent_tool_calls (sv_limits base))
     \<and> (\<forall>sid. active_of sv sid = int (count (mset oweds) (Some sid)))
     \<and> (\<forall>sid. int (count (mset oweds) (Some sid)) \<le> max 0 (max_session_operations (sv_limits base)))"

lemma reserved_counts:
  assumes "try_reserve_operation (Some sid) sv = Inr sv'"
  shows "same_config sv sv' \<and> sv_active_tool_calls sv < max_concurrent_tool_calls (sv_limits sv)
    \<and> sv_active_tool_calls sv' = sv_active_tool_calls sv + 1
    \<and> active_of sv sid < max_session_operations (sv_limits sv)
    \<and> active_of sv' = (active_of sv)(sid := active_of sv sid + 1)"
proof -
  have "same_config sv sv'"
    using ensuresD [OF ensures_reserve_op [of "\<lambda>_. True" "Some sid"], of sv] assms
    by (simp add: reserve_def service_extends_def)
  then show ?thesis using reserve_forD [of "\<lambda>_. Some sid" 0 sv sv'] assms by (simp add: reserve_for_def)
qed

lemma released_counts:
  "same_config sv (release_operation (Some sid) sv)
   \<and> sv_active_tool_calls (release_operation (Some sid) sv) = max 0 (sv_active_tool_calls sv - 1)
   \<and> active_of (release_operation (Some sid) sv) = (active_of sv)(sid := max 0 (active_of sv sid - 1))"
proof -
  have "same_config sv (release_operation (Some sid) sv)"
    using ensuresD [OF ensures_release_op [of "\<lambda>_. True" "Some sid"], of sv] by (simp add: service_extends_def)
  then show ?thesis using release_forD [of "\<lambda>_. Some sid" 0 sv] by (simp add: release_for_def)
qed

text \<open>A step of one handler, where \<open>rest\<close> is what the others owe.\<close>

lemma slot_step_matches:
  assumes "slots_match base sv oweds" and "i < length oweds" and "slot_step same_slots (oweds ! i) owed' sv sv'"
  shows "slots_match base sv' (oweds[i := owed'])"
proof -
  obtain others where m: "mset oweds = add_mset (oweds ! i) others"
    using assms(2) by (metis mset_add nth_mem_mset)
  have m': "mset (oweds[i := owed']) = add_mset owed' others"
    using mset_update [OF assms(2), of owed'] m by simp
  have limits: "sv_limits sv = sv_limits base" using assms(1) by (simp add: slots_match_def same_config_def)
  consider "owed' = oweds ! i" "same_slots sv sv'"
    | sid where "oweds ! i = None" "owed' = Some sid" "try_reserve_operation (Some sid) sv = Inr sv'"
    | sid where "oweds ! i = Some sid" "owed' = None" "sv' = release_operation (Some sid) sv"
    using assms(3) by (auto simp: slot_step_def)
  then show ?thesis
  proof cases
    case 1
    then have "active_of sv' = active_of sv" by (simp add: same_slots_def active_of_def fun_eq_iff)
    moreover have "same_config base sv'"
      using 1(2) assms(1) same_config_trans unfolding slots_match_def same_slots_def service_extends_def by blast
    ultimately show ?thesis using 1 assms(1) by (simp add: slots_match_def same_slots_def)
  next
    case 2
    then show ?thesis using reserved_counts [OF 2(3)] assms(1) m m' limits same_config_trans
      by (auto simp: slots_match_def)
  next
    case 3
    have "int (count others x) \<le> int (count (mset oweds) x)" for x using m by simp
    then have "int (count others (Some x)) \<le> max 0 (max_session_operations (sv_limits base))" for x
      using assms(1) unfolding slots_match_def by (meson order_trans)
    then show ?thesis using 3 released_counts [of sv sid] assms(1) m m' same_config_trans
      by (auto simp: slots_match_def)
  qed
qed

primrec waits :: "('s, 'a) co \<Rightarrow> bool" where
  "waits (Done r) = False"
| "waits Cancelled = False"
| "waits (Await f c) = True"

lemma settled_owes: "settles I R h owed \<Longrightarrow> owed \<noteq> None \<Longrightarrow> waits h"
  by (cases h) auto

lemma owed_waiting:
  "list_all2 (settles I R) hs oweds \<Longrightarrow> size (filter_mset (\<lambda>x. x \<noteq> None) (mset oweds)) \<le> length (filter waits hs)"
  by (induction rule: list_all2_induct) (auto dest: settled_owes)

lemma count_owed: "count (mset oweds) (Some sid) \<le> size (filter_mset (\<lambda>x. x \<noteq> None) (mset oweds))"
  by (induction oweds) auto

lemma slots_settled:
  assumes "sv_active_tool_calls sv = 0" and "\<forall>sid. active_of sv sid = 0"
    and "play schedule (sv, handlers calls) = (sv', hs)"
  shows "0 \<le> active_of sv' sid \<and> active_of sv' sid \<le> sv_active_tool_calls sv'
    \<and> sv_active_tool_calls sv' \<le> int (length (filter waits hs))
    \<and> sv_active_tool_calls sv' \<le> max 0 (max_concurrent_tool_calls (sv_limits sv))
    \<and> active_of sv' sid \<le> max 0 (max_session_operations (sv_limits sv))"
proof -
  have "slots_match sv sv (replicate (length calls) None)"
    using assms(1,2) by (simp add: slots_match_def)
  then have "\<exists>oweds. list_all2 (settles (same_config sv) same_slots) (snd (play schedule (sv, handlers calls))) oweds
      \<and> slots_match sv (fst (play schedule (sv, handlers calls))) oweds"
    by (intro settled_play [OF slots.of_handlers] slot_step_matches TrueI) (simp_all add: slots_match_def)
  then obtain oweds where "list_all2 (settles (same_config sv) same_slots) hs oweds" and m: "slots_match sv sv' oweds"
    using assms(3) by auto
  then show ?thesis using owed_waiting [of _ _ hs oweds] count_owed [of oweds sid]
    by (force simp: slots_match_def)
qed

end
