(* ===== verification/Loop_Runs.thy ===== *)
theory Loop_Runs
  imports Slot_Settlement
begin

text \<open>
  Schedules that are followed step by step: what the event loop makes of the combinators
  (\<open>loop_simps\<close>), and three runs in general form, a call cancelled at GDB, a connect cancelled at GDB,
  and two connects that overtake each other's check of the session count.
\<close>

section \<open>Following a schedule\<close>

lemma segment_leaf:
  "segment_of (Continue i) (seg m) = Some (\<lambda>s. case m s of (r, s') \<Rightarrow> (Done r, s'))"
  "segment_of (Continue i) (await m b) = Some (\<lambda>s. case m s of (r, s') \<Rightarrow> (Done r, s'))"
  "segment_of (Abandon i n) (await m b) = Some (\<lambda>s. (Cancelled, b n s))"
  by (simp_all add: seg_def await_def)

lemma waits_leaf: "waits (seg m)" "waits (await m b)"
  by (simp_all add: seg_def await_def)

lemma waits_nested:
  "waits m \<Longrightarrow> waits (co_try_else m h k)" "waits m \<Longrightarrow> waits (co_andthen m k')" "waits m \<Longrightarrow> waits (co_catch m h')"
  "waits m \<Longrightarrow> waits (co_finally m fin)"
  by (cases m; simp add: co_andthen_def co_catch_def)+

lemma waits_within: "waits m \<Longrightarrow> waits (co_within get put lost m)"
  by (cases m) simp_all

lemma segment_try_else:
  "waits m \<Longrightarrow> segment_of e (co_try_else m h k) =
     map_option (\<lambda>f s. map_prod (\<lambda>m. co_try_else m h k) id (f s)) (segment_of e m)"
  by (cases m; cases e) (auto simp: comp_def split: option.split)

lemma segment_andthen:
  "waits m \<Longrightarrow> segment_of e (co_andthen m k) =
     map_option (\<lambda>f s. map_prod (\<lambda>m. co_andthen m k) id (f s)) (segment_of e m)"
  by (simp add: co_andthen_def segment_try_else)

lemma segment_catch:
  "waits m \<Longrightarrow> segment_of e (co_catch m h) =
     map_option (\<lambda>f s. map_prod (\<lambda>m. co_catch m h) id (f s)) (segment_of e m)"
  by (simp add: co_catch_def segment_try_else)

lemma segment_finally:
  "waits m \<Longrightarrow> segment_of e (co_finally m fin) =
     map_option (\<lambda>f s. map_prod (\<lambda>m. co_finally m fin) id (f s)) (segment_of e m)"
  by (cases m; cases e) (auto simp: comp_def split: option.split)

lemma segment_within:
  "waits m \<Longrightarrow> segment_of e (co_within get put lost m) =
     map_option (\<lambda>f. enter get put (case e of Continue i \<Rightarrow> Done (Inl lost) | Abandon i n \<Rightarrow> Cancelled)
       (\<lambda>s. map_prod (co_within get put lost) id (f s))) (segment_of e m)"
  by (cases m; cases e) (auto simp: comp_def enter_broken_def fun_eq_iff split: option.split)

lemma co_ends:
  "co_andthen (Done (Inr x)) k = k x" "co_andthen (Done (Inl e)) k = Done (Inl e)" "co_andthen Cancelled k = Cancelled"
  "co_catch (Done (Inr y)) h = Done (Inr y)" "co_catch (Done (Inl e)) h = h e" "co_catch Cancelled h = Cancelled"
  by (simp_all add: co_andthen_def co_catch_def)

lemmas loop_simps =
  segment_leaf waits_leaf waits_nested waits_within segment_try_else segment_andthen segment_catch
  segment_finally segment_within co_ends loop_step_def handlers_def interleaved_def

lemma decide_unconfirmed: "decide op q None sv = (Inr (evaluate (policy_request_of sv op None)), sv)"
  by (simp add: decide_def)

section \<open>A call cancelled at GDB\<close>

text \<open>
  The command was written when the client gave up: the slot is released, and nothing is logged.
\<close>

lemma halt_cancelled:
  assumes "pd_allowed (evaluate (policy_request_of sv OP_HALT None))"
    and "try_reserve_operation (Some (ht_session_id r)) sv = Inr sv1"
    and "dict_get (sv_sessions sv) (ht_session_id r) = Some s"
  shows "play (map Continue [0, 0, 0] @ [Abandon 0 n, Continue 0]) (sv, handlers [(Halt r, None)]) =
    (release_operation (Some (ht_session_id r)) (put_session (ht_session_id r) (broken_at exec_interrupt n s) sv1),
     [Cancelled])"
proof -
  have "held_session (ht_session_id r) sv1 = Some s"
    using assms(2,3) by (auto simp: try_reserve_operation_def held_session_def split: option.splits)
  then show ?thesis using assms
    by (simp add: loop_simps start_with_session_def decide_unconfirmed co_run_on_session_def get_session_def
        reserve_def co_guarded_call_def co_call_def co_session_def co_halt_def co_gdb_def enter_def del: segment_of.simps)
qed

section \<open>A connect cancelled at GDB\<close>

lemma connect_abandoned:
  assumes "check_session_count (sv_limits sv) (int (length (sv_sessions sv))) = None" and "env_spawn sv = Some spawn"
    and "pd_allowed (evaluate (policy_request_of sv OP_CONNECT_TARGET None))"
    and "create_gdb_debug_session spawn r sv = (Inr s0, sv1)"
  shows "interleaved (map Continue [0, 0, 0, 0] @ [Abandon 0 n]) [(ConnectTarget r, None)] sv
    = connect_cancelled s0 r n sv1"
  by (simp add: assms loop_simps start_connect_def start_guarded_def decide_unconfirmed start_opening_def
      del: segment_of.simps)

section \<open>Two connects at the same time\<close>

text \<open>
  Both pass the check of the count, and then each opens its session: the limit is checked once for two
  sessions.
\<close>

lemma racing_connects:
  assumes "check_session_count (sv_limits sv) (int (length (sv_sessions sv))) = None" and "env_spawn sv = Some spawn"
    and "pd_allowed (evaluate (policy_request_of sv OP_CONNECT_TARGET None))"
    and "create_gdb_debug_session spawn r sv = (Inr s0, sv1)" and "connect_new s0 r sv1 = (Inr (conn, s), sv2)"
    and "create_gdb_debug_session spawn r (sv2\<lparr>sv_sessions := add_session s (sv_sessions sv2)\<rparr>) = (Inr t0, sv3)"
    and "connect_new t0 r sv3 = (Inr (conn', t), sv4)"
  shows "interleaved (map Continue [0, 0, 0, 1, 1, 1, 0, 0, 0, 1, 1, 1]) [(ConnectTarget r, None), (ConnectTarget r, None)] sv
    = sv4\<lparr>sv_sessions := add_session t (sv_sessions sv4)\<rparr>"
  by (simp add: assms loop_simps start_connect_def start_guarded_def decide_unconfirmed start_opening_def register_session_def
      del: segment_of.simps)

end
