(* ===== verification/Divergences.thy ===== *)
theory Divergences
  imports Scenarios Loop_Runs
begin

text \<open>
  Where the code does not do what it means to, or what its documents say: each lemma shows the
  behaviour on the model, most on a concrete run. None of them is used by the properties.
\<close>

section \<open>The MI protocol\<close>

text \<open>
  GDB escapes bytes outside ASCII in octal; the parser drops the backslash and keeps the digits.
\<close>

lemma octal_escape_keeps_digits: "unescape (CHR ''3'') = CHR ''3''"
  by code_simp

text \<open>GDB prints its prompt with a space at the end; the parser accepts it only without.\<close>

lemma prompt_with_space_rejected:
  "isl (the (parse_mi_record ''(gdb) ''))" "\<not> isl (the (parse_mi_record ''(gdb)''))"
  by code_simp+

text \<open>
  \<open>isdigit\<close> accepts superscripts, which \<open>int\<close> refuses: a bare ValueError, not an MIParseError.
\<close>

lemma superscript_token_escapes:
  "exc_of (projl (the (parse_mi_record (char_of (0xB2 :: nat) # ''^done'')))) = ValueError"
  by code_simp

section \<open>Sessions\<close>

text \<open>
  Where the code does not do what its state says. A reset on an adapter without a reset
  command sends nothing and still reports the target halted or running; a connection attempt
  that fails leaves the session CONNECTING.
\<close>

lemma reset_without_command:
  assumes "backend_resetter (backend_of s) = None" and "state_of s = UNKNOWN"
  shows "fst (reset_target m t s) = Inr (if m = RESET_HALT then HALTED else RUNNING)
    \<and> controller_of (snd (reset_target m t s)) = controller_of s"
proof -
  have "allowed (state_of s) (if m = RESET_HALT then HALTED else RUNNING)"
    using assms(2) by (simp add: allowed_def)
  from reset_without_resetter [OF assms(1) this, of t] show ?thesis by auto
qed

text \<open>The documents ask for the state unknown when the interrupt after a timeout fails; it is degraded.\<close>

lemma failed_interrupt_degrades:
  "state_of (snd (resume 1000 True (example_session HALTED []))) = DEGRADED"
  by code_simp

text \<open>
  A connection that fails drops the session in CONNECTING with the GDB process still open, and a
  disconnect whose exit command fails keeps a DISCONNECTED session registered.
\<close>

definition openocd_request :: connect_target_request where
  "openocd_request = \<lparr>ct_backend = OPENOCD, ct_gdb_path = ''gdb'', ct_elf_path = None,
     ct_endpoint = Some ''localhost:3333'', ct_profile = ''cortex-m'', ct_timeout_ms = 1000\<rparr>"

definition connect_openocd :: tool_request where
  "connect_openocd = ConnectTarget openocd_request"

definition disconnect_1 :: tool_request where
  "disconnect_1 = DisconnectTarget
     \<lparr>dt_session_id = ''session_1'', dt_kill_backend = True, dt_timeout_ms = 1000\<rparr>"

definition refusal :: string where
  "refusal = ''1^error,msg='' @ [DQUOTE, CHR ''x'', DQUOTE]"

lemma failed_connect_leaks:
  "map (\<lambda>s. (state_of s, closed (transport_of (controller_of s)))) (sv_retired (snd (call_tool
     connect_openocd None ((example_service FULL_CONTROL HALTED [refusal])\<lparr>sv_sessions := []\<rparr>))))
   = [(CONNECTING, False)]"
  by code_simp

lemma failed_disconnect_stays_registered:
  "map (\<lambda>(i, s). (i, state_of s)) (sv_sessions (snd (call_tool
     disconnect_1 None (example_service FULL_CONTROL HALTED [refusal]))))
   = [(''session_1'', DISCONNECTED)]"
  by code_simp

text \<open>
  The number of sessions is checked before GDB is spawned and the session registered after: two
  connects that wait for their GDB at the same time both pass a limit of one session.
\<close>

definition no_sessions :: "string list \<Rightarrow> service" where
  "no_sessions ls = (example_service FULL_CONTROL HALTED ls)
     \<lparr>sv_sessions := [], sv_limits := default_limits\<lparr>max_sessions := 1\<rparr>\<rparr>"

definition openocd_spawn :: "nat \<Rightarrow> string list \<Rightarrow> gdb_io res" where
  "openocd_spawn = (\<lambda>_ _. Inr (gdb_process_lines [''1^connected'']))"

lemma ready_to_connect:
  "check_session_count (sv_limits (no_sessions ls)) (int (length (sv_sessions (no_sessions ls)))) = None"
  "pd_allowed (evaluate (policy_request_of (no_sessions ls) OP_CONNECT_TARGET None))"
  "env_spawn (no_sessions [''1^connected'']) = Some openocd_spawn"
  by code_simp (code_simp, simp add: no_sessions_def example_service_def openocd_spawn_def)

lemma openocd_created:
  "create_gdb_debug_session openocd_spawn openocd_request sv =
     (Inr (new_session (new_controller (gdb_lines [''1^connected''])) OpenOCDBackend (''session_'' @ env_id sv (env_ids_drawn sv))),
      sv\<lparr>env_spawned := env_spawned sv @ [gdb_args ''gdb'' None], env_ids_drawn := env_ids_drawn sv + 1\<rparr>)"
  by (simp add: create_gdb_debug_session_def openocd_spawn_def openocd_request_def andthen_def draw_id_def gdb_lines_def)

lemma openocd_connected:
  obtains conn s where "\<And>sv. connect_new (new_session (new_controller (gdb_lines [''1^connected''])) OpenOCDBackend sid)
      openocd_request sv = (Inr (conn, s), sv)" and "session_id s = sid"
proof -
  let ?new = "new_session (new_controller (gdb_lines [''1^connected''])) OpenOCDBackend sid"
  obtain x s where c: "connect openocd_request ?new = (x, s)" by fastforce
  have "\<not> isl (fst (connect openocd_request ?new))" by code_simp
  then obtain conn where "x = Inr conn" using c by (cases x) auto
  moreover have "session_id s = sid"
    using ensures_run [OF ensures_connect c, of "\<lambda>_. True"] by (simp add: session_extends_def new_session_def)
  ultimately show thesis using that [of conn s] c by (simp add: connect_new_def)
qed

lemma racing_connects_exceed_limit:
  "length (sv_sessions (interleaved (map Continue [0, 0, 0, 1, 1, 1, 0, 0, 0, 1, 1, 1])
     [(connect_openocd, None), (connect_openocd, None)] (no_sessions [''1^connected'']))) = 2"
proof -
  let ?sv = "no_sessions [''1^connected'']"
  have env: "env_id ?sv = nat_str" "env_ids_drawn ?sv = 0" "sv_sessions ?sv = []"
    by (simp_all add: no_sessions_def example_service_def)
  obtain conn s where s: "\<And>sv. connect_new (new_session (new_controller (gdb_lines [''1^connected''])) OpenOCDBackend
      (''session_'' @ nat_str 0)) openocd_request sv = (Inr (conn, s), sv)" "session_id s = ''session_'' @ nat_str 0"
    by (rule openocd_connected [where sid = "''session_'' @ nat_str 0"]) blast
  obtain conn' t where t: "\<And>sv. connect_new (new_session (new_controller (gdb_lines [''1^connected''])) OpenOCDBackend
      (''session_'' @ nat_str 1)) openocd_request sv = (Inr (conn', t), sv)" "session_id t = ''session_'' @ nat_str 1"
    by (rule openocd_connected [where sid = "''session_'' @ nat_str 1"]) blast
  note create = openocd_created [of ?sv, unfolded env]
  have "nat_str 1 \<noteq> nat_str 0" using nat_str_inj by fastforce
  then show ?thesis
    unfolding connect_openocd_def
    by (subst racing_connects [OF ready_to_connect(1,3,2) create s(1) _ t(1)])
      (auto simp: openocd_created env add_session_def s t length_dict_set)
qed

text \<open>
  \<open>max_run_ms\<close> bounds the wait for the answer to \<open>-exec-continue\<close>, which GDB gives at once: the target
  then runs on, whatever the bound, and \<open>auto_interrupt\<close> sends nothing.
\<close>

lemma resume_runs_on:
  "fst (resume 1 True (example_session HALTED [''1^running''])) = Inr RUNNING"
  "outbox (transport_of (controller_of (snd (resume 1 True (example_session HALTED [''1^running''])))))
     = [''1-exec-continue'']"
  by code_simp+

text \<open>GDB answers an interrupt before it reports the stop: the reason and the address are lost.\<close>

lemma halt_reason_lost:
  "fst (halt 1000 (example_session RUNNING
     [''1^done'', ''*stopped,reason='' @ [DQUOTE] @ ''signal-received'' @ [DQUOTE]]))
   = Inr \<lparr>hd_stop_reason = None, hd_pc = None\<rparr>"
  by code_simp

text \<open>
  A call that its client cancels while GDB is at work raises a CancelledError, which \<open>except Exception\<close>
  does not catch: the command was written and no event is logged. A cancelled connect drops its session
  with the GDB process still open.
\<close>

definition cancelling :: "loop_event list" where
  "cancelling = map Continue [0, 0, 0] @ [Abandon 0 1, Continue 0]"

definition cancelled_halt :: service where
  "cancelled_halt = interleaved cancelling [(halt_1, None)] (example_service FULL_CONTROL RUNNING [])"

lemma cancelled_run:
  "\<exists>sv1. try_reserve_operation (Some ''session_1'') (example_service FULL_CONTROL RUNNING []) = Inr sv1
    \<and> play cancelling (example_service FULL_CONTROL RUNNING [], handlers [(halt_1, None)])
      = (release_operation (Some ''session_1'') (put_session ''session_1''
           (broken_at exec_interrupt 1 (example_session RUNNING [])) sv1), [Cancelled])"
proof -
  let ?sv = "example_service FULL_CONTROL RUNNING []"
  have "\<not> isl (try_reserve_operation (Some ''session_1'') ?sv)" by code_simp
  then obtain sv1 where "try_reserve_operation (Some ''session_1'') ?sv = Inr sv1"
    by (cases "try_reserve_operation (Some ''session_1'') ?sv") auto
  moreover have "pd_allowed (evaluate (policy_request_of ?sv OP_HALT None))" by code_simp
  moreover have "dict_get (sv_sessions ?sv) ''session_1'' = Some (example_session RUNNING [])"
    by (simp add: example_service_def)
  ultimately show ?thesis
    using halt_cancelled [of ?sv "\<lparr>ht_session_id = ''session_1'', ht_timeout_ms = 1000\<rparr>"]
    by (simp add: cancelling_def halt_1_def)
qed

lemma cancelled_call_unaudited:
  "map (\<lambda>(i, s). outbox (transport_of (controller_of s))) (sv_sessions cancelled_halt) = [[''1-exec-interrupt'']]"
  "sv_audit cancelled_halt = Some []"
proof -
  obtain sv1 where r: "try_reserve_operation (Some ''session_1'') (example_service FULL_CONTROL RUNNING []) = Inr sv1"
    and "cancelled_halt = release_operation (Some ''session_1'') (put_session ''session_1''
           (broken_at exec_interrupt 1 (example_session RUNNING [])) sv1)"
    using cancelled_run by (auto simp: cancelled_halt_def interleaved_def)
  moreover have "sv1 = projr (try_reserve_operation (Some ''session_1'') (example_service FULL_CONTROL RUNNING []))"
    using r by simp
  ultimately have run: "cancelled_halt = release_operation (Some ''session_1'') (put_session ''session_1''
           (broken_at exec_interrupt 1 (example_session RUNNING []))
           (projr (try_reserve_operation (Some ''session_1'') (example_service FULL_CONTROL RUNNING []))))"
    by simp
  show "map (\<lambda>(i, s). outbox (transport_of (controller_of s))) (sv_sessions cancelled_halt) = [[''1-exec-interrupt'']]"
    unfolding run by code_simp
  show "sv_audit cancelled_halt = Some []" unfolding run by code_simp
qed

lemma cancelled_connect_leaks:
  "map (\<lambda>s. (state_of s, closed (transport_of (controller_of s)))) (sv_retired (interleaved
     (map Continue [0, 0, 0, 0] @ [Abandon 0 1]) [(connect_openocd, None)] (no_sessions [''1^connected''])))
   = [(CONNECTING, False)]"
  unfolding connect_openocd_def connect_abandoned [OF ready_to_connect(1,3,2) openocd_created] by code_simp

text \<open>
  The ELF path of a request is an argument of its own on GDB's command line, so one that looks
  like an option is an option: GDB runs the shell command of this one.
\<close>

lemma elf_path_is_an_option:
  "gdb_args ''gdb'' (Some ''--eval-command=shell reboot'') =
     [''gdb'', ''--interpreter=mi2'', ''--nx'', ''--nh'', ''-q'', ''--eval-command=shell reboot'']"
  by (simp add: gdb_args_def)

section \<open>Confirmation\<close>

text \<open>
  In read-only mode a refused call still answers CONFIRMATION_REQUIRED with a token, which never
  authorizes anything; and the audit event holds the token, although redaction is meant to hide
  tokens.
\<close>

lemma readonly_offers_token:
  "map_option (\<lambda>e. (code e, confirmation_token e))
     (res_error (projr (fst (call_tool halt_1 None (example_service READONLY HALTED [])))))
   = Some (CONFIRMATION_REQUIRED, Some ''0'')"
  by code_simp

lemma audit_stores_token:
  "map_option (map (\<lambda>e. map_option confirmation_token (ae_error e)))
     (sv_audit (snd (call_tool halt_1 None (example_service CONFIRM_REQUIRED RUNNING []))))
   = Some [Some (Some ''0'')]"
  by code_simp

text \<open>A token is used up by a call that a limit then refuses.\<close>

lemma token_lost_to_limit:
  "ts_records (sv_store (snd (call_tool halt_1 (Some ''0'') ((offered_service [])\<lparr>sv_active_tool_calls := 8\<rparr>)))) = []"
  "map_option code (res_error (projr (fst (call_tool halt_1 (Some ''0'')
     ((offered_service [])\<lparr>sv_active_tool_calls := 8\<rparr>))))) = Some RESOURCE_LIMIT_EXCEEDED"
  by code_simp+

section \<open>Analysis\<close>

text \<open>
  An imprecise bus fault is explained as a precise one, because the name of the imprecise
  bit contains the name of the precise one; every analysis has evidence, a hypothesis and a
  confidence between 0 and 1.
\<close>

lemma imprecise_fault_explained_as_precise:
  "hypotheses_for ''BusFault: IMPRECISERR'' =
     [''A precise data bus fault occurred at or near the faulting instruction.'']
   \<and> fad_evidence (analyze s) \<noteq> [] \<and> fad_hypotheses (analyze s) \<noteq> []
   \<and> 0 \<le> fad_confidence (analyze s) \<and> fad_confidence (analyze s) \<le> 1"
  using imprecise_hypothesis evidence_nonempty confidence_range by blast

text \<open>The debug event of HFSR (bit 31) is not decoded, nor is DFSR.\<close>

lemma debug_event_ignored:
  "classify_fault None (Some (2 ^ 31)) = (''No Cortex-M fault bits set'', [])"
  by code_simp

text \<open>A fault register that GDB did not report is recorded as the value zero.\<close>

lemma missing_memory_reads_zero: "little_endian_hex [] = little_endian_hex ''00000000''"
  by code_simp

end
