(* ===== verification/Tool_Arguments.thy ===== *)
theory Tool_Arguments
  imports Application
begin

text \<open>
  The contract of the tool functions (\<open>mcp_server/app.py\<close>), stated on their arguments as JSON and apart
  from the request models: \<open>arguments_of\<close> names the arguments of a call, \<open>schema_of\<close> is the JSON Schema
  of every field (the constraints of \<open>mcp_server/schemas.py\<close>), and \<open>acceptable\<close> says when a call is
  within it. The main lemma, \<open>app_run_exact\<close>: an acceptable call is one call of the service, by the tool
  of the same name, with the same token, on the one request whose fields are the arguments; every other
  call raises and has no effect.
\<close>

section \<open>The arguments of a call\<close>

primrec tool_of :: "app_call \<Rightarrow> string" where
  "tool_of (AppConnectTarget backend endpoint gdb_path elf_path profile timeout_ms tok) = ''connect_target''"
| "tool_of (AppDisconnectTarget sid kill_backend timeout_ms tok) = ''disconnect_target''"
| "tool_of (AppHalt sid timeout_ms tok) = ''halt''"
| "tool_of (AppResume sid max_run_ms auto_interrupt tok) = ''resume''"
| "tool_of (AppStepInstruction sid count timeout_ms tok) = ''step_instruction''"
| "tool_of (AppResetTarget sid mode timeout_ms tok) = ''reset_target''"
| "tool_of (AppReadRegisters sid grp) = ''read_registers''"
| "tool_of (AppReadMemory sid address len width timeout_ms) = ''read_memory''"
| "tool_of (AppWriteMemory sid address data_hex expected_old_hex timeout_ms tok) = ''write_memory''"
| "tool_of (AppSetBreakpoint sid kind location bp_type temporary timeout_ms tok) = ''set_breakpoint''"
| "tool_of (AppClearBreakpoint sid breakpoint_id timeout_ms tok) = ''clear_breakpoint''"
| "tool_of (AppDebugSnapshot sid policy core faults stack stack_bytes symbols instructions) = ''debug_snapshot''"
| "tool_of (AppAnalyzeFault sid snapshot_id) = ''analyze_fault''"
| "tool_of (AppInspectPeripheral sid svd_path peripheral regs timeout_ms) = ''inspect_peripheral''"
| "tool_of (AppCompareSnapshots before after memory_diffs) = ''compare_snapshots''"
| "tool_of (AppExplainCurrentState sid snapshot_id detail) = ''explain_current_state''"
| "tool_of (AppSuggestNextDebugSteps goal sid snapshot_id) = ''suggest_next_debug_steps''"

text \<open>The argument \<open>confirmation_token\<close>, which the reading tools do not have.\<close>

primrec token_argument :: "app_call \<Rightarrow> string option" where
  "token_argument (AppConnectTarget backend endpoint gdb_path elf_path profile timeout_ms tok) = tok"
| "token_argument (AppDisconnectTarget sid kill_backend timeout_ms tok) = tok"
| "token_argument (AppHalt sid timeout_ms tok) = tok"
| "token_argument (AppResume sid max_run_ms auto_interrupt tok) = tok"
| "token_argument (AppStepInstruction sid count timeout_ms tok) = tok"
| "token_argument (AppResetTarget sid mode timeout_ms tok) = tok"
| "token_argument (AppReadRegisters sid grp) = None"
| "token_argument (AppReadMemory sid address len width timeout_ms) = None"
| "token_argument (AppWriteMemory sid address data_hex expected_old_hex timeout_ms tok) = tok"
| "token_argument (AppSetBreakpoint sid kind location bp_type temporary timeout_ms tok) = tok"
| "token_argument (AppClearBreakpoint sid breakpoint_id timeout_ms tok) = tok"
| "token_argument (AppDebugSnapshot sid policy core faults stack stack_bytes symbols instructions) = None"
| "token_argument (AppAnalyzeFault sid snapshot_id) = None"
| "token_argument (AppInspectPeripheral sid svd_path peripheral regs timeout_ms) = None"
| "token_argument (AppCompareSnapshots before after memory_diffs) = None"
| "token_argument (AppExplainCurrentState sid snapshot_id detail) = None"
| "token_argument (AppSuggestNextDebugSteps goal sid snapshot_id) = None"

text \<open>The other arguments by name, \<open>None\<close> left out; the two of a breakpoint's location are one field.\<close>

primrec arguments_of :: "app_call \<Rightarrow> json dict" where
  "arguments_of (AppConnectTarget backend endpoint gdb_path elf_path profile timeout_ms tok) =
     [(''backend'', JStr backend), (''gdb_path'', JStr gdb_path), (''profile'', JStr profile),
      (''timeout_ms'', JInt timeout_ms)]
     @ opt_field ''endpoint'' JStr endpoint @ opt_field ''elf_path'' JStr elf_path"
| "arguments_of (AppDisconnectTarget sid kill_backend timeout_ms tok) =
     [(''session_id'', JStr sid), (''kill_backend'', JBool kill_backend), (''timeout_ms'', JInt timeout_ms)]"
| "arguments_of (AppHalt sid timeout_ms tok) = [(''session_id'', JStr sid), (''timeout_ms'', JInt timeout_ms)]"
| "arguments_of (AppResume sid max_run_ms auto_interrupt tok) =
     [(''session_id'', JStr sid), (''max_run_ms'', JInt max_run_ms), (''auto_interrupt'', JBool auto_interrupt)]"
| "arguments_of (AppStepInstruction sid count timeout_ms tok) =
     [(''session_id'', JStr sid), (''count'', JInt count), (''timeout_ms'', JInt timeout_ms)]"
| "arguments_of (AppResetTarget sid mode timeout_ms tok) =
     [(''session_id'', JStr sid), (''mode'', JStr mode), (''timeout_ms'', JInt timeout_ms)]"
| "arguments_of (AppReadRegisters sid grp) = [(''session_id'', JStr sid), (''group'', JStr grp)]"
| "arguments_of (AppReadMemory sid address len width timeout_ms) =
     [(''session_id'', JStr sid), (''address'', JStr address), (''length'', JInt len), (''width'', JInt width),
      (''timeout_ms'', JInt timeout_ms)]"
| "arguments_of (AppWriteMemory sid address data_hex expected_old_hex timeout_ms tok) =
     [(''session_id'', JStr sid), (''address'', JStr address), (''data_hex'', JStr data_hex),
      (''timeout_ms'', JInt timeout_ms)] @ opt_field ''expected_old_hex'' JStr expected_old_hex"
| "arguments_of (AppSetBreakpoint sid kind location bp_type temporary timeout_ms tok) =
     [(''session_id'', JStr sid), (''location'', JObj [(''kind'', JStr kind), (''value'', JStr location)]),
      (''type'', JStr bp_type), (''temporary'', JBool temporary), (''timeout_ms'', JInt timeout_ms)]"
| "arguments_of (AppClearBreakpoint sid breakpoint_id timeout_ms tok) =
     [(''session_id'', JStr sid), (''breakpoint_id'', JStr breakpoint_id), (''timeout_ms'', JInt timeout_ms)]"
| "arguments_of (AppDebugSnapshot sid policy core faults stack stack_bytes symbols instructions) =
     [(''session_id'', JStr sid), (''halt_policy'', JStr policy), (''include_core_registers'', JBool core),
      (''include_fault_registers'', JBool faults), (''include_stack'', JBool stack),
      (''stack_bytes'', JInt stack_bytes), (''include_symbol_context'', JBool symbols),
      (''disassembly_instructions'', JInt instructions)]"
| "arguments_of (AppAnalyzeFault sid snapshot_id) =
     opt_field ''session_id'' JStr sid @ opt_field ''snapshot_id'' JStr snapshot_id"
| "arguments_of (AppInspectPeripheral sid svd_path peripheral regs timeout_ms) =
     [(''session_id'', JStr sid), (''svd_path'', JStr svd_path), (''peripheral'', JStr peripheral),
      (''timeout_ms'', JInt timeout_ms)] @ opt_field ''registers'' (\<lambda>ns. JArr (map JStr ns)) regs"
| "arguments_of (AppCompareSnapshots before after memory_diffs) =
     [(''before_snapshot_id'', JStr before), (''after_snapshot_id'', JStr after),
      (''include_memory_diffs'', JBool memory_diffs)]"
| "arguments_of (AppExplainCurrentState sid snapshot_id detail) =
     [(''detail_level'', JStr detail)]
     @ opt_field ''session_id'' JStr sid @ opt_field ''snapshot_id'' JStr snapshot_id"
| "arguments_of (AppSuggestNextDebugSteps goal sid snapshot_id) =
     [(''goal'', JStr goal)] @ opt_field ''session_id'' JStr sid @ opt_field ''snapshot_id'' JStr snapshot_id"

section \<open>The schema\<close>

datatype field_schema =
    Anything | Integer int int | Text nat | One_of "string list" | Record "(string \<times> field_schema) list"

text \<open>\<open>conforms s v\<close>: a value of the right JSON type is within the limits of its schema.\<close>

fun conforms :: "field_schema \<Rightarrow> json \<Rightarrow> bool" where
  "conforms Anything v \<longleftrightarrow> True"
| "conforms (Integer lo hi) (JInt i) \<longleftrightarrow> lo \<le> i \<and> i \<le> hi"
| "conforms (Text n) (JStr s) \<longleftrightarrow> n \<le> length s"
| "conforms (One_of xs) (JStr s) \<longleftrightarrow> s \<in> set xs"
| "conforms (Record fs) (JObj kvs) \<longleftrightarrow> list_all2 (\<lambda>(k, s) (k', v). k = k' \<and> conforms s v) fs kvs"
| "conforms _ _ \<longleftrightarrow> False"

definition field_schemas :: "(string \<times> field_schema) list" where
  "field_schemas =
     [(''session_id'', Text 1), (''timeout_ms'', Integer 1 120000), (''max_run_ms'', Integer 1 120000),
      (''count'', Integer 1 100), (''length'', Integer 1 4096), (''width'', Integer 1 8),
      (''stack_bytes'', Integer 0 4096), (''disassembly_instructions'', Integer 0 32),
      (''gdb_path'', Text 1), (''profile'', Text 1), (''address'', Text 1), (''data_hex'', Text 2),
      (''breakpoint_id'', Text 1), (''svd_path'', Text 1), (''peripheral'', Text 1), (''goal'', Text 1),
      (''backend'', One_of [''generic-remote'', ''qemu'', ''openocd'', ''jlink'', ''pyocd'']),
      (''mode'', One_of [''halt'', ''run'']), (''group'', One_of [''core'', ''fault'', ''all'']),
      (''type'', One_of [''hardware'', ''software'']),
      (''halt_policy'', One_of [''require_already_halted'', ''halt_if_running'']),
      (''detail_level'', One_of [''brief'', ''normal'', ''verbose'']),
      (''location'', Record [(''kind'', One_of [''symbol'', ''address'', ''file-line'']), (''value'', Text 1)])]"

text \<open>
  Three tools take a session or a snapshot: there the ids are optional, may be empty, and one has to be
  given.
\<close>

definition by_reference :: "string \<Rightarrow> bool" where
  "by_reference tool \<longleftrightarrow> tool \<in> {''analyze_fault'', ''explain_current_state'', ''suggest_next_debug_steps''}"

definition schema_of :: "string \<Rightarrow> string \<Rightarrow> field_schema" where
  "schema_of tool field =
     (if by_reference tool \<and> field = ''session_id'' then Anything
      else case map_of field_schemas field of None \<Rightarrow> Anything | Some s \<Rightarrow> s)"

definition acceptable :: "app_call \<Rightarrow> bool" where
  "acceptable c \<longleftrightarrow>
     list_all (\<lambda>(k, v). conforms (schema_of (tool_of c) k) v) (arguments_of c)
     \<and> (by_reference (tool_of c) \<longrightarrow>
          dict_get (arguments_of c) ''session_id'' \<noteq> None \<or> dict_get (arguments_of c) ''snapshot_id'' \<noteq> None)"

section \<open>What a call does\<close>

text \<open>The request has the fields of the call.\<close>

definition request_for :: "app_call \<Rightarrow> tool_request \<Rightarrow> bool" where
  "request_for c r \<longleftrightarrow> tool_name r = tool_of c \<and> dict_get (request_fields r) = dict_get (arguments_of c)"

definition exact :: "app_call \<Rightarrow> bool" where
  "exact c \<longleftrightarrow>
     (if acceptable c
      then \<exists>r. request_for c r \<and> valid_request r \<and> app_run c = call_tool r (token_argument c)
      else \<exists>e. app_run c = (\<lambda>sv. (Inl e, sv)) \<and> exc_of e \<in> {ValueError, ValidationError})"

lemma text_length: "Suc 0 \<le> length s \<longleftrightarrow> s \<noteq> []"
  by (cases s) simp_all

lemma all_opt_field: "list_all P (opt_field k f x) \<longleftrightarrow> (case x of None \<Rightarrow> True | Some v \<Rightarrow> P (k, f v))"
  by (simp add: opt_field_def split: option.split)

lemmas contract_simps =
  acceptable_def request_for_def schema_of_def by_reference_def field_schemas_def timeout_ok_def between_def
  text_length get_opt_field all_opt_field fun_eq_iff

text \<open>A function that only builds the request.\<close>

lemma exact_send:
  assumes "app_run c = send_request r tok" and "token_argument c = tok" and "request_for c r"
    and "acceptable c \<longleftrightarrow> valid_request r"
  shows "exact c"
proof (cases "valid_request r")
  case True
  then have "app_run c = call_tool r (token_argument c)"
    unfolding assms(1,2) by (simp add: send_request_def validated_def andthen_def lift_res_def fun_eq_iff)
  then show ?thesis using assms True by (auto simp: exact_def)
next
  case False
  then have "app_run c = (\<lambda>sv. (Inl (Exc ValidationError ''request''), sv))"
    unfolding assms(1) by (simp add: send_request_def validated_def andthen_def lift_res_def fun_eq_iff)
  then show ?thesis using assms False by (auto simp: exact_def)
qed

text \<open>A function that first converts a text, which may raise.\<close>

lemma exact_convert:
  assumes "app_run c = andthen (lift_res x) k"
    and "\<And>e. x = Inl e \<Longrightarrow> \<not> acceptable c \<and> exc_of e \<in> {ValueError, ValidationError}"
    and "\<And>v. x = Inr v \<Longrightarrow> app_run c = k v \<Longrightarrow> exact c"
  shows "exact c"
proof (cases x)
  case (Inl e)
  then have "app_run c = (\<lambda>sv. (Inl e, sv))"
    unfolding assms(1) by (simp add: andthen_def lift_res_def fun_eq_iff)
  then show ?thesis using assms(2) [OF Inl] by (auto simp: exact_def)
next
  case (Inr v)
  then have "app_run c = k v" unfolding assms(1) by (simp add: andthen_def lift_res_def fun_eq_iff)
  with assms(3) [OF Inr] show ?thesis .
qed

lemma enum_of_refuses: "enum_of val members s = Inl e \<Longrightarrow> s \<notin> val ` set members \<and> exc_of e = ValueError"
  by (auto simp: enum_of_def find_None_iff split: option.splits)

lemmas enum_lists =
  backend_kind_of_value_def contract_simps

lemma enum_of_found: "enum_of val members s = Inr x \<Longrightarrow> s = val x \<and> x \<in> set members"
  by (auto simp: enum_of_def find_Some_iff split: option.splits)

lemma exact_connect: "exact (AppConnectTarget backend endpoint gdb_path elf_path profile timeout_ms tok)"
  by (rule exact_convert, simp add: app_defs, force dest: enum_of_refuses simp: enum_lists)
    (rule exact_send, assumption, auto simp: enum_lists simp del: map_of_append split: option.splits dest!: enum_of_found)

lemma exact_reset: "exact (AppResetTarget sid mode timeout_ms tok)"
  by (rule exact_convert, simp add: app_defs, force dest: enum_of_refuses simp: enum_lists)
    (rule exact_send, assumption, auto simp: enum_lists dest!: enum_of_found)

lemma exact_registers: "exact (AppReadRegisters sid grp)"
  by (rule exact_convert, simp add: app_defs, force dest: enum_of_refuses simp: enum_lists)
    (rule exact_send, assumption, auto simp: enum_lists dest!: enum_of_found)

lemma exact_snapshot: "exact (AppDebugSnapshot sid policy core faults stack stack_bytes symbols instructions)"
  by (rule exact_convert, simp add: app_defs, force dest: enum_of_refuses simp: enum_lists)
    (rule exact_send, assumption, auto simp: enum_lists dest!: enum_of_found)

lemma exact_explain: "exact (AppExplainCurrentState sid snapshot_id detail)"
  by (rule exact_convert, simp add: app_defs, force dest: enum_of_refuses simp: enum_lists)
    (rule exact_send, assumption, auto simp: enum_lists simp del: map_of_append split: option.splits dest!: enum_of_found)

lemma location_of_found:
  "location_of kind v = Inr l \<Longrightarrow>
   kind = location_kind_value (loc_kind l) \<and> loc_value l = v \<and> v \<noteq> []"
  by (auto simp: location_of_def split: sum.splits if_splits dest: enum_of_found)

lemma location_of_refuses:
  "location_of kind v = Inl e \<Longrightarrow>
   (kind \<notin> location_kind_value ` {LOC_SYMBOL, LOC_ADDRESS, LOC_FILE_LINE} \<or> v = []) \<and> exc_of e = ValidationError"
  by (auto simp: location_of_def split: sum.splits if_splits dest: enum_of_refuses)

lemma exact_breakpoint: "exact (AppSetBreakpoint sid kind location bp_type temporary timeout_ms tok)"
proof (rule exact_convert, simp add: app_defs)
  fix e assume "location_of kind location = Inl e"
  then show "\<not> acceptable (AppSetBreakpoint sid kind location bp_type temporary timeout_ms tok)
      \<and> exc_of e \<in> {ValueError, ValidationError}"
    by (auto simp: contract_simps dest!: location_of_refuses)
next
  fix l assume l: "location_of kind location = Inr l"
    and run: "app_run (AppSetBreakpoint sid kind location bp_type temporary timeout_ms tok) =
      andthen (lift_res (enum_of breakpoint_type_value [HARDWARE, SOFTWARE] bp_type)) (\<lambda>ty.
        send_request (SetBreakpoint \<lparr>sb_session_id = sid, sb_location = l, sb_type = ty, sb_temporary = temporary,
          sb_timeout_ms = timeout_ms\<rparr>) tok)"
  note found = location_of_found [OF l]
  have kind: "location_kind_value (loc_kind l) \<in> {''symbol'', ''address'', ''file-line''}"
    by (cases "loc_kind l") simp_all
  show "exact (AppSetBreakpoint sid kind location bp_type temporary timeout_ms tok)"
    by (rule exact_convert, rule run, force dest: enum_of_refuses simp: enum_lists)
      (rule exact_send, assumption, use found kind in \<open>auto simp: enum_lists dest!: enum_of_found\<close>)
qed

lemma app_run_exact: "exact c"
proof (cases c)
  case (AppConnectTarget backend endpoint gdb_path elf_path profile timeout_ms tok)
  then show ?thesis by (simp add: exact_connect)
next
  case (AppResetTarget sid mode timeout_ms tok)
  then show ?thesis by (simp add: exact_reset)
next
  case (AppReadRegisters sid grp)
  then show ?thesis by (simp add: exact_registers)
next
  case (AppSetBreakpoint sid kind location bp_type temporary timeout_ms tok)
  then show ?thesis by (simp add: exact_breakpoint)
next
  case (AppDebugSnapshot sid policy core faults stack stack_bytes symbols instructions)
  then show ?thesis by (simp add: exact_snapshot)
next
  case (AppExplainCurrentState sid snapshot_id detail)
  then show ?thesis by (simp add: exact_explain)
qed (rule exact_send, simp add: app_defs, simp, auto simp: contract_simps simp del: map_of_append split: option.splits)+

text \<open>The fields determine the request.\<close>

lemma request_for_unique:
  assumes "request_for c r" and "request_for c r'"
  shows "r = r'"
proof (rule fields_inj)
  have "tool_name r = tool_name r'" using assms by (simp add: request_for_def)
  then show "tool_index r = tool_index r'" by (cases r; cases r') simp_all
  show "map_option sort_json (dict_get (request_fields r) k) = map_option sort_json (dict_get (request_fields r') k)" for k
    using assms by (simp add: request_for_def)
qed

text \<open>Any sequence of calls of the application is the sequence of its acceptable ones.\<close>

lemma app_serve_exact:
  "\<exists>rs. app_serve cs sv = serve rs sv
     \<and> list_all2 (\<lambda>c (r, tok). request_for c r \<and> valid_request r \<and> tok = token_argument c) (filter acceptable cs) rs"
proof (induction cs sv rule: app_serve.induct)
  case (1 sv)
  have "app_serve [] sv = serve [] sv" by simp
  then show ?case by fastforce
next
  case (2 c cs sv)
  then obtain rs where rs: "app_serve cs (snd (app_run c sv)) = serve rs (snd (app_run c sv))"
      "list_all2 (\<lambda>c (r, tok). request_for c r \<and> valid_request r \<and> tok = token_argument c) (filter acceptable cs) rs"
    by blast
  show ?case
  proof (cases "acceptable c")
    case True
    then obtain r where r: "request_for c r" "valid_request r" "app_run c = call_tool r (token_argument c)"
      using app_run_exact [of c] by (auto simp: exact_def)
    then have "app_serve (c # cs) sv = serve ((r, token_argument c) # rs) sv" using rs(1) by simp
    then show ?thesis using rs(2) r True by (intro exI [of _ "(r, token_argument c) # rs"]) simp
  next
    case False
    then have "app_serve (c # cs) sv = serve rs sv" using rs(1) app_run_exact [of c] by (auto simp: exact_def)
    then show ?thesis using rs(2) False by (intro exI [of _ rs]) simp
  qed
qed

end
