(* ===== verification/GDB_Process.thy ===== *)
theory GDB_Process
  imports MI_Controller
begin

text \<open>
  The GDB process under the transport (\<open>SubprocessMITransport\<close> in \<open>mi/controller.py\<close>): the check of
  its pipes, and closing, which asks the process to terminate, waits two seconds and then kills it.
  The operating system is the record's last field, the exit status with which the process reacts
  to SIGTERM in time, if it does; a killed process always ends.

  \<open>transport_of_process\<close> is the abstraction: the transport of the other theories knows of its
  process only whether it is still running, and \<open>close_process\<close> refines \<open>close_transport\<close>.
\<close>

datatype signal = SIGTERM | SIGKILL

record gdb_process =
  has_stdin :: bool
  has_stdout :: bool
  returncode :: "int option"
  signals :: "signal list"
  exits_on_term :: "int option"

definition subprocess_transport :: "gdb_process \<Rightarrow> gdb_process res" where
  "subprocess_transport p =
     (if \<not> has_stdin p \<or> \<not> has_stdout p
      then Inl (Exc ValueError ''GDB process must expose stdin and stdout pipes'')
      else Inr p)"

definition terminate :: "gdb_process \<Rightarrow> gdb_process" where
  "terminate p = p\<lparr>signals := signals p @ [SIGTERM], returncode := exits_on_term p\<rparr>"

definition kill :: "gdb_process \<Rightarrow> gdb_process" where
  "kill p = p\<lparr>signals := signals p @ [SIGKILL], returncode := Some (- 9)\<rparr>"

definition close_process :: "gdb_process \<Rightarrow> gdb_process" where
  "close_process p =
     (if returncode p = None
      then (let q = terminate p in if returncode q = None then kill q else q)
      else p)"

text \<open>Closing always ends the process, kills it only after it was asked, and a second time does nothing.\<close>

lemma close_process_ends: "returncode (close_process p) \<noteq> None"
  by (simp add: close_process_def kill_def Let_def)

lemma close_process_idem: "close_process (close_process p) = close_process p"
  using close_process_ends [of p] by (auto simp: close_process_def [of "close_process p"])

lemma close_process_signals:
  "\<exists>sent. signals (close_process p) = signals p @ sent \<and> sent \<in> {[], [SIGTERM], [SIGTERM, SIGKILL]}
     \<and> (SIGKILL \<in> set sent \<longrightarrow> returncode p = None \<and> exits_on_term p = None)"
  by (simp add: close_process_def terminate_def kill_def Let_def)

definition transport_of_process ::
  "read_event list \<Rightarrow> string option list \<Rightarrow> string list \<Rightarrow> gdb_process \<Rightarrow> transport" where
  "transport_of_process reads faults written p =
     \<lparr>inbox = reads, write_faults = faults, outbox = written, closed = (returncode p \<noteq> None)\<rparr>"

text \<open>A process that was just spawned is running, and its transport is the new one.\<close>

lemma transport_of_new_process:
  "returncode p = None \<Longrightarrow>
   transport_of_process reads faults [] p = new_transport \<lparr>io_reads = reads, io_faults = faults\<rparr>"
  by (simp add: transport_of_process_def new_transport_def)

lemma close_process_refines:
  "transport_of_process reads faults written (close_process p) =
   snd (close_transport (transport_of_process reads faults written p))"
  using close_process_ends by (simp add: transport_of_process_def close_transport_def)

end
