(* ===== verification/Smoke_Client.thy ===== *)
theory Smoke_Client
  imports Application Confirmation_Flow
begin

text \<open>
  The smoke test (\<open>examples/codex-mcp/stdio_smoke.py\<close>): a client that lists the tools and resources of a
  server, reads its schema, asks for the registers of a session that does not exist, and judges the
  answers. \<open>mcp_server\<close> is what the client sees of a server; \<open>probe_server\<close> is that of the application,
  where the MCP library's rendering of JSON and of results as text are parameters.
\<close>

record mcp_server =
  srv_tools :: "string list"
  srv_resources :: "string list"
  srv_schema :: string
  srv_read_registers :: "string \<Rightarrow> string"

record smoke_report =
  sr_tools :: "string list"
  sr_tool_count :: nat
  sr_raw_gdb_tool_exposed :: bool
  sr_resources :: "string list"
  sr_schema_has_json_schemas :: bool
  sr_missing_session_has_error :: bool
  sr_missing_session_text :: string

definition raw_gdb_tool :: string where
  "raw_gdb_tool = ''execute_gdb_command''"

definition default_server_args :: "string list" where
  "default_server_args = [''-c'', ''from probemcp.cli import main; main()'', ''serve'']"

definition run_smoke :: "(string \<Rightarrow> string list \<Rightarrow> mcp_server) \<Rightarrow> string \<Rightarrow> string list \<Rightarrow> smoke_report" where
  "run_smoke launch command args =
     (let session = launch command args;
          tool_names = sort (srv_tools session);
          missing_text = srv_read_registers session ''missing''
      in \<lparr>sr_tools = tool_names, sr_tool_count = length tool_names,
          sr_raw_gdb_tool_exposed = (raw_gdb_tool \<in> set tool_names),
          sr_resources = sort (srv_resources session),
          sr_schema_has_json_schemas = contains (srv_schema session) ''json_schemas'',
          sr_missing_session_has_error = contains missing_text ''SESSION_NOT_FOUND'',
          sr_missing_session_text = missing_text\<rparr>)"

text \<open>The command line: no \<open>--server-arg\<close> at all means the default arguments.\<close>

definition smoke_main ::
  "(string \<Rightarrow> string list \<Rightarrow> mcp_server) \<Rightarrow> string \<Rightarrow> string option \<Rightarrow> string list option \<Rightarrow> smoke_report \<times> int" where
  "smoke_main launch python server_command server_args =
     (let command = (case server_command of None \<Rightarrow> python | Some c \<Rightarrow> c);
          args = (case server_args of Some (a # as) \<Rightarrow> a # as | _ \<Rightarrow> default_server_args);
          result = run_smoke launch command args
      in (result,
          if sr_raw_gdb_tool_exposed result then 1
          else if \<not> sr_schema_has_json_schemas result then 1
          else if \<not> sr_missing_session_has_error result then 1
          else 0))"

section \<open>The server\<close>

text \<open>The functions that \<open>create_app\<close> registers as tools, and the resources without a parameter.\<close>

definition app_tool_names :: "string list" where
  "app_tool_names =
     [''list_supported_tools'', ''connect_target'', ''disconnect_target'', ''halt'', ''resume'',
      ''step_instruction'', ''reset_target'', ''read_registers'', ''read_memory'', ''write_memory'',
      ''set_breakpoint'', ''clear_breakpoint'', ''debug_snapshot'', ''analyze_fault'',
      ''inspect_peripheral'', ''compare_snapshots'', ''explain_current_state'', ''suggest_next_debug_steps'']"

definition app_resources :: "string list" where
  "app_resources = [''probemcp://sessions'', ''probemcp://audit'', ''probemcp://schema'']"

text \<open>An exception of a tool function reaches the client as its text.\<close>

definition probe_server ::
  "(json \<Rightarrow> string) \<Rightarrow> (tool_result \<Rightarrow> string) \<Rightarrow> registry \<Rightarrow> json dict \<Rightarrow> service \<Rightarrow> mcp_server" where
  "probe_server json_text content reg models sv =
     \<lparr>srv_tools = app_tool_names, srv_resources = app_resources,
      srv_schema = json_text (schema_resource reg models),
      srv_read_registers = (\<lambda>sid. case fst (app_read_registers sid ''core'' sv) of
         Inl e \<Rightarrow> exc_msg e | Inr r \<Rightarrow> content r)\<rparr>"

text \<open>Every tool of the registry is served, and beside them only the listing of the registry.\<close>

lemma served_tools: "set app_tool_names = insert ''list_supported_tools'' (td_name ` set default_tools)"
  by code_simp

lemma missing_session:
  assumes "dict_get (sv_sessions sv) sid = None" and "sid \<noteq> []"
  obtains res e where "fst (app_read_registers sid ''core'' sv) = Inr res" and "res_error res = Some e"
    and "code e = SESSION_NOT_FOUND"
proof -
  let ?r = "ReadRegisters \<lparr>rr_session_id = sid, rr_group = GROUP_CORE\<rparr>"
  have "permits (policy_request_of sv OP_READ_REGISTERS None)"
    by (simp add: permits_def policy_request_of_def read_only_operations_def)
  then have "pd_allowed (evaluate (policy_request_of sv OP_READ_REGISTERS None))" using evaluate_allows by blast
  then have call: "call_tool ?r None sv = failure ''read_registers'' (session_not_found sid) ?r None [] sv"
    using assms(1)
    by (simp add: tool_read_registers_def with_session_def decide_def andthen_def run_on_session_def get_session_def)
  obtain x sv' where f: "failure ''read_registers'' (session_not_found sid) ?r None [] sv = (x, sv')" by fastforce
  obtain res where res: "x = Inr res" "res_error res = Some (session_not_found sid)" using failure_envelope [OF f] by blast
  have "enum_of group_value [GROUP_CORE, GROUP_FAULT, GROUP_ALL] ''core'' = Inr GROUP_CORE" by code_simp
  then have "fst (app_read_registers sid ''core'' sv) = Inr res"
    using call f res(1) assms(2)
    by (simp add: app_read_registers_def send_request_def validated_def andthen_def)
  then show thesis using that res(2) by (simp add: session_not_found_def make_error_def)
qed

text \<open>
  The smoke test passes on every server whose sessions do not include the missing one, whatever the
  policy, when the rendered text shows the keys of an object and the code of an error.
\<close>

lemma smoke_passes:
  assumes "\<And>pairs k v. (k, v) \<in> set pairs \<Longrightarrow> contains (json_text (JObj pairs)) k"
    and "\<And>r e. res_error r = Some e \<Longrightarrow> contains (content r) (error_code_value (code e))"
    and "launch command default_server_args = probe_server json_text content reg models sv"
    and "dict_get (sv_sessions sv) ''missing'' = None"
  shows "snd (smoke_main launch python (Some command) None) = 0
    \<and> sr_tool_count (fst (smoke_main launch python (Some command) None)) = 18"
proof -
  obtain res e where r: "fst (app_read_registers ''missing'' ''core'' sv) = Inr res" "res_error res = Some e"
      "code e = SESSION_NOT_FOUND"
    by (rule missing_session [OF assms(4)]) simp
  have "contains (content res) ''SESSION_NOT_FOUND''" using assms(2) [OF r(2)] r(3) by simp
  moreover have "contains (json_text (schema_resource reg models)) ''json_schemas''"
    unfolding schema_resource_def by (rule assms(1) [where v = "JObj (export_public_json_schemas models)"]) simp
  moreover have "raw_gdb_tool \<notin> set app_tool_names" by code_simp
  moreover have "length app_tool_names = 18" by code_simp
  ultimately show ?thesis using assms(3) r(1)
    by (simp add: smoke_main_def run_smoke_def Let_def probe_server_def)
qed

end
