(* ===== verification/Cancelled_Commands.thy ===== *)
theory Cancelled_Commands
  imports Session_Coroutines MI_Cancellation
begin

text \<open>
  The cancelled command of a session operation (\<open>execute_cancelled\<close>) is what the run of a single
  coroutine leaves that \<open>MI_Cancellation\<close> cancels: it waits for the lock, or has written its line and
  read as many lines as the number says, and gives the lock and its slot back on the way out.
\<close>

abbreviation lone_steps :: "mi_command \<Rightarrow> int \<Rightarrow> world \<Rightarrow> world \<Rightarrow> bool" where
  "lone_steps cmd t \<equiv> (mi_step 1 (\<lambda>_. cmd) (\<lambda>_. t))\<^sup>*\<^sup>*"

lemma lone_step: "step_of (\<lambda>_. cmd) (\<lambda>_. t) 0 v w \<Longrightarrow> lone_steps cmd t w x \<Longrightarrow> lone_steps cmd t v x"
  by (rule converse_rtranclp_into_rtranclp) (auto simp: mi_step_def)

lemma lone_events: "lone_steps cmd t v w \<Longrightarrow> (mi_event 1 (\<lambda>_. cmd) (\<lambda>_. t))\<^sup>*\<^sup>* (v, G) (w, G)"
proof (induction rule: rtranclp_induct)
  case (step w x)
  have "mi_event 1 (\<lambda>_. cmd) (\<lambda>_. t) (w, G) (x, G)" using step(2) by (auto simp: mi_step_def intro: goes_on)
  with step(3) show ?case by (rule rtranclp.rtrancl_into_rtrancl)
qed simp

definition having_read :: "nat \<Rightarrow> nat \<Rightarrow> controller \<Rightarrow> controller" where
  "having_read tok k c =
     c\<lparr>transport_of := (transport_of c)\<lparr>inbox := skip_passing tok k (inbox (transport_of c))\<rparr>\<rparr>"

lemma read_none:
  assumes "phases w 0 = Reading tok as ss" and "having_read tok k (ctl w) = ctl w"
  shows "\<exists>as' ss'. lone_steps cmd t w
    (w\<lparr>ctl := having_read tok k (ctl w), phases := (phases w)(0 := Reading tok as' ss')\<rparr>)"
proof -
  have "w\<lparr>ctl := having_read tok k (ctl w), phases := (phases w)(0 := Reading tok as ss)\<rparr> = w"
    using assms by (simp add: fun_upd_idem)
  then show ?thesis by (metis rtranclp.rtrancl_refl)
qed

lemma read_passing:
  "phases w 0 = Reading tok as ss \<Longrightarrow>
   \<exists>as' ss'. lone_steps cmd t w (w\<lparr>ctl := having_read tok k (ctl w), phases := (phases w)(0 := Reading tok as' ss')\<rparr>)"
proof (induction tok k "inbox (transport_of (ctl w))" arbitrary: w as ss rule: skip_passing.induct)
  case (1 tok k l es)
  show ?case
  proof (cases "passes tok l")
    case True
    let ?c = "(ctl w)\<lparr>transport_of := (transport_of (ctl w))\<lparr>inbox := es\<rparr>\<rparr>"
    have r: "on_transport read_line (ctl w) = (Inr (rstrip_chars is_eol l), ?c)"
      using 1(2) by (simp add: on_transport_def zoom_def read_line_def flip: 1(2))
    obtain as1 ss1 where p: "after_read cmd t tok as ss (Inr (rstrip_chars is_eol l)) = Reading tok as1 ss1"
      using True by (auto simp: after_read_def passes_def split: verdict.splits)
    let ?w = "w\<lparr>ctl := ?c, phases := (phases w)(0 := Reading tok as1 ss1)\<rparr>"
    have s: "step_of (\<lambda>_. cmd) (\<lambda>_. t) 0 w ?w" using step_of.read [OF 1(3) r, of "\<lambda>_. cmd" "\<lambda>_. t"] p by simp
    have "es = inbox (transport_of (ctl ?w))" by simp
    from 1(1) [OF True this] obtain as' ss' where
      "lone_steps cmd t ?w (?w\<lparr>ctl := having_read tok k (ctl ?w), phases := (phases ?w)(0 := Reading tok as' ss')\<rparr>)"
      by auto
    then have "lone_steps cmd t w (?w\<lparr>ctl := having_read tok k (ctl ?w), phases := (phases ?w)(0 := Reading tok as' ss')\<rparr>)"
      using s by (rule lone_step [rotated])
    moreover have "having_read tok k (ctl ?w) = having_read tok (Suc k) (ctl w)"
      using True by (simp add: having_read_def flip: 1(2))
    ultimately show ?thesis by auto
  next
    case False
    then have "having_read tok (Suc k) (ctl w) = ctl w" by (simp add: having_read_def flip: 1(2))
    then show ?thesis by (rule read_none [OF 1(3)])
  qed
qed (erule read_none, (drule sym)?, simp add: having_read_def)+

theorem cancelled_alone:
  assumes "0 \<le> queued_commands c" and "queued_commands c < max_queued_commands c"
  shows "\<exists>w. (mi_event 1 (\<lambda>_. cmd) (\<lambda>_. t))\<^sup>*\<^sup>* (start c, {}) (w, {0})
    \<and> ctl w = execute_cancelled n cmd c \<and> phases w 0 = Returned no_result \<and> holder w = None"
proof -
  let ?step = "step_of (\<lambda>_. cmd) (\<lambda>_. t) 0" and ?event = "mi_event 1 (\<lambda>_. cmd) (\<lambda>_. t)"
  let ?q = "c\<lparr>queued_commands := queued_commands c + 1\<rparr>"
  let ?w1 = "(start c)\<lparr>ctl := ?q, phases := (phases (start c))(0 := Queued)\<rparr>"
  have "reserve_queue_slot cmd (ctl (start c)) = (Inr (), ?q)"
    using assms(2) by (simp add: reserve_queue_slot_def try_reserve_def start_def)
  from step_of.reserve [where cmd = "\<lambda>_. cmd" and tmo = "\<lambda>_. t" and i = 0, OF _ this]
  have w1: "?step (start c) ?w1" by (simp add: start_def)
  have out: "?event\<^sup>*\<^sup>* (w, {}) (w'', {0})"
    if "cancel_of (\<lambda>_. cmd) 0 w w'" "lone_steps cmd t w' w''" for w w' w''
    using that lone_events [OF that(2), of "{0}"]
    by (meson converse_rtranclp_into_rtranclp cancelled zero_less_one)
  have early: ?thesis if "execute_cancelled n cmd c = c"
  proof -
    let ?w2 = "?w1\<lparr>phases := (phases ?w1)(0 := Leaving no_result)\<rparr>"
    let ?w3 = "?w2\<lparr>ctl := release_slot (ctl ?w2), phases := (phases ?w2)(0 := Returned no_result)\<rparr>"
    have "cancel_of (\<lambda>_. cmd) 0 ?w1 ?w2" by (rule waiting) simp
    moreover have "?step ?w2 ?w3" by (rule step_of.leave) simp
    ultimately have "?event\<^sup>*\<^sup>* (?w1, {}) (?w3, {0})" using out lone_step by blast
    moreover have "?event\<^sup>*\<^sup>* (start c, {}) (?w1, {})" using w1 lone_events [OF lone_step [OF w1]] by blast
    moreover have "ctl ?w3 = c" using assms(1) by (simp add: release_slot_def)
    ultimately show ?thesis using that by (intro exI [of _ ?w3]) (auto simp: start_def intro: rtranclp_trans)
  qed
  show ?thesis
  proof (cases n)
    case 0
    then show ?thesis by (intro early) (simp add: execute_cancelled_def)
  next
    case (Suc k)
    obtain r tr where wr: "write_line (serialize cmd (Some (next_token c))) (transport_of c) = (r, tr)" by fastforce
    show ?thesis
    proof (cases r)
      case (Inl e)
      then show ?thesis using Suc wr by (intro early) (simp add: execute_cancelled_def)
    next
      case (Inr u)
      let ?a = "?q\<lparr>next_token := next_token c + 1\<rparr>"
      let ?w2 = "?w1\<lparr>ctl := ?a, holder := Some 0, phases := (phases ?w1)(0 := Writing (next_token c)), order := order ?w1 @ [0]\<rparr>"
      let ?b = "?a\<lparr>transport_of := tr\<rparr>"
      let ?w3 = "?w2\<lparr>ctl := ?b, phases := (phases ?w2)(0 := Reading (next_token c) [] [])\<rparr>"
      have w2: "?step ?w1 ?w2" by (rule step_of.lock) (simp_all add: start_def allocate_token_def)
      have "on_transport (write_line (serialize cmd (Some (next_token c)))) (ctl ?w2) = (r, ?b)"
        using wr by (simp add: on_transport_def zoom_def)
      from step_of.send [where cmd = "\<lambda>_. cmd" and tmo = "\<lambda>_. t" and i = 0, OF _ this]
      have w3: "?step ?w2 ?w3" using Inr by simp
      obtain as ss where reads: "lone_steps cmd t ?w3
          (?w3\<lparr>ctl := having_read (next_token c) k (ctl ?w3), phases := (phases ?w3)(0 := Reading (next_token c) as ss)\<rparr>)"
        using read_passing [of ?w3 "next_token c" "[]" "[]" cmd t k] by auto
      let ?w4 = "?w3\<lparr>ctl := having_read (next_token c) k (ctl ?w3), phases := (phases ?w3)(0 := Reading (next_token c) as ss)\<rparr>"
      let ?w5 = "?w4\<lparr>phases := (phases ?w4)(0 := Finished no_result)\<rparr>"
      let ?w6 = "?w5\<lparr>holder := None, phases := (phases ?w5)(0 := Leaving no_result)\<rparr>"
      let ?w7 = "?w6\<lparr>ctl := release_slot (ctl ?w6), phases := (phases ?w6)(0 := Returned no_result)\<rparr>"
      have "cancel_of (\<lambda>_. cmd) 0 ?w4 ?w5" by (rule reading) simp
      moreover have "?step ?w5 ?w6" by (rule step_of.unlock) simp
      moreover have "?step ?w6 ?w7" by (rule step_of.leave) simp
      ultimately have "?event\<^sup>*\<^sup>* (?w4, {}) (?w7, {0})" using out lone_step by blast
      moreover have "?event\<^sup>*\<^sup>* (start c, {}) (?w4, {})"
        using lone_events lone_step [OF w1 lone_step [OF w2 lone_step [OF w3 reads]]] by blast
      moreover have "ctl ?w7 = execute_cancelled n cmd c"
        using assms Suc Inr wr by (simp add: release_slot_def having_read_def execute_cancelled_def try_reserve_def)
      ultimately show ?thesis by (intro exI [of _ ?w7]) (auto intro: rtranclp_trans)
    qed
  qed
qed

end
