(* ===== verification/Token_Races.thy ===== *)
theory Token_Races
  imports Interleaving
begin

text \<open>
  Several calls at the same time that present one confirmation token
  (\<open>_evaluate\<close> in \<open>mcp_server/service.py\<close>, \<open>ConfirmationTokenStore.verify\<close>). A handler that presents a
  token \<open>holds_back\<close>: until its decision it changes no session and starts no process, and only a
  decision that finds the token, and takes it away, lets it go on. So under every schedule only one of
  them, the winner, does more (\<open>one_winner\<close>).
\<close>

section \<open>Handlers that hold back\<close>

primrec holds_back ::
  "(service \<Rightarrow> bool) \<Rightarrow> (service \<Rightarrow> bool) \<Rightarrow> string \<Rightarrow> (service \<Rightarrow> service \<Rightarrow> bool) \<Rightarrow> (service \<Rightarrow> service \<Rightarrow> bool) \<Rightarrow> (service, 'a) co \<Rightarrow> bool" where
  "holds_back I G t R0 R (Done r) \<longleftrightarrow> True"
| "holds_back I G t R0 R Cancelled \<longleftrightarrow> True"
| "holds_back I G t R0 R (Await f c) \<longleftrightarrow> c = None \<and>
     (\<forall>s. I s \<longrightarrow> R0 s (snd (f s)) \<and>
        (fst (map_prod (holds_back I G t R0 R) id (f s))
         \<or> G s \<and> gone (snd (f s)) t \<and> settles I R (fst (f s)) None))"

lemma holds_back_segment:
  assumes "holds_back I G t R0 R h" and "segment_of e h = Some f" and "I sv"
  shows "R0 sv (snd (f sv)) \<and> (holds_back I G t R0 R (fst (f sv))
     \<or> G sv \<and> gone (snd (f sv)) t \<and> settles I R (fst (f sv)) None)"
  using assms by (cases e; cases h) auto

lemma hold_seg: "ensures R0 m \<Longrightarrow> holds_back I G t R0 R (seg m)"
  by (auto simp: seg_def ensures_def split: prod.split) (metis snd_conv)

lemma hold_seg_andthen:
  assumes "ensures R0 m"
    and "\<And>s x s'. I s \<Longrightarrow> m s = (Inr x, s') \<Longrightarrow>
      holds_back I G t R0 R (k x) \<or> G s \<and> gone s' t \<and> settles I R (k x) None"
  shows "holds_back I G t R0 R (co_andthen (seg m) k)"
proof -
  have "R0 s s'" if "m s = (r, s')" for s r s' using assms(1) that by (rule ensures_run)
  then show ?thesis using assms(2)
    by (auto simp: co_andthen_def seg_def split: prod.split sum.split)
qed

lemma settles_weaken:
  "settles I R m owed \<Longrightarrow> (\<And>s. J s \<Longrightarrow> I s) \<Longrightarrow> settles J R m owed"
proof (induction m arbitrary: owed rule: co_induct)
  case (Await f c)
  have "\<exists>owed'. slot_step R owed owed' s (snd (f s)) \<and> settles J R (fst (f s)) owed'" if "J s" for s
    using Await.prems that Await.IH(1) by (simp add: settles_Await del: settles.simps(3)) blast
  moreover have "\<exists>owed'. slot_step R owed owed' s (snd (g (n, s))) \<and> settles J R (fst (g (n, s))) owed'"
    if "J s" "c = Some g" for g n s
    using Await.prems that Await.IH(2) [OF that(2)] by (simp add: settles_Await del: settles.simps(3)) blast
  ultimately show ?case by (auto simp: settles_Await simp del: settles.simps(3))
qed simp_all

section \<open>The decision\<close>

text \<open>What a handler may do that holds back: no session changes, and no process is started.\<close>

definition spares :: "service \<Rightarrow> service \<Rightarrow> bool" where
  "spares a b \<longleftrightarrow>
     same_sessions a b \<and> env_spawned b = env_spawned a \<and> progresses (\<lambda>_. False) a b"

definition before_decision :: "service \<Rightarrow> string \<Rightarrow> service \<Rightarrow> bool" where
  "before_decision base t s \<longleftrightarrow> same_config base s \<and> not_fresh s t"

abbreviation waits_for :: "service \<Rightarrow> string \<Rightarrow> (service \<Rightarrow> bool) \<Rightarrow> handler \<Rightarrow> bool" where
  "waits_for base t G \<equiv> holds_back (before_decision base t) G t spares (progresses (\<lambda>_. True))"

abbreviation goes_on :: "service \<Rightarrow> string \<Rightarrow> handler \<Rightarrow> string option \<Rightarrow> bool" where
  "goes_on base t \<equiv> settles (before_decision base t) (progresses (\<lambda>_. True))"

lemma goes_on_settled: "settles (same_config base) (progresses (\<lambda>_. True)) h owed \<Longrightarrow> goes_on base t h owed"
  by (rule settles_weaken [where I = "same_config base"]) (simp_all add: before_decision_def)

lemma decide_takes:
  assumes "decide op q (Some t) sv = (Inr d, sv')" and "pd_allowed d"
  shows "granted sv op q (Some t) \<and> gone sv' t"
  using decide_grants [OF assms] decide_consumes [of op q t sv] assms(1) by simp

lemma ensures_spares:
  "ensures same_sessions m \<Longrightarrow> ensures (\<lambda>a b. env_spawned b = env_spawned a) m \<Longrightarrow>
   ensures (progresses (\<lambda>_. False)) m \<Longrightarrow> ensures spares m"
  by (simp add: ensures_def spares_def)

lemma failure_spares: "ensures spares (failure tool e q sid w)"
  by (intro ensures_spares spawn_steps.of_envelopes steps.of_envelopes ensuresI failure_same_sessions)

lemma spared_parts:
  "ensures spares (decide op q tok)" "ensures spares (gets f)"
  "ensures spares (policy_failure tool op err q w)"
proof -
  have "ensures same_sessions (decide op q tok)"
    by (rule ensuresI) (simp add: decide_def andthen_def try_else_def on_store_def zoom_def read_clock_def
        same_sessions_def split: option.split prod.split sum.split)
  then show "ensures spares (decide op q tok)"
    by (intro ensures_spares spawn_steps.of_decide steps.of_decide)
  show "ensures spares (gets f)"
    by (intro ensures_spares spawn_steps.ensures_basic steps.ensures_basic) (simp add: ensures_def gets_def same_sessions_def)
  have "ensures same_sessions (policy_failure tool op err q w)"
    by (rule ensuresI) (simp add: policy_failure_def andthen_def issue_token_steps
        failure_same_sessions [unfolded same_sessions_def] throw_def same_sessions_def split: option.split prod.split)
  then show "ensures spares (policy_failure tool op err q w)"
    by (intro ensures_spares spawn_steps.of_policy_failure steps.of_policy_failure)
qed

lemma wait_decide:
  assumes "\<And>d. settles (same_config base) (progresses (\<lambda>_. True)) (k d) None"
  shows "waits_for base t (\<lambda>s. granted s op q (Some t)) (co_andthen (seg (decide op q (Some t))) (\<lambda>d.
      if \<not> pd_allowed d then seg (policy_failure tool op (to_error d) q (pd_warnings d)) else k d))"
proof (rule hold_seg_andthen [OF spared_parts(1)])
  fix sv d sv' assume d: "decide op q (Some t) sv = (Inr d, sv')"
  show "waits_for base t (\<lambda>s. granted s op q (Some t)) (if \<not> pd_allowed d then seg (policy_failure tool op (to_error d) q (pd_warnings d)) else k d)
     \<or> granted sv op q (Some t) \<and> gone sv' t \<and> goes_on base t
         (if \<not> pd_allowed d then seg (policy_failure tool op (to_error d) q (pd_warnings d)) else k d) None"
    using goes_on_settled [OF assms] decide_takes [OF d] by (simp add: hold_seg spared_parts)
qed

lemma wait_with_session:
  assumes "keeps_to (same_config base) (progresses (\<lambda>_. True)) call"
  shows "waits_for base t (\<lambda>s. granted s op q (Some t)) (start_with_session tool op q sid (Some t) call)"
  unfolding start_with_session_def by (intro wait_decide steps.of_run_on_session assms)

lemma wait_guarded: "waits_for base t G h \<Longrightarrow> waits_for base t G (start_guarded tool limit q sid h)"
  unfolding start_guarded_def
  by (rule hold_seg_andthen [OF spared_parts(2)]) (auto intro: hold_seg failure_spares split: option.split)

lemma wait_connect:
  "waits_for base t (\<lambda>s. granted s OP_CONNECT_TARGET (ConnectTarget r) (Some t)) (start_connect r (Some t))"
proof -
  have "settles (same_config base) (progresses (\<lambda>_. True)) (co_catch (start_opening spawn r (pd_warnings d))
      (\<lambda>e. seg (exception_failure ''connect_target'' (ConnectTarget r) e None))) None" for spawn d
    by (intro settles_steady keeps_to_catch steps.of_opening steps.steady_seg steps.of_envelopes) blast
  then have decided: "waits_for base t (\<lambda>s. granted s OP_CONNECT_TARGET (ConnectTarget r) (Some t))
      (co_andthen (seg (decide OP_CONNECT_TARGET (ConnectTarget r) (Some t))) (\<lambda>d.
        if \<not> pd_allowed d
        then seg (policy_failure ''connect_target'' OP_CONNECT_TARGET (to_error d) (ConnectTarget r) (pd_warnings d))
        else co_catch (start_opening spawn r (pd_warnings d))
               (\<lambda>e. seg (exception_failure ''connect_target'' (ConnectTarget r) e None))))" for spawn
    by (rule wait_decide)
  show ?thesis
    unfolding start_connect_def
    by (intro wait_guarded, rule hold_seg_andthen [OF spared_parts(2)])
      (auto intro: hold_seg failure_spares decided split: option.split)
qed

text \<open>Every tool that takes a token waits for it.\<close>

lemma wait_handler:
  assumes "operation_of r \<notin> read_only_operations"
  shows "waits_for base t (\<lambda>s. authorized s r (Some t)) (handler_of r (Some t))"
proof (cases r)
  case (WriteMemory a)
  then show ?thesis
    by (auto simp: authorized_def start_write_def intro!: hold_seg failure_spares wait_guarded wait_with_session steps.of_co_calls
        split: sum.split)
qed (use assms in \<open>auto simp: authorized_def read_only_operations_def
    intro!: wait_connect wait_with_session steps.of_co_calls\<close>)

section \<open>One winner\<close>

text \<open>Call \<open>k\<close> brings \<open>t\<close> to a tool that takes a token.\<close>

definition presents :: "string \<Rightarrow> (tool_request \<times> string option) list \<Rightarrow> nat \<Rightarrow> bool" where
  "presents t calls k \<longleftrightarrow>
     k < length calls \<and> snd (calls ! k) = Some t \<and> operation_of (fst (calls ! k)) \<notin> read_only_operations"

text \<open>The state in which the policy and the token grant this call.\<close>

definition claims :: "string \<Rightarrow> (tool_request \<times> string option) list \<Rightarrow> nat \<Rightarrow> service \<Rightarrow> bool" where
  "claims t calls k s \<longleftrightarrow> authorized s (fst (calls ! k)) (Some t)"

lemma claims_there: "claims t calls k s \<Longrightarrow> presents t calls k \<Longrightarrow> \<not> gone s t"
  using gone_unauthorized by (auto simp: claims_def presents_def)

text \<open>
  The race: \<open>win\<close> is the call that has taken \<open>t\<close>, if there is one; every other one that presents it
  still waits.
\<close>

definition stage ::
  "service \<Rightarrow> string \<Rightarrow> (tool_request \<times> string option) list \<Rightarrow> nat option \<Rightarrow> nat \<Rightarrow> handler \<Rightarrow> bool" where
  "stage base t calls win k h \<longleftrightarrow>
     (if presents t calls k \<and> win \<noteq> Some k then waits_for base t (claims t calls k) h
      else \<exists>owed. goes_on base t h owed)"

definition race ::
  "service \<Rightarrow> string \<Rightarrow> (tool_request \<times> string option) list \<Rightarrow> nat option \<Rightarrow> service \<Rightarrow> handler list \<Rightarrow> bool" where
  "race base t calls win sv hs \<longleftrightarrow>
     before_decision base t sv \<and> length hs = length calls \<and> (win \<noteq> None \<longrightarrow> gone sv t)
     \<and> (\<forall>k < length calls. stage base t calls win k (hs ! k))"

lemma race_started:
  assumes "not_fresh sv t"
  shows "race sv t calls None sv (handlers calls)"
proof -
  have "waits_for sv t (claims t calls k) (handlers calls ! k)" if p: "presents t calls k" for k
  proof -
    have "handlers calls ! k = handler_of (fst (calls ! k)) (Some t)"
      using p by (simp add: presents_def handlers_def split_beta)
    moreover have "claims t calls k = (\<lambda>s. authorized s (fst (calls ! k)) (Some t))"
      by (simp add: claims_def fun_eq_iff)
    ultimately show ?thesis using p wait_handler by (simp add: presents_def)
  qed
  moreover have "goes_on sv t (handlers calls ! k) None" if "k < length calls" for k
  proof -
    have "handlers calls ! k = handler_of (fst (calls ! k)) (snd (calls ! k))"
      using that by (simp add: handlers_def split_beta)
    then show ?thesis using goes_on_settled [OF steps.of_handler] by simp
  qed
  ultimately have "stage sv t calls None k (handlers calls ! k)" if "k < length calls" for k
    using that unfolding stage_def by meson
  moreover have "length (handlers calls) = length calls" by (simp add: handlers_def)
  ultimately show ?thesis using assms by (simp add: race_def before_decision_def)
qed

text \<open>One step of the race: \<open>i\<close> goes from one stage to the next, and takes the token at most when it is there.\<close>

lemma before_decision_progresses:
  "progresses P sv sv1 \<Longrightarrow> before_decision base t sv \<Longrightarrow>
   before_decision base t sv1 \<and> (gone sv t \<longrightarrow> gone sv1 t)"
  using same_config_trans store_forward_fresh
  by (auto simp: before_decision_def progresses_def service_extends_def store_forward_def not_fresh_def)

lemma race_update:
  assumes "race base t calls win sv hs" and "win' = win \<or> win = None \<and> win' = Some i"
    and "progresses P sv sv1" and "win' \<noteq> None \<longrightarrow> gone sv1 t" and "stage base t calls win' i h"
  shows "race base t calls win' sv1 (hs[i := h])"
  unfolding race_def
proof (intro conjI allI impI)
  show "before_decision base t sv1" using before_decision_progresses [OF assms(3)] assms(1) by (simp add: race_def)
  show "length (hs[i := h]) = length calls" using assms(1) by (simp add: race_def)
  show "gone sv1 t" if "win' \<noteq> None" using assms(4) that by blast
  fix k assume "k < length calls"
  then have k: "stage base t calls win k (hs ! k)" "k < length hs" using assms(1) by (simp_all add: race_def)
  show "stage base t calls win' k (hs[i := h] ! k)"
  proof (cases "k = i")
    case True
    then show ?thesis using assms(5) k(2) by simp
  next
    case False
    then have "stage base t calls win' k = stage base t calls win k"
      using assms(2) by (auto simp: stage_def fun_eq_iff)
    then show ?thesis using k False by simp
  qed
qed

definition next_winner ::
  "string \<Rightarrow> (tool_request \<times> string option) list \<Rightarrow> service \<Rightarrow> nat option \<Rightarrow> nat option \<Rightarrow> nat \<Rightarrow> bool" where
  "next_winner t calls s win win' i \<longleftrightarrow> win' = win \<or> win = None \<and> win' = Some i \<and> claims t calls i s"

lemma race_step:
  assumes race: "race base t calls win sv hs" and w: "loop_step e (sv, hs) = (sv1, hs1)"
  shows "\<exists>win'. next_winner t calls sv win win' (handler_index e) \<and> race base t calls win' sv1 hs1
    \<and> (presents t calls (handler_index e) \<and> win \<noteq> Some (handler_index e) \<longrightarrow> spares sv sv1)"
proof (cases "handler_index e < length hs \<and> segment_of e (hs ! handler_index e) \<noteq> None")
  case True
  let ?i = "handler_index e"
  obtain f where f: "segment_of e (hs ! ?i) = Some f" using True by blast
  have moved: "sv1 = snd (f sv)" "hs1 = hs[?i := fst (f sv)]"
    using w True f by (auto simp: loop_step_def split: prod.splits)
  have I: "before_decision base t sv" and won: "win \<noteq> None \<Longrightarrow> gone sv t"
    and st: "stage base t calls win ?i (hs ! ?i)"
    using race True by (simp_all add: race_def)
  have same: "race base t calls win sv1 hs1"
    if "progresses P sv sv1" "stage base t calls win ?i (fst (f sv))" for P
    using that won before_decision_progresses [OF that(1) I] unfolding moved(2)
    by (intro race_update [OF race _ that(1)]) simp_all
  show ?thesis
  proof (cases "presents t calls ?i \<and> win \<noteq> Some ?i")
    case True
    then have "waits_for base t (claims t calls ?i) (hs ! ?i)" using st by (simp add: stage_def)
    from holds_back_segment [OF this f I]
    have u: "spares sv sv1"
      and n: "waits_for base t (claims t calls ?i) (fst (f sv))
        \<or> claims t calls ?i sv \<and> gone sv1 t \<and> goes_on base t (fst (f sv)) None"
      by (simp_all add: moved)
    have p: "progresses (\<lambda>_. False) sv sv1" using u by (simp add: spares_def)
    from n show ?thesis
    proof
      assume "waits_for base t (claims t calls ?i) (fst (f sv))"
      then have "race base t calls win sv1 hs1" using True by (intro same [OF p]) (simp add: stage_def)
      then show ?thesis using u by (auto simp: next_winner_def)
    next
      assume g: "claims t calls ?i sv \<and> gone sv1 t \<and> goes_on base t (fst (f sv)) None"
      then have "win = None" using won claims_there True by blast
      moreover have "stage base t calls (Some ?i) ?i (fst (f sv))" using g by (auto simp: stage_def)
      ultimately have "race base t calls (Some ?i) sv1 hs1"
        using g unfolding moved(2) by (intro race_update [OF race _ p]) simp_all
      then show ?thesis using \<open>win = None\<close> g u by (auto simp: next_winner_def)
    qed
  next
    case False
    then obtain owed where "goes_on base t (hs ! ?i) owed" using st by (auto simp: stage_def)
    from settles_segment [OF this f I] obtain owed' where
      s: "slot_step (progresses (\<lambda>_. True)) owed owed' sv sv1" and h: "goes_on base t (fst (f sv)) owed'"
      by (auto simp: moved)
    have p: "progresses (\<lambda>_. True) sv sv1" using s by (rule steps.of_slot_step)
    have "race base t calls win sv1 hs1" using False h by (intro same [OF p]) (auto simp: stage_def)
    then show ?thesis using False by (auto simp: next_winner_def)
  qed
next
  case False
  then have "sv1 = sv \<and> hs1 = hs" using w by (auto simp: loop_step_def split: if_splits)
  then show ?thesis using race steps.R_refl by (auto simp: next_winner_def spares_def same_sessions_def)
qed

text \<open>
  A whole schedule: when a call that presents \<open>t\<close> does more, after \<open>pre\<close>, than to spare the sessions,
  it is the winner, and it was granted this somewhere in \<open>pre\<close>, or before all of it.
\<close>

definition granted_in ::
  "string \<Rightarrow> (tool_request \<times> string option) list \<Rightarrow> loop_event list \<Rightarrow> service \<times> handler list \<Rightarrow> nat \<Rightarrow> bool" where
  "granted_in t calls pre w k \<longleftrightarrow> (\<exists>as bs. pre = as @ bs \<and> claims t calls k (fst (play as w)))"

lemma granted_in_first: "claims t calls k sv \<Longrightarrow> granted_in t calls pre (sv, hs) k"
  unfolding granted_in_def by (rule exI [of _ "[]"]) simp

lemma granted_in_later: "granted_in t calls pre (loop_step e w) k \<Longrightarrow> granted_in t calls (e # pre) w k"
  unfolding granted_in_def by (metis append_Cons play_simps(2))

definition spares_or_wins ::
  "string \<Rightarrow> (tool_request \<times> string option) list \<Rightarrow> nat option \<Rightarrow> nat option
   \<Rightarrow> service \<times> handler list \<Rightarrow> loop_event list \<Rightarrow> loop_event \<Rightarrow> bool" where
  "spares_or_wins t calls win winner w pre e \<longleftrightarrow>
     spares (fst (play pre w)) (fst (play (pre @ [e]) w))
     \<or> winner = Some (handler_index e)
       \<and> (win = Some (handler_index e) \<or> granted_in t calls pre w (handler_index e))"

lemma race_played:
  "race base t calls win sv hs \<Longrightarrow>
   \<exists>winner. (win \<noteq> None \<longrightarrow> winner = win) \<and>
     (\<forall>pre e post. schedule = pre @ e # post \<longrightarrow> presents t calls (handler_index e) \<longrightarrow>
        spares_or_wins t calls win winner (sv, hs) pre e)"
proof (induction schedule arbitrary: win sv hs)
  case (Cons e0 es)
  obtain sv1 hs1 where w: "loop_step e0 (sv, hs) = (sv1, hs1)" by fastforce
  obtain win1 where win1: "next_winner t calls sv win win1 (handler_index e0)" and r: "race base t calls win1 sv1 hs1"
    and first: "presents t calls (handler_index e0) \<Longrightarrow> win \<noteq> Some (handler_index e0) \<Longrightarrow> spares sv sv1"
    using race_step [OF Cons.prems w] by blast
  from Cons.IH [OF r] obtain winner where keep: "win1 \<noteq> None \<longrightarrow> winner = win1"
    and rest: "\<forall>pre e post. es = pre @ e # post \<longrightarrow> presents t calls (handler_index e) \<longrightarrow>
      spares_or_wins t calls win1 winner (sv1, hs1) pre e"
    by (elim exE conjE)
  have kept: "win \<noteq> None \<longrightarrow> winner = win" using win1 keep by (auto simp: next_winner_def)
  have won: "win1 = Some k \<Longrightarrow> win = Some k \<or> granted_in t calls pre (sv, hs) k" for k pre
    using win1 granted_in_first by (auto simp: next_winner_def)
  have "spares_or_wins t calls win winner (sv, hs) pre e"
    if "e0 # es = pre @ e # post" "presents t calls (handler_index e)" for pre e post
  proof (cases pre)
    case Nil
    then show ?thesis using that w first kept by (auto simp: spares_or_wins_def)
  next
    case (Cons x xs)
    then have x: "x = e0" "es = xs @ e # post" using that(1) by simp_all
    have "spares_or_wins t calls win1 winner (sv1, hs1) xs e" using rest x(2) that(2) by simp
    then show ?thesis
      using won granted_in_later [of t calls xs e0 "(sv, hs)"] w x(1) Cons by (auto simp: spares_or_wins_def)
  qed
  with kept show ?case by (intro exI [of _ winner]) simp
qed simp

lemma one_winner:
  assumes "not_fresh sv t"
  shows "\<exists>winner. \<forall>pre e post. schedule = pre @ e # post \<longrightarrow> presents t calls (handler_index e) \<longrightarrow>
      spares (interleaved pre calls sv) (interleaved (pre @ [e]) calls sv)
      \<or> winner = Some (handler_index e)
        \<and> (\<exists>as bs. pre = as @ bs \<and> authorized (interleaved as calls sv) (fst (calls ! handler_index e)) (Some t))"
  using race_played [OF race_started [OF assms], of schedule]
  by (simp add: interleaved_def granted_in_def claims_def spares_or_wins_def)

end
