(* ===== verification/Spec2Isabelle.thy ===== *)
theory Spec2Isabelle
  imports Component_Properties Divergences Tool_Arguments Slot_Settlement GDB_Process Smoke_Client Cancelled_Commands Token_Races
begin

text \<open>
  ProbeMCP is an MCP server that lets an agent debug embedded targets through GDB. This library
  models its Python code (\<open>src/src/probemcp\<close>) as functions on explicit states and proves what
  makes it safe to hand a debugger to an agent: every command that reaches GDB was permitted,
  confirmed and is of the tool that was called, every answer is well-formed and audited, and
  the parts compute what they say.

  \<^bold>\<open>Parts and theories.\<close>
  \<^item> Prelude: \<open>Py_Base\<close> (exceptions as values; \<open>('s, 'a) prog\<close>, a call that reads and writes a
    state and may raise, with the combinators for \<open>try\<close>, \<open>finally\<close>, \<open>for\<close>; the frame and
    invariant rules \<open>keeps\<close>, \<open>ensures\<close> and the locale \<open>effect_order\<close>), \<open>Py_Dict\<close> (insertion
    ordered dicts, locale \<open>keyed_store\<close>), \<open>Py_Text\<close> (strings as Latin-1 character lists,
    \<open>int()\<close>, \<open>repr\<close>, \<open>bytes.fromhex\<close>), \<open>Json\<close> (values and the canonical text), \<open>Hex_Text\<close>,
    \<open>Slot_Pool\<close> (counters that coroutines reserve and release under a lock; locales
    \<open>slot_counter\<close> and \<open>slot_pool\<close>).
  \<^item> \<open>Schemas\<close>, \<open>Result_Data\<close>: \<open>mcp_server/schemas.py\<close>, \<open>errors.py\<close>; requests, results and
    their validation, errors.
  \<^item> \<open>MI_Records\<close>, \<open>MI_Parser\<close>, \<open>MI_Roundtrip\<close>, \<open>MI_Commands\<close>, \<open>MI_Controller\<close>,
    \<open>MI_Concurrency\<close>, \<open>MI_Cancellation\<close>: \<open>mi/*.py\<close>; the GDB/MI parser with a printer it inverts, the command builders and the serializer with a
    reader that inverts it, and the controller over a transport whose inputs are a script.
    \<open>MI_Concurrency\<close> interleaves commands at their awaits and serializes them, \<open>MI_Cancellation\<close>
    cancels them while they wait (\<open>Cancelled_Commands\<close> shows that a cancelled session operation leaves
    the controller as such a run does); \<open>GDB_Process\<close>
    refines the closing of the transport to the signals that end the process.
  \<^item> \<open>Backends\<close> (\<open>backends/*.py\<close>, locale \<open>backend_adapter\<close>), \<open>Debug_State\<close>, \<open>Debug_Session\<close>
    (\<open>debug/*.py\<close>), \<open>Session_Manager\<close> (\<open>sessions/manager.py\<close>).
  \<^item> \<open>Safety_Policy\<close>, \<open>Confirmation\<close> (\<open>safety/*.py\<close>), \<open>Privacy\<close> (\<open>privacy.py\<close>), \<open>Audit_Log\<close>
    (\<open>audit/logger.py\<close>).
  \<^item> \<open>Targets\<close>, \<open>Symbols\<close>, \<open>Snapshots\<close> (locale \<open>snapshot_target\<close>), \<open>Fault_Analyzer\<close>, \<open>Svd\<close>:
    \<open>targets.py\<close>, \<open>symbols.py\<close>, \<open>snapshots/*.py\<close>, \<open>analyzers/cortexm/fault_analyzer.py\<close>,
    \<open>svd.py\<close>, \<open>peripherals.py\<close>.
  \<^item> \<open>Tool_Service\<close>, \<open>Tool_Handlers\<close>: \<open>mcp_server/service.py\<close>. \<open>Service_Effects\<close> proves what a
    call may send, \<open>Service_Answers\<close> what it answers and records, \<open>Call_Frame\<close> (locales
    \<open>call_parts\<close>, \<open>call_steps\<close> and \<open>call_frame\<close>) takes a relation from the steps of a call to all
    calls, \<open>Service_Properties\<close> interprets it by the invariant, the counters and the number of
    sessions, and \<open>Confirmation_Flow\<close> follows the life of a token.
  \<^item> \<open>Coroutine\<close> (resumptions that can be resumed or cancelled at their awaits, with the rules
    \<open>keeps_to\<close> for their segments), \<open>Session_Coroutines\<close>, \<open>Handler_Coroutines\<close>: the session operations and
    the handlers of \<open>mcp_server/service.py\<close> again, as the coroutines they are, cut at every GDB command;
    run alone they are the functions above (\<open>run_handler\<close>). \<open>Interleaving\<close> (locales \<open>segment_parts\<close> and
    \<open>segment_steps\<close>) takes what holds of the segments to every schedule, \<open>Slot_Settlement\<close> counts the
    slots, \<open>Token_Races\<close> follows the calls that present one token, and \<open>Loop_Runs\<close> follows single
    schedules.
  \<^item> \<open>Tool_Registry\<close> (\<open>mcp_server/tools.py\<close>), \<open>Configuration\<close> (\<open>config.py\<close>,
    \<open>mcp_server/factory.py\<close>), \<open>Application\<close> (\<open>mcp_server/app.py\<close>), \<open>Command_Line\<close> (\<open>cli.py\<close>):
    the service of a configuration and the calls an MCP client can make of it; \<open>Tool_Arguments\<close> is the
    contract of the tool functions, by the JSON Schema of their arguments; \<open>Smoke_Client\<close>
    (\<open>examples/codex-mcp/stdio_smoke.py\<close>) is the client that tests a server.
  \<^item> \<open>Lab_Inventory\<close> (\<open>lab/*.py\<close>) and \<open>Freertos\<close> (\<open>rtos/freertos.py\<close>), which the server does not
    call yet.
  \<^item> \<open>Scenarios\<close> holds concrete states for the worked examples, \<open>Component_Properties\<close> the
    properties of single components; this theory those that span components. \<open>Divergences\<close>
    shows on runs where the code does not do what it or its documents mean.

  \<^bold>\<open>State and interaction.\<close> A \<open>service\<close> holds the registered sessions, the snapshots, the token
  store, the audit log, the counters and the configuration, and the environment: ids, clock
  readings, the digest, SVD documents, the processes that GDB is spawned as and the command lines
  they were started with. A new session has the transport of a process to which nothing was written
  (\<open>new_transport\<close>), so \<open>service_extends\<close>, the relation of what is sent, accounts for every line in the
  input of every GDB process (\<open>lines_of\<close>), the first one included. A handler
  decides by the policy and the token store, reserves a slot, calls the session, releases the
  slot and answers. A session runs MI commands on its controller and moves its state machine.
  \<open>serve\<close> is any sequence of calls, where handlers run one at a time. \<open>interleaved\<close> is any schedule
  of the event loop: it resumes a handler up to its next await, or cancels one that waits for GDB, as
  a client does that gives up a request. A session is shared: each segment of a call finds it as other
  calls left it. A GDB command is one segment there, since the commands of one controller exclude each
  other by its lock; \<open>MI_Concurrency\<close> goes below that, to the awaits inside a command, and
  \<open>MI_Cancellation\<close> cancels commands there.

  \<^bold>\<open>Bounds.\<close> The parser has fuel 4 times the line's length plus 4, which is proved to be enough
  (\<open>parser_enough\<close>); nothing else is bounded.
  A run of concurrent commands is shown to be finite, with six steps per command and one per read.

  \<^bold>\<open>Outside the model.\<close> The MCP library, pydantic's JSON parsing and printing of models, the
  XML parser, SHA-256, the random source, the clock, files and the database engine below rows,
  the spawning of processes, logging. Where the code relies on one of them, it is a parameter.
\<close>

section \<open>Properties of the tool service\<close>

text \<open>
  C1: complete mediation. Whatever a tool call writes to a GDB process is a command of its own
  tool, the policy permits the tool's operation in the service's configuration, and a
  confirmation token that comes with the call is valid for this operation and request. So every line
  in the input of a GDB process after the call, of a session that was there or of a new one, whose
  process begins with nothing written, was there before or is such a command. A process
  is started only by a connect_target call that is authorized in the same way, with the command
  line of its request.
\<close>

theorem complete_mediation:
  "service_extends (\<lambda>c. may_send r c \<and> authorized sv r tok) sv (snd (call_tool r tok sv))
   \<and> lines_of (snd (call_tool r tok sv)) \<subseteq> lines_of sv \<union> lines_for (\<lambda>c. may_send r c \<and> authorized sv r tok)
   \<and> spawns_granted r tok sv (snd (call_tool r tok sv))"
  using call_tool_mediated service_extends_lines [OF call_tool_mediated] call_tool_spawns by blast

text \<open>
  The statement is about commands that are really sent: a permitted halt adds a line, which a relation
  that allows no command refuses.
\<close>

lemma halt_line: "''1-exec-interrupt'' \<in> lines_of (snd (call_tool halt_1 None (example_service FULL_CONTROL RUNNING [''1^done''])))"
proof -
  let ?sv = "snd (call_tool halt_1 None (example_service FULL_CONTROL RUNNING [''1^done'']))"
  have "map (\<lambda>(sid, s). outbox (transport_of (controller_of s))) (sv_sessions ?sv) = [[''1-exec-interrupt'']]"
    by code_simp
  then show ?thesis by (auto simp: lines_of_def sessions_of_def)
qed

lemma extends_nothing_refuted:
  "\<not> service_extends (\<lambda>c. False) (example_service FULL_CONTROL RUNNING [''1^done''])
     (snd (call_tool halt_1 None (example_service FULL_CONTROL RUNNING [''1^done''])))"
proof
  let ?sv = "example_service FULL_CONTROL RUNNING [''1^done'']"
  assume "service_extends (\<lambda>c. False) ?sv (snd (call_tool halt_1 None ?sv))"
  from service_extends_lines [OF this] halt_line have "''1-exec-interrupt'' \<in> lines_of ?sv"
    by (auto simp: lines_for_def)
  then show False
    by (simp add: lines_of_def sessions_of_def example_service_def example_session_def new_controller_def
        gdb_lines_def new_transport_def)
qed

text \<open>
  C2: a confirmation token works once. After a call that presented a token and touched a
  session, no later call is authorized by this token, whatever is called in between and as long
  as the id source does not repeat it.
\<close>

theorem token_single_use:
  assumes "operation_of r \<notin> read_only_operations" and "not_fresh sv t"
    and "\<not> same_sessions sv (snd (call_tool r (Some t) sv))" and "operation_of r' \<notin> read_only_operations"
  shows "\<not> authorized (serve calls (snd (call_tool r (Some t) sv))) r' (Some t)"
  using assms by (rule used_token_dead)

theorem token_single_use_witness:
  "\<not> authorized (serve [(halt_1, None)] (snd (call_tool halt_1 (Some ''0'') (offered_service [''1^done''])))) halt_1 (Some ''0'')"
proof (rule token_single_use)
  show "not_fresh (offered_service [''1^done'']) ''0''"
    by (rule not_fresh_offered)
  show "\<not> same_sessions (offered_service [''1^done''])
     (snd (call_tool halt_1 (Some ''0'') (offered_service [''1^done''])))"
    by code_simp
qed simp_all

text \<open>
  C3: the confirmation round. A call that needs confirmation touches no session and answers
  CONFIRMATION_REQUIRED with a fresh token; presented within its life time for the same
  request, in any state that still holds it, this token authorizes the call.
\<close>

theorem confirmation_round:
  assumes "operation_of r \<notin> read_only_operations" and "reaches_policy sv r"
    and "pd_confirmation_required (evaluate (policy_request_of sv (operation_of r) None))"
    and "pd_required_permission (evaluate (policy_request_of sv (operation_of r) None)) \<le> sv_permission_mode sv"
    and "\<not> (operation_of r = OP_WRITE_MEMORY \<and> sv_target_class sv = PRODUCTION_HARDWARE)"
    and "env_id sv (env_ids_drawn sv) \<noteq> []"
  shows "\<exists>res sv1 e tok. call_tool r None sv = (Inr res, sv1) \<and> same_sessions sv sv1
    \<and> res_error res = Some e \<and> code e = CONFIRMATION_REQUIRED \<and> confirmation_token e = Some tok
    \<and> (\<forall>sv2. same_config sv sv2 \<and> dict_get (ts_records (sv_store sv2)) tok = dict_get (ts_records (sv_store sv1)) tok
         \<and> env_time sv2 (env_times_read sv2)
             \<le> env_time sv (env_times_read sv) + of_int (ts_ttl_seconds (sv_store sv))
         \<longrightarrow> authorized sv2 r (Some tok))"
  using confirmation_offered [OF assms(1-3)] offered_token_grants [OF assms(3-5) _ assms(6) _ _ assms(1)]
  by fastforce

theorem confirmation_round_witness:
  "\<exists>res sv1 e. call_tool halt_1 None (example_service CONFIRM_REQUIRED RUNNING []) = (Inr res, sv1)
    \<and> res_error res = Some e \<and> code e = CONFIRMATION_REQUIRED"
  using confirmation_round [of halt_1 "example_service CONFIRM_REQUIRED RUNNING []"]
  by (auto simp: reaches_policy_def halt_1_def example_service_def policy_request_of_def evaluate_def read_only_operations_def
    target_changing_operations_def evaluate_target_changing_def evaluate_hardware_interlock_def hardware_interlock_classes_def has_token_def)

text \<open>
  C4: a token is bound to its request. The token offered for one request authorizes no other
  target-changing request, unless the digests of the two canonical texts collide.
\<close>

theorem token_bound_to_request:
  assumes "collision_free (env_digest sv) r r'" and "same_config sv sv2"
    and "dict_get (ts_records (sv_store sv2)) tok = Some (offered sv r)"
    and "authorized sv2 r' (Some tok)" and "operation_of r' \<notin> read_only_operations"
  shows "r' = r"
  using assms by (rule offered_token_bound)

theorem token_bound_to_request_witness:
  "\<not> authorized (offered_service []) (Halt \<lparr>ht_session_id = ''session_1'', ht_timeout_ms = 2000\<rparr>) (Some ''0'')"
proof
  let ?sv = "example_service CONFIRM_REQUIRED RUNNING []"
  let ?r = "Halt \<lparr>ht_session_id = ''session_1'', ht_timeout_ms = 2000\<rparr>"
  assume a: "authorized (offered_service []) ?r (Some ''0'')"
  have "?r = halt_1"
  proof (rule token_bound_to_request)
    show "collision_free (env_digest ?sv) halt_1 ?r" by code_simp
    show "same_config ?sv (offered_service [])"
      by (simp add: same_config_def offered_service_def example_service_def)
    show "dict_get (ts_records (sv_store (offered_service []))) ''0'' = Some (offered ?sv halt_1)"
      by (simp add: offered_def offered_service_def example_service_def issue_def new_token_store_def)
    show "authorized (offered_service []) ?r (Some ''0'')" by (rule a)
  qed (simp add: read_only_operations_def)
  then show False by (simp add: halt_1_def)
qed

text \<open>
  C5: one confirmation token is good for one of several concurrent calls. Under every schedule, with
  cancellations, there is at most one call, the winner, that presents the token and does more in any of
  its steps than leave every session as it is and start no process, and before that step the policy
  and the token granted this very call. All others only answer, however the calls interleave.
\<close>

theorem token_race:
  assumes "not_fresh sv t"
  shows "\<exists>winner. \<forall>pre e post. schedule = pre @ e # post \<longrightarrow> presents t calls (handler_index e) \<longrightarrow>
      spares (interleaved pre calls sv) (interleaved (pre @ [e]) calls sv)
      \<or> winner = Some (handler_index e)
        \<and> (\<exists>as bs. pre = as @ bs \<and> authorized (interleaved as calls sv) (fst (calls ! handler_index e)) (Some t))"
  using assms by (rule one_winner)

theorem token_race_witness:
  "let after = \<lambda>es. interleaved es [(halt_1, Some ''0''), (halt_1, Some ''0'')] (offered_service [''1^done'']);
       es = [Continue 0, Continue 1, Continue 0, Continue 1, Continue 0, Continue 1]
   in spares (after es) (after (es @ [Continue 0]))
      \<or> spares (after (es @ [Continue 0])) (after (es @ [Continue 0, Continue 1]))"
proof -
  let ?calls = "[(halt_1, Some ''0''), (halt_1, Some ''0'')]" and ?sv = "offered_service [''1^done'']"
  let ?es = "[Continue 0, Continue 1, Continue 0, Continue 1, Continue 0, Continue 1]"
  obtain winner where step: "\<And>pre e post. ?es @ [Continue 0, Continue 1] = pre @ e # post \<Longrightarrow>
      presents ''0'' ?calls (handler_index e) \<Longrightarrow> winner \<noteq> Some (handler_index e) \<Longrightarrow>
      spares (interleaved pre ?calls ?sv) (interleaved (pre @ [e]) ?calls ?sv)"
    using token_race [OF not_fresh_offered, of "?es @ [Continue 0, Continue 1]" ?calls "[''1^done'']"] by metis
  have "presents ''0'' ?calls 0" "presents ''0'' ?calls 1" by (simp_all add: presents_def)
  moreover have "winner \<noteq> Some 0 \<or> winner \<noteq> Some 1" by auto
  ultimately show ?thesis
    using step [of ?es "Continue 0" "[Continue 1]"] step [of "?es @ [Continue 0]" "Continue 1" "[]"]
    by (auto simp: Let_def)
qed

text \<open>
  C6: read-only mode. Neither a sequence of calls nor any schedule of concurrent and cancelled ones,
  with whatever tokens, sends anything but reading commands, and no target-changing call is ever
  authorized.
\<close>

theorem readonly_mode:
  assumes "sv_permission_mode sv = READONLY"
  shows "service_extends reading sv (serve calls sv)
    \<and> service_extends reading sv (interleaved schedule calls sv)
    \<and> (operation_of r \<notin> read_only_operations \<longrightarrow> \<not> authorized (interleaved schedule calls sv) r tok)"
proof -
  have e: "service_extends reading sv (interleaved schedule calls sv)"
    by (rule interleaved_extends) (rule readonly_reads [OF assms])
  then have "sv_permission_mode (interleaved schedule calls sv) = READONLY"
    using assms by (simp add: service_extends_def same_config_def)
  then show ?thesis using e readonly_serves_reads [OF assms] readonly_unauthorized by blast
qed

theorem readonly_mode_witness:
  "service_extends reading (example_service READONLY HALTED [])
     (interleaved [Continue 0, Continue 1, Continue 0] [(halt_1, Some ''0''), (registers_1, None)]
       (example_service READONLY HALTED []))
   \<and> \<not> authorized (interleaved [] [] (example_service READONLY HALTED [])) halt_1 (Some ''0'')"
  using readonly_mode [of "example_service READONLY HALTED []", where schedule = "[Continue 0, Continue 1, Continue 0]"
      and calls = "[(halt_1, Some ''0''), (registers_1, None)]"]
    readonly_mode [of "example_service READONLY HALTED []", where schedule = "[]" and calls = "[]"
      and r = halt_1 and tok = "Some ''0''"]
  by (simp add: example_service_def)






text \<open>
  C10: apart from the loading of SVD documents, the only exception that leaves a handler is that
  of an error envelope whose message would be empty.
\<close>

theorem only_empty_text_escapes:
  assumes "call_tool r tok sv = (Inl e, sv')" and "operation_of r \<noteq> OP_INSPECT_PERIPHERAL"
  shows "e = Exc ValidationError ''message''"
  using raisesD [OF call_tool_raises [OF assms(2)] assms(1)] by (simp add: no_text_def)

theorem only_empty_text_escapes_witness:
  "projl (fst (call_tool halt_1 None
     (example_service FULL_CONTROL RUNNING [''1^error,msg='' @ [DQUOTE, DQUOTE]]))) = Exc ValidationError ''message''"
  by (rule only_empty_text_escapes [of halt_1 None], rule run_Inl, code_simp) simp

text \<open>
  C11: the service invariant holds after any sequence of calls: sessions and snapshots are
  stored under their own ids with distinct keys, the history of every session, registered
  or dropped, is a path of legal transitions, and the number of sessions stays within its limit.
\<close>

theorem service_invariant:
  assumes "service_ok sv"
  shows "service_ok (serve calls sv)
    \<and> (\<forall>s \<in> sessions_of (serve calls sv). linked DISCONNECTED (machine s))
    \<and> int (length (sv_sessions (serve calls sv)))
        \<le> max (int (length (sv_sessions sv))) (max_sessions (sv_limits sv))"
proof -
  have ok: "service_ok (serve calls sv)" using assms by (rule serve_ok)
  then have "\<forall>s \<in> sessions_of (serve calls sv). linked DISCONNECTED (machine s)"
    by (auto simp: service_ok_def sessions_of_def manager_ok_def session_ok_def)
  with ok show ?thesis using sessions_within_limit by blast
qed

theorem service_invariant_witness:
  "service_ok (serve [(halt_1, None)] (example_service READONLY DISCONNECTED []))"
  by (rule service_invariant [THEN conjunct1]) code_simp

text \<open>C12: every call restores the counters of active calls, whether it returns or raises.\<close>

theorem counters_restored:
  assumes "counters_ok sv"
  shows "counters (snd (call_tool r tok sv)) = counters sv"
  using ensuresD [OF call_tool_restores] assms by (simp add: restores_def)

theorem counters_restored_witness:
  "counters (snd (call_tool halt_1 None (example_service READONLY HALTED []))) =
   counters (example_service READONLY HALTED [])"
  by (rule counters_restored) (simp add: counters_ok_def active_of_def example_service_def)

text \<open>
  C13: the slots of concurrent calls. However handlers are resumed, and cancelled while they wait for
  GDB, the counters stay within their limits, an operation of a session is one of the active calls,
  and the active calls are at most the handlers that still wait: when none waits, every slot has
  been given back.
\<close>

theorem slots_released:
  assumes "sv_active_tool_calls sv = 0" and "\<forall>sid. active_of sv sid = 0"
    and "play schedule (sv, handlers calls) = (sv', hs)"
  shows "0 \<le> active_of sv' sid \<and> active_of sv' sid \<le> sv_active_tool_calls sv'
    \<and> sv_active_tool_calls sv' \<le> int (length (filter waits hs))
    \<and> sv_active_tool_calls sv' \<le> max 0 (max_concurrent_tool_calls (sv_limits sv))
    \<and> active_of sv' sid \<le> max 0 (max_session_operations (sv_limits sv))"
  using slots_settled [OF assms] .

theorem slots_released_witness:
  "sv_active_tool_calls cancelled_halt = 0 \<and> active_of cancelled_halt ''session_1'' = 0"
proof -
  let ?sv = "example_service FULL_CONTROL RUNNING []"
  have "play cancelling (?sv, handlers [(halt_1, None)]) = (cancelled_halt, [Cancelled])"
    using cancelled_run by (auto simp: cancelled_halt_def interleaved_def)
  from slots_released [OF _ _ this, of "''session_1''"] show ?thesis
    by (simp add: example_service_def active_of_def)
qed

text \<open>The same limits for any coroutines that reserve and release, also without a session.\<close>

theorem limits_under_interleaving:
  assumes "pool_run (reserve_for sid_of) (release_for sid_of) (sv, {}) (sv', K)"
    and "sv_active_tool_calls sv = 0" and "active_of sv sid = 0"
  shows "sv_active_tool_calls sv' = int (card K)
    \<and> int (card K) \<le> max 0 (max_concurrent_tool_calls (sv_limits sv))
    \<and> int (card {i \<in> K. sid_of i = Some sid}) \<le> max 0 (max_session_operations (sv_limits sv))"
  using concurrent_calls_bound [OF assms(1,2)] session_operations_bound [OF assms(1,3)] by simp

theorem limits_under_interleaving_witness:
  "sv_active_tool_calls (the (reserve_for (\<lambda>_. Some ''session_1'') 0 (example_service READONLY HALTED [])))
     = int (card {0::nat})"
proof (rule limits_under_interleaving [THEN conjunct1])
  let ?sv = "example_service READONLY HALTED []" and ?r = "reserve_for (\<lambda>_. Some ''session_1'')"
  have "\<not> Option.is_none (?r 0 ?sv)" by code_simp
  then have "?r 0 ?sv = Some (the (?r 0 ?sv))" by (simp add: Option.is_none_def)
  then show "pool_run ?r (release_for (\<lambda>_. Some ''session_1'')) (?sv, {}) (the (?r 0 ?sv), {0})"
    by (intro pool_run.step [OF pool_run.start] pool_step.enter) simp_all
qed (simp_all add: example_service_def active_of_def)

text \<open>
  C14: handlers that run at the same time. In every schedule of any calls, resumed from one await to
  the next, down to the single GDB commands, or cancelled while they wait for GDB, every command
  belongs to a tool that was called and is permitted by the policy, the service invariant holds, and a
  token that is gone stays gone. One of the schedules is to serve the calls one after the other, and
  no schedule goes on for ever.
\<close>

theorem interleaved_calls:
  assumes "service_ok sv" and "gone sv tok" and "not_fresh sv tok"
  shows "service_extends (\<lambda>c. \<exists>(r, t) \<in> set calls. may_send r c \<and> permitted sv r t) sv (interleaved schedule calls sv)
    \<and> service_ok (interleaved schedule calls sv) \<and> gone (interleaved schedule calls sv) tok
    \<and> (\<exists>one_by_one. interleaved one_by_one calls sv = serve calls sv) \<and> wf resumption"
  using interleaved_progresses [of calls sv schedule] serve_interleaved [of calls sv] wf_resumption assms
  by (simp add: progresses_def store_forward_def)

theorem interleaved_calls_witness:
  "service_extends (\<lambda>c. \<exists>(r, t) \<in> {(halt_1, Some ''0''), (registers_1, None)}. may_send r c
       \<and> permitted ((example_service CONFIRM_REQUIRED DISCONNECTED [])\<lparr>env_ids_drawn := 1\<rparr>) r t)
     ((example_service CONFIRM_REQUIRED DISCONNECTED [])\<lparr>env_ids_drawn := 1\<rparr>)
     (interleaved [Continue 0, Continue 1, Abandon 0 1, Continue 1] [(halt_1, Some ''0''), (registers_1, None)]
       ((example_service CONFIRM_REQUIRED DISCONNECTED [])\<lparr>env_ids_drawn := 1\<rparr>))"
proof -
  let ?sv = "(example_service CONFIRM_REQUIRED DISCONNECTED [])\<lparr>env_ids_drawn := 1\<rparr>"
  have "service_ok ?sv" by code_simp
  moreover have "gone ?sv (nat_str 0)" by code_simp
  moreover have "not_fresh ?sv (nat_str 0)" by (rule not_fresh_numeral) (simp_all add: example_service_def)
  ultimately show ?thesis
    using interleaved_calls [of ?sv _ "[(halt_1, Some ''0''), (registers_1, None)]"] by simp
qed

section \<open>The application and its configuration\<close>

text \<open>
  C15: the contract of the tool functions. A call whose arguments are within the JSON Schema of the tool
  is exactly one call of the service, by the tool of the same name and with the same confirmation token,
  on a request that has the arguments as its fields, and there is only one such request; every other
  call raises a ValueError or ValidationError and has no effect. So any sequence of calls is the
  sequence of service calls of the acceptable ones, in order.
\<close>

theorem application_calls:
  "(if acceptable c
    then \<exists>!r. request_for c r \<and> app_run c sv = call_tool r (token_argument c) sv
    else \<exists>e. app_run c sv = (Inl e, sv) \<and> exc_of e \<in> {ValueError, ValidationError})
   \<and> (\<exists>calls. app_serve cs sv = serve calls sv
        \<and> list_all2 (\<lambda>c (r, tok). request_for c r \<and> tok = token_argument c) (filter acceptable cs) calls)"
proof
  have "\<exists>!r. request_for c r \<and> app_run c sv = call_tool r (token_argument c) sv" if "acceptable c"
    using app_run_exact [of c] that request_for_unique [of c] by (auto simp: exact_def)
  moreover have "\<exists>e. app_run c sv = (Inl e, sv) \<and> exc_of e \<in> {ValueError, ValidationError}" if "\<not> acceptable c"
    using app_run_exact [of c] that by (auto simp: exact_def)
  ultimately show "if acceptable c
      then \<exists>!r. request_for c r \<and> app_run c sv = call_tool r (token_argument c) sv
      else \<exists>e. app_run c sv = (Inl e, sv) \<and> exc_of e \<in> {ValueError, ValidationError}"
    by simp
  obtain calls where "app_serve cs sv = serve calls sv" and "list_all2 (\<lambda>c (r, tok).
      request_for c r \<and> valid_request r \<and> tok = token_argument c) (filter acceptable cs) calls"
    using app_serve_exact [of cs sv] by blast
  then show "\<exists>calls. app_serve cs sv = serve calls sv
      \<and> list_all2 (\<lambda>c (r, tok). request_for c r \<and> tok = token_argument c) (filter acceptable cs) calls"
    by (auto elim!: list_all2_mono)
qed

text \<open>
  C16: a configured server. From the service built of a valid configuration, whatever the
  application is asked, the service invariant holds, at most the configured number of sessions
  (never over 64) is open, GDB's console sees allowlisted commands only, a read-only configuration
  sends reading commands only, memory is written only if the configuration enables it, and every
  process that is started is GDB in MI mode without the user's init files. Under every schedule of
  concurrent calls the invariant still holds, and no more calls than configured are active.
\<close>

theorem configured_server:
  assumes "valid_config cfg" and "sv = create_tool_service env events cfg"
  shows "service_ok (app_serve cs sv) \<and> service_extends allowlisted sv (app_serve cs sv)
    \<and> int (length (sv_sessions (app_serve cs sv))) \<le> sc_max_sessions (pc_server cfg)
    \<and> sc_max_sessions (pc_server cfg) \<le> 64
    \<and> (sc_permission_mode (pc_server cfg) = READONLY \<longrightarrow> service_extends reading sv (app_serve cs sv))
    \<and> (\<not> sc_memory_write_enabled (pc_server cfg) \<longrightarrow>
        service_extends (\<lambda>c. cmd_name c \<noteq> DATA_WRITE_MEMORY_BYTES) sv (app_serve cs sv))
    \<and> list_all spawned_gdb (env_spawned (app_serve cs sv))
    \<and> service_ok (interleaved schedule reqs sv)
    \<and> sv_active_tool_calls (interleaved schedule reqs sv) \<le> sc_max_concurrent_tool_calls (pc_server cfg)"
proof -
  obtain calls where c: "app_serve cs sv = serve calls sv" using app_serve_calls by blast
  have 0: "service_ok sv" "sv_sessions sv = []" "max_sessions (sv_limits sv) = sc_max_sessions (pc_server cfg)"
    "sv_permission_mode sv = sc_permission_mode (pc_server cfg)"
    "sv_memory_write_enabled sv = sc_memory_write_enabled (pc_server cfg)" "env_spawned sv = []"
    "sv_active_tool_calls sv = 0" "\<forall>sid. active_of sv sid = 0"
    "max_concurrent_tool_calls (sv_limits sv) = sc_max_concurrent_tool_calls (pc_server cfg)"
    by (simp_all add: assms(2) create_tool_service_def limits_of_config_def service_ok_def snapshots_ok_def
        new_token_store_def active_of_def Let_def)
  have m: "1 \<le> sc_max_sessions (pc_server cfg) \<and> sc_max_sessions (pc_server cfg) \<le> 64
      \<and> 0 \<le> sc_max_concurrent_tool_calls (pc_server cfg)"
    using assms(1) by (simp add: valid_config_def valid_server_config_def between_def)
  show ?thesis
    using serve_ok [OF 0(1), of calls] serve_allowlisted [of sv calls] sessions_within_limit [of calls sv]
      readonly_serves_reads [of sv calls] writes_only_enabled [of sv calls] serve_spawns [of sv calls] m
      interleaved_progresses [of reqs sv schedule] slots_settled [OF 0(7,8), of schedule reqs]
    by (cases "play schedule (sv, handlers reqs)") (simp add: c 0 progresses_def interleaved_def)
qed

theorem configured_server_witness:
  "lines_of (app_serve [AppConnectTarget ''openocd'' (Some ''localhost:3333'') ''gdb'' None ''cortex-m'' 1000 None,
      AppHalt ''session_0'' 1000 None, AppReadRegisters ''session_0'' ''core'']
      (create_tool_service example_environment [] default_config)) \<subseteq> lines_for reading"
proof -
  let ?sv = "create_tool_service example_environment [] default_config"
  let ?cs = "[AppConnectTarget ''openocd'' (Some ''localhost:3333'') ''gdb'' None ''cortex-m'' 1000 None,
      AppHalt ''session_0'' 1000 None, AppReadRegisters ''session_0'' ''core'']"
  have "sc_permission_mode (pc_server default_config) = READONLY"
    by (simp add: default_config_def default_server_config_def)
  then have "service_extends reading ?sv (app_serve ?cs ?sv)"
    using configured_server [where cfg = default_config and env = example_environment and events = "[]"
        and cs = ?cs, OF default_config_valid refl] by blast
  moreover have "lines_of ?sv = {}"
    by (simp add: lines_of_def sessions_of_def create_tool_service_def Let_def)
  ultimately show ?thesis using service_extends_lines by fastforce
qed

end
